(* ===== verification/PyValue.thy ===== *)
theory PyValue
  imports Main "HOL-Library.Char_ord" "HOL-Library.List_Lexorder" "HOL-Library.Product_Lexorder"
begin

text \<open>
  Prelude of the development: the Python values and exceptions that every component uses,
  and the lemmas they share.

  A JSON-like Python value is a \<open>pyval\<close>. A \<open>str\<close> is the list of its code points, and the
  type \<open>string\<close> restricts the model to the code points below 256.
  A \<open>dict\<close> is the association
  list of its items in insertion order, with distinct keys (\<open>wf_dict\<close>). Lists and tuples
  are kept apart, because Python never finds them equal. Floating-point values are outside
  the model.
\<close>

section \<open>Collections of the development\<close>

named_theorems py_simps \<open>evaluation of the operations on Python values\<close>
named_theorems res_elims \<open>elimination of results that are known to be successful\<close>

section \<open>Exceptions and results\<close>

datatype exn =
    ValueError string
  | TypeError string
  | KeyError string
  | RuntimeError string
  | FileNotFoundError
  | FileExistsError
  | OSError string
  | AttributeError string
  | SessionConflictError string
  | SessionCapabilityError string
  | SessionValidationError string

type_synonym 'a res = "exn + 'a"

definition rbind :: "'a res \<Rightarrow> ('a \<Rightarrow> 'b res) \<Rightarrow> 'b res" where
  "rbind m f = (case m of Inl e \<Rightarrow> Inl e | Inr x \<Rightarrow> f x)"

definition ensure :: "bool \<Rightarrow> exn \<Rightarrow> unit res" where
  \<comment> \<open>\<open>if not c: raise e\<close>\<close>
  "ensure c e = (if c then Inr () else Inl e)"

fun rmap :: "('a \<Rightarrow> 'b res) \<Rightarrow> 'a list \<Rightarrow> 'b list res" where
  \<comment> \<open>a comprehension whose element expression may raise\<close>
  "rmap f [] = Inr []"
| "rmap f (x # xs) = rbind (f x) (\<lambda>y. rbind (rmap f xs) (\<lambda>ys. Inr (y # ys)))"

fun rfold :: "('a \<Rightarrow> 's \<Rightarrow> 's res) \<Rightarrow> 'a list \<Rightarrow> 's \<Rightarrow> 's res" where
  \<comment> \<open>a \<open>for\<close> loop over the state \<open>s\<close> whose body may raise\<close>
  "rfold f [] s = Inr s"
| "rfold f (x # xs) s = rbind (f x s) (rfold f xs)"

lemma rbind_simps [simp, py_simps]:
  "rbind (Inl e) f = Inl e" "rbind (Inr x) f = f x"
  by (simp_all add: rbind_def)

lemma rbind_Inr_iff [simp]: "rbind m f = Inr y \<longleftrightarrow> (\<exists>x. m = Inr x \<and> f x = Inr y)"
  by (cases m) simp_all

lemma ensure_Inr_iff [simp]: "ensure c e = Inr u \<longleftrightarrow> c"
  by (simp add: ensure_def)

lemma ensure_simps [simp, py_simps]: "ensure True e = Inr ()" "ensure False e = Inl e"
  by (simp_all add: ensure_def)

lemma ensure_cases: "ensure c e = (if c then Inr () else Inl e)"
  by (simp add: ensure_def)

definition raise_if :: "bool \<Rightarrow> exn \<Rightarrow> unit res" where
  \<comment> \<open>\<open>if c: raise e\<close>\<close>
  "raise_if c e = (if c then Inl e else Inr ())"

fun checks :: "unit res list \<Rightarrow> unit res" where
  \<comment> \<open>a sequence of guards, of which the first that raises counts\<close>
  "checks [] = Inr ()"
| "checks (c # cs) = (case c of Inl e \<Rightarrow> Inl e | Inr u \<Rightarrow> checks cs)"

lemma checks_eval [simp, py_simps]:
  "checks (Inl e # cs) = Inl e" "checks (Inr u # cs) = checks cs"
  by simp_all

declare checks.simps(2) [simp del]

lemma raise_if_Inr_iff [simp]: "raise_if c e = Inr u \<longleftrightarrow> \<not> c"
  by (simp add: raise_if_def)

lemma raise_if_Inl_iff [simp]: "raise_if c e = Inl e' \<longleftrightarrow> c \<and> e' = e"
  by (auto simp: raise_if_def)

lemma checks_Inr_iff: "checks cs = Inr u \<longleftrightarrow> list_all (\<lambda>c. c = Inr ()) cs"
  by (induction cs) (auto simp: checks.simps split: sum.splits)

lemma checks_Cons_Inr [simp]: "checks (c # cs) = Inr u \<longleftrightarrow> c = Inr () \<and> checks cs = Inr ()"
  by (cases c) auto

lemma checks_append: "checks (cs @ ds) = (case checks cs of Inl e \<Rightarrow> Inl e | Inr u \<Rightarrow> checks ds)"
  by (induction cs) (auto simp: checks.simps split: sum.splits)

lemma rmap_Inr_length: "rmap f xs = Inr ys \<Longrightarrow> length ys = length xs"
  by (induction xs arbitrary: ys) auto

lemma rmap_Inr_iff: "rmap f xs = Inr ys \<longleftrightarrow> list_all2 (\<lambda>x y. f x = Inr y) xs ys"
  by (induction xs arbitrary: ys) (auto simp: list_all2_Cons1)

lemma rmap_total: "(\<And>x. x \<in> set xs \<Longrightarrow> f x = Inr (g x)) \<Longrightarrow> rmap f xs = Inr (map g xs)"
  by (induction xs) auto

lemma rfold_invariant:
  assumes "rfold f xs s = Inr t" and "P s"
    and "\<And>x s t. x \<in> set xs \<Longrightarrow> P s \<Longrightarrow> f x s = Inr t \<Longrightarrow> P t"
  shows "P t"
  using assms by (induction xs arbitrary: s) auto

lemma rfold_append: "rfold f (xs @ ys) s = rbind (rfold f xs s) (rfold f ys)"
proof (induction xs arbitrary: s)
  case (Cons x xs)
  show ?case by (cases "f x s") (simp_all add: Cons.IH)
qed simp

section \<open>Values\<close>

datatype pyval =
    PNone
  | PBool bool
  | PInt int
  | PStr string
  | PList "pyval list"
  | PTuple "pyval list"
  | PDict "(string \<times> pyval) list"

type_synonym dict = "(string \<times> pyval) list"

section \<open>Dictionaries as association lists\<close>

definition wf_dict :: "('k \<times> 'v) list \<Rightarrow> bool" where
  "wf_dict d = distinct (map fst d)"

definition dget :: "('k \<times> pyval) list \<Rightarrow> 'k \<Rightarrow> pyval" where
  \<comment> \<open>\<open>d.get(k)\<close>\<close>
  "dget d k = (case map_of d k of None \<Rightarrow> PNone | Some v \<Rightarrow> v)"

definition dget_or :: "('k \<times> 'v) list \<Rightarrow> 'k \<Rightarrow> 'v \<Rightarrow> 'v" where
  \<comment> \<open>\<open>d.get(k, default)\<close>\<close>
  "dget_or d k v0 = (case map_of d k of None \<Rightarrow> v0 | Some v \<Rightarrow> v)"

definition dhas :: "('k \<times> 'v) list \<Rightarrow> 'k \<Rightarrow> bool" where
  \<comment> \<open>\<open>k in d\<close>\<close>
  "dhas d k = (map_of d k \<noteq> None)"

definition dkeys :: "('k \<times> 'v) list \<Rightarrow> 'k list" where
  "dkeys d = map fst d"

fun dput :: "'k \<Rightarrow> 'v \<Rightarrow> ('k \<times> 'v) list \<Rightarrow> ('k \<times> 'v) list" where
  \<comment> \<open>\<open>d[k] = v\<close>: an existing key keeps its place, a new key goes last\<close>
  "dput k v [] = [(k, v)]"
| "dput k v ((k', v') # d) = (if k' = k then (k, v) # d else (k', v') # dput k v d)"

definition dpop :: "'k \<Rightarrow> ('k \<times> 'v) list \<Rightarrow> ('k \<times> 'v) list" where
  \<comment> \<open>\<open>d.pop(k, None)\<close>\<close>
  "dpop k d = filter (\<lambda>(k', v). k' \<noteq> k) d"

definition dpops :: "'k list \<Rightarrow> ('k \<times> 'v) list \<Rightarrow> ('k \<times> 'v) list" where
  "dpops ks d = fold dpop ks d"

definition dupdate :: "('k \<times> 'v) list \<Rightarrow> ('k \<times> 'v) list \<Rightarrow> ('k \<times> 'v) list" where
  \<comment> \<open>\<open>d.update(changes)\<close>, or \<open>for k, v in changes.items(): d[k] = v\<close>\<close>
  "dupdate d changes = fold (\<lambda>(k, v). dput k v) changes d"

lemma map_of_dput [simp, py_simps]: "map_of (dput k v d) = (map_of d)(k \<mapsto> v)"
  by (induction d) (auto simp: fun_eq_iff)

lemma keys_dput: "fst ` set (dput k v d) = insert k (fst ` set d)"
  by (induction k v d rule: dput.induct) (simp_all add: insert_commute)

lemma wf_dput [simp, intro]: "wf_dict d \<Longrightarrow> wf_dict (dput k v d)"
  by (induction k v d rule: dput.induct) (auto simp: wf_dict_def keys_dput)

lemma map_of_filter_keys: "map_of (filter (\<lambda>(k', v). k' \<noteq> k) d) = (map_of d)(k := None)"
  by (induction d) (auto simp: fun_eq_iff)

lemma map_of_dpop [simp, py_simps]: "map_of (dpop k d) = (map_of d)(k := None)"
  by (simp add: dpop_def map_of_filter_keys)

lemma wf_dpop [simp, intro]: "wf_dict d \<Longrightarrow> wf_dict (dpop k d)"
  by (auto simp: wf_dict_def dpop_def distinct_map_filter)

lemma map_of_dpops: "map_of (dpops ks d) k = (if k \<in> set ks then None else map_of d k)"
  by (induction ks arbitrary: d) (auto simp: dpops_def)

lemma wf_dpops [simp, intro]: "wf_dict d \<Longrightarrow> wf_dict (dpops ks d)"
  by (induction ks arbitrary: d) (auto simp: dpops_def)

lemma map_of_dupdate_notin: "k \<notin> fst ` set c \<Longrightarrow> map_of (dupdate d c) k = map_of d k"
  by (induction c arbitrary: d) (auto simp: dupdate_def)

lemma map_of_dupdate:
  "wf_dict c \<Longrightarrow> map_of (dupdate d c) k = (case map_of c k of None \<Rightarrow> map_of d k | Some v \<Rightarrow> Some v)"
proof (induction c arbitrary: d)
  case Nil
  show ?case by (simp add: dupdate_def)
next
  case (Cons kv c)
  obtain k' v' where kv: "kv = (k', v')" by force
  from Cons.prems kv have wf: "wf_dict c" and nin: "k' \<notin> fst ` set c"
    by (auto simp: wf_dict_def)
  have unfold: "dupdate d (kv # c) = dupdate (dput k' v' d) c"
    by (simp add: dupdate_def kv)
  from nin have none: "map_of c k' = None" by (simp add: map_of_eq_None_iff)
  show ?case
    unfolding unfold Cons.IH [OF wf] by (simp add: kv none split: option.split)
qed

lemma wf_dupdate [simp, intro]: "wf_dict d \<Longrightarrow> wf_dict (dupdate d c)"
  by (induction c arbitrary: d) (auto simp: dupdate_def)

lemma dget_dput [simp, py_simps]: "dget (dput k v d) k' = (if k' = k then v else dget d k')"
  by (simp add: dget_def)

lemma dget_dpop [simp, py_simps]: "dget (dpop k d) k' = (if k' = k then PNone else dget d k')"
  by (simp add: dget_def)

lemma dget_dupdate:
  "wf_dict c \<Longrightarrow> dget (dupdate d c) k = (if dhas c k then dget c k else dget d k)"
  by (auto simp: dget_def dhas_def map_of_dupdate split: option.splits)

lemma dget_dupdate_notin: "\<not> dhas c k \<Longrightarrow> dget (dupdate d c) k = dget d k"
  by (simp add: dget_def dhas_def map_of_eq_None_iff map_of_dupdate_notin)

lemma dhas_iff: "dhas d k \<longleftrightarrow> k \<in> fst ` set d"
  by (simp add: dhas_def map_of_eq_None_iff)

lemma dhas_dkeys: "dhas d k \<longleftrightarrow> k \<in> set (dkeys d)"
  by (simp add: dhas_iff dkeys_def)

lemma dkeys_set [simp]: "set (dkeys d) = fst ` set d"
  by (simp add: dkeys_def)

definition same_keys :: "('k \<times> 'v) list \<Rightarrow> 'k list \<Rightarrow> bool" where
  \<comment> \<open>\<open>set(d) == ks\<close> for a set \<open>ks\<close> given by its elements\<close>
  "same_keys d ks = (list_all (\<lambda>k. dhas d k) ks \<and> list_all (\<lambda>k. k \<in> set ks) (dkeys d))"

lemma same_keys_iff: "same_keys d ks \<longleftrightarrow> fst ` set d = set ks"
  by (auto simp: same_keys_def list_all_iff dhas_iff)

section \<open>Freezing, thawing and normalising\<close>

text \<open>
  The three conversions between a JSON document and its immutable form: freezing turns lists
  into tuples and sorts the items of a dictionary, thawing turns tuples back into lists,
  normalising does the same for a document that is about to be written. (The items of a
  frozen dictionary are sorted by key; the keys are distinct, so the order of the values
  never matters.)
\<close>

fun freeze :: "pyval \<Rightarrow> pyval"
and freeze_list :: "pyval list \<Rightarrow> pyval list"
and freeze_items :: "dict \<Rightarrow> dict" where
  "freeze (PList xs) = PTuple (freeze_list xs)"
| "freeze (PTuple xs) = PTuple (freeze_list xs)"
| "freeze (PDict d) = PDict (sort_key fst (freeze_items d))"
| "freeze PNone = PNone"
| "freeze (PBool b) = PBool b"
| "freeze (PInt n) = PInt n"
| "freeze (PStr s) = PStr s"
| "freeze_list [] = []"
| "freeze_list (v # vs) = freeze v # freeze_list vs"
| "freeze_items [] = []"
| "freeze_items ((k, v) # d) = (k, freeze v) # freeze_items d"

fun thaw :: "pyval \<Rightarrow> pyval"
and thaw_list :: "pyval list \<Rightarrow> pyval list"
and thaw_items :: "dict \<Rightarrow> dict" where
  "thaw (PTuple xs) = PList (thaw_list xs)"
| "thaw (PDict d) = PDict (thaw_items d)"
| "thaw (PList xs) = PList xs"
| "thaw PNone = PNone"
| "thaw (PBool b) = PBool b"
| "thaw (PInt n) = PInt n"
| "thaw (PStr s) = PStr s"
| "thaw_list [] = []"
| "thaw_list (v # vs) = thaw v # thaw_list vs"
| "thaw_items [] = []"
| "thaw_items ((k, v) # d) = (k, thaw v) # thaw_items d"

fun normalize :: "pyval \<Rightarrow> pyval"
and normalize_list :: "pyval list \<Rightarrow> pyval list"
and normalize_items :: "dict \<Rightarrow> dict" where
  "normalize (PTuple xs) = PList (normalize_list xs)"
| "normalize (PList xs) = PList (normalize_list xs)"
| "normalize (PDict d) = PDict (normalize_items d)"
| "normalize PNone = PNone"
| "normalize (PBool b) = PBool b"
| "normalize (PInt n) = PInt n"
| "normalize (PStr s) = PStr s"
| "normalize_list [] = []"
| "normalize_list (v # vs) = normalize v # normalize_list vs"
| "normalize_items [] = []"
| "normalize_items ((k, v) # d) = (k, normalize v) # normalize_items d"

lemma freeze_items_keys [simp]: "map fst (freeze_items d) = map fst d"
  by (induction d) auto

lemma thaw_items_keys [simp]: "map fst (thaw_items d) = map fst d"
  by (induction d) auto

section \<open>Python equality and truth\<close>

text \<open>
  \<open>==\<close> compares dictionaries as mappings (the order of the items does not count), lists with
  lists and tuples with tuples only, and reads \<open>True\<close> and \<open>False\<close> as the integers 1 and 0.
\<close>

definition bool_int :: "bool \<Rightarrow> int" where
  "bool_int b = (if b then 1 else 0)"

fun py_eq :: "pyval \<Rightarrow> pyval \<Rightarrow> bool"
and py_eqs :: "pyval list \<Rightarrow> pyval list \<Rightarrow> bool"
and py_sub :: "dict \<Rightarrow> dict \<Rightarrow> bool" where
  "py_eq PNone w = (w = PNone)"
| "py_eq (PBool a) w =
     (case w of PBool b \<Rightarrow> a = b | PInt n \<Rightarrow> bool_int a = n | _ \<Rightarrow> False)"
| "py_eq (PInt m) w =
     (case w of PInt n \<Rightarrow> m = n | PBool b \<Rightarrow> m = bool_int b | _ \<Rightarrow> False)"
| "py_eq (PStr s) w = (w = PStr s)"
| "py_eq (PList xs) w = (case w of PList ys \<Rightarrow> py_eqs xs ys | _ \<Rightarrow> False)"
| "py_eq (PTuple xs) w = (case w of PTuple ys \<Rightarrow> py_eqs xs ys | _ \<Rightarrow> False)"
| "py_eq (PDict d) w =
     (case w of PDict e \<Rightarrow> length d = length e \<and> py_sub d e | _ \<Rightarrow> False)"
| "py_eqs [] ws = (ws = [])"
| "py_eqs (v # vs) ws = (case ws of [] \<Rightarrow> False | w # ws' \<Rightarrow> py_eq v w \<and> py_eqs vs ws')"
| "py_sub [] e = True"
| "py_sub ((k, v) # d) e =
     ((case map_of e k of None \<Rightarrow> False | Some w \<Rightarrow> py_eq v w) \<and> py_sub d e)"

fun truthy :: "pyval \<Rightarrow> bool" where
  "truthy PNone = False"
| "truthy (PBool b) = b"
| "truthy (PInt n) = (n \<noteq> 0)"
| "truthy (PStr s) = (s \<noteq> [])"
| "truthy (PList xs) = (xs \<noteq> [])"
| "truthy (PTuple xs) = (xs \<noteq> [])"
| "truthy (PDict d) = (d \<noteq> [])"

definition py_or :: "pyval \<Rightarrow> pyval \<Rightarrow> pyval" where
  \<comment> \<open>\<open>v or w\<close>\<close>
  "py_or v w = (if truthy v then v else w)"

fun is_map :: "pyval \<Rightarrow> bool" where
  \<comment> \<open>\<open>isinstance(v, Mapping)\<close>\<close>
  "is_map (PDict d) = True"
| "is_map _ = False"

fun items :: "pyval \<Rightarrow> dict" where
  \<comment> \<open>the items of a value that \<open>is_map\<close> has accepted\<close>
  "items (PDict d) = d"
| "items _ = []"

fun is_str :: "pyval \<Rightarrow> bool" where
  "is_str (PStr s) = True"
| "is_str _ = False"

lemma py_eq_PStr [simp]: "py_eq v (PStr s) \<longleftrightarrow> v = PStr s"
  by (cases v) auto

lemma py_eq_PNone [simp]: "py_eq v PNone \<longleftrightarrow> v = PNone"
  by (cases v) auto

lemma py_eq_PInt_PInt [simp]: "py_eq (PInt m) (PInt n) \<longleftrightarrow> m = n"
  by simp

lemma is_map_iff: "is_map v \<longleftrightarrow> (\<exists>d. v = PDict d)"
  by (cases v) auto

text \<open>Well-formed values: every dictionary inside has distinct keys.\<close>

fun wf_val :: "pyval \<Rightarrow> bool"
and wf_vals :: "pyval list \<Rightarrow> bool"
and wf_items :: "dict \<Rightarrow> bool" where
  "wf_val PNone = True"
| "wf_val (PBool b) = True"
| "wf_val (PInt n) = True"
| "wf_val (PStr s) = True"
| "wf_val (PList xs) = wf_vals xs"
| "wf_val (PTuple xs) = wf_vals xs"
| "wf_val (PDict d) = (wf_dict d \<and> wf_items d)"
| "wf_vals [] = True"
| "wf_vals (v # vs) = (wf_val v \<and> wf_vals vs)"
| "wf_items [] = True"
| "wf_items ((k, v) # d) = (wf_val v \<and> wf_items d)"

lemma wf_vals_iff: "wf_vals vs \<longleftrightarrow> (\<forall>v\<in>set vs. wf_val v)"
  by (induction vs) auto

lemma wf_items_iff: "wf_items d \<longleftrightarrow> (\<forall>kv\<in>set d. wf_val (snd kv))"
  by (induction d) auto

lemma py_eq_refl_aux:
  "wf_val v \<Longrightarrow> py_eq v v"
  "wf_vals vs \<Longrightarrow> py_eqs vs vs"
  "wf_items d \<Longrightarrow> (\<forall>kv\<in>set d. map_of e (fst kv) = Some (snd kv)) \<Longrightarrow> py_sub d e"
proof (induction v and vs and d arbitrary: and and e rule: wf_val_wf_vals_wf_items.induct)
  case (7 d)
  then show ?case
    by (auto simp: wf_dict_def intro: map_of_is_SomeI)
qed auto

end
