(* ===== verification/PyText.thy ===== *)
theory PyText
  imports PyValue
begin

text \<open>
  Prelude, second part: the string methods of Python that the components use
  (\<open>strip\<close>, \<open>split\<close>, \<open>join\<close>, \<open>lower\<close>, \<open>startswith\<close>, \<open>in\<close>, \<open>str\<close>), on code points below
  256, and sets of strings as sorted lists. The stripping and splitting functions are
  generic in the element type, so that DeckConfigIni can use them on full Unicode text.
\<close>

section \<open>Character classes\<close>

definition code :: "char \<Rightarrow> nat" where
  "code c = of_char c"

definition is_space :: "char \<Rightarrow> bool" where
  \<comment> \<open>the code points below 256 with \<open>str.isspace\<close>\<close>
  "is_space c = (let n = code c in (9 \<le> n \<and> n \<le> 13) \<or> (28 \<le> n \<and> n \<le> 32) \<or> n = 133 \<or> n = 160)"

definition is_digit :: "char \<Rightarrow> bool" where
  "is_digit c = (let n = code c in 48 \<le> n \<and> n \<le> 57)"

definition is_alpha :: "char \<Rightarrow> bool" where
  \<comment> \<open>\<open>[A-Za-z]\<close>\<close>
  "is_alpha c = (let n = code c in (65 \<le> n \<and> n \<le> 90) \<or> (97 \<le> n \<and> n \<le> 122))"

definition is_lower_hex :: "char \<Rightarrow> bool" where
  \<comment> \<open>\<open>[0-9a-f]\<close>\<close>
  "is_lower_hex c = (c \<in> set ''0123456789abcdef'')"

definition is_word :: "char \<Rightarrow> bool" where
  \<comment> \<open>\<open>[A-Za-z0-9_]\<close>\<close>
  "is_word c = (is_alpha c \<or> is_digit c \<or> c = CHR ''_'')"

definition lower_char :: "char \<Rightarrow> char" where
  "lower_char c = (let n = code c in
     if (65 \<le> n \<and> n \<le> 90) \<or> (192 \<le> n \<and> n \<le> 222 \<and> n \<noteq> 215) then char_of (n + 32) else c)"

definition lower :: "string \<Rightarrow> string" where
  "lower s = map lower_char s"

section \<open>Stripping\<close>

definition lstrip_by :: "('a \<Rightarrow> bool) \<Rightarrow> 'a list \<Rightarrow> 'a list" where
  "lstrip_by p xs = dropWhile p xs"

definition rstrip_by :: "('a \<Rightarrow> bool) \<Rightarrow> 'a list \<Rightarrow> 'a list" where
  "rstrip_by p xs = rev (dropWhile p (rev xs))"

definition strip_by :: "('a \<Rightarrow> bool) \<Rightarrow> 'a list \<Rightarrow> 'a list" where
  "strip_by p xs = rstrip_by p (lstrip_by p xs)"

definition strip :: "string \<Rightarrow> string" where
  "strip s = strip_by is_space s"

lemma rstrip_by_snoc [simp]:
  "rstrip_by p (xs @ [x]) = (if p x then rstrip_by p xs else xs @ [x])"
  by (simp add: rstrip_by_def)

lemma rstrip_by_Nil [simp]: "rstrip_by p [] = []"
  by (simp add: rstrip_by_def)

lemma lstrip_by_simps [simp]:
  "lstrip_by p [] = []" "lstrip_by p (x # xs) = (if p x then lstrip_by p xs else x # xs)"
  by (simp_all add: lstrip_by_def)

lemma rstrip_by_idem: "rstrip_by p (rstrip_by p xs) = rstrip_by p xs"
  by (simp add: rstrip_by_def)

lemma rstrip_by_ends: "rstrip_by p xs \<noteq> [] \<Longrightarrow> \<not> p (last (rstrip_by p xs))"
  by (induction xs rule: rev_induct) (auto split: if_splits)

lemma rstrip_by_prefix: "\<exists>ys. xs = rstrip_by p xs @ ys \<and> list_all p ys"
proof (induction xs rule: rev_induct)
  case (snoc x xs)
  then show ?case
    by (cases "p x") (auto intro: exI [of _ "_ @ [x]"])
qed simp

lemma lstrip_by_suffix: "\<exists>ys. xs = ys @ lstrip_by p xs \<and> list_all p ys"
  by (rule exI [of _ "takeWhile p xs"]) (auto simp: lstrip_by_def list_all_iff dest: set_takeWhileD)

text \<open>A list is clean when stripping changes nothing: it is empty or both ends are kept.\<close>

definition clean :: "('a \<Rightarrow> bool) \<Rightarrow> 'a list \<Rightarrow> bool" where
  "clean p xs = (xs = [] \<or> (\<not> p (hd xs) \<and> \<not> p (last xs)))"

lemma strip_by_clean_iff: "strip_by p xs = xs \<longleftrightarrow> clean p xs"
proof
  assume eq: "strip_by p xs = xs"
  show "clean p xs"
  proof (cases "xs = []")
    case False
    then have "\<not> p (last xs)"
      using rstrip_by_ends [of p "lstrip_by p xs"] eq by (simp add: strip_by_def)
    moreover have "\<not> p (hd xs)"
    proof
      assume ph: "p (hd xs)"
      with False obtain y ys where xs: "xs = y # ys" "p y" by (cases xs) auto
      obtain zs where "lstrip_by p xs = strip_by p xs @ zs"
        using rstrip_by_prefix [of "lstrip_by p xs" p] by (auto simp: strip_by_def)
      with eq xs have "length xs \<le> length (lstrip_by p ys)" by simp
      also have "\<dots> \<le> length ys" by (simp add: lstrip_by_def length_dropWhile_le)
      finally show False using xs by simp
    qed
    ultimately show ?thesis by (simp add: clean_def)
  qed (simp add: clean_def)
next
  assume c: "clean p xs"
  show "strip_by p xs = xs"
  proof (cases xs rule: rev_cases)
    case (snoc ys y)
    with c have "\<not> p y" "lstrip_by p xs = xs" by (cases ys; simp add: clean_def)+
    then show ?thesis by (simp add: strip_by_def snoc)
  qed (simp add: strip_by_def)
qed

lemma clean_strip_by: "clean p (strip_by p xs)"
proof (cases "strip_by p xs = []")
  case False
  have l: "lstrip_by p xs \<noteq> []" using False by (auto simp: strip_by_def)
  have hd_l: "\<not> p (hd (lstrip_by p xs))"
    using l by (simp add: lstrip_by_def hd_dropWhile)
  obtain zs where "lstrip_by p xs = strip_by p xs @ zs"
    using rstrip_by_prefix [of "lstrip_by p xs" p] by (auto simp: strip_by_def)
  with False hd_l have "\<not> p (hd (strip_by p xs))" by (cases "strip_by p xs") auto
  moreover have "\<not> p (last (strip_by p xs))"
    using False rstrip_by_ends [of p "lstrip_by p xs"] by (simp add: strip_by_def)
  ultimately show ?thesis by (simp add: clean_def)
qed (simp add: clean_def)

lemma strip_by_idem [simp]: "strip_by p (strip_by p xs) = strip_by p xs"
  by (simp add: strip_by_clean_iff clean_strip_by)

lemma strip_idem [simp]: "strip (strip s) = strip s"
  by (simp add: strip_def)

lemma strip_Nil [simp]: "strip [] = []"
  by (simp add: strip_def strip_by_def)

lemma lstrip_by_append_all: "list_all p ys \<Longrightarrow> lstrip_by p (ys @ xs) = lstrip_by p xs"
  by (induction ys) auto

lemma rstrip_by_append_all: "list_all p ys \<Longrightarrow> rstrip_by p (xs @ ys) = rstrip_by p xs"
proof (induction ys rule: rev_induct)
  case (snoc y ys)
  then show ?case using rstrip_by_snoc [of p "xs @ ys" y] by simp
qed simp

lemma strip_by_padded:
  assumes "list_all p us" "list_all p vs" "clean p xs"
  shows "strip_by p (us @ xs @ vs) = xs"
proof (cases "xs = []")
  case True
  with assms(1,2) have "list_all p (us @ vs)" by simp
  then have "lstrip_by p (us @ vs) = []" by (simp add: lstrip_by_def list_all_iff)
  with True show ?thesis by (simp add: strip_by_def)
next
  case False
  with assms(3) have "lstrip_by p (xs @ vs) = xs @ vs" by (cases xs) (auto simp: clean_def)
  moreover have "rstrip_by p xs = xs"
    using False assms(3) by (cases xs rule: rev_cases) (auto simp: clean_def)
  ultimately show ?thesis
    by (simp add: strip_by_def lstrip_by_append_all [OF assms(1)] rstrip_by_append_all [OF assms(2)])
qed

section \<open>Splitting and joining\<close>

fun split_on :: "'a \<Rightarrow> 'a list \<Rightarrow> 'a list list" where
  \<comment> \<open>\<open>s.split(c)\<close> for a separator of one character\<close>
  "split_on c [] = [[]]"
| "split_on c (x # xs) =
     (if x = c then [] # split_on c xs
      else (case split_on c xs of [] \<Rightarrow> [[x]] | y # ys \<Rightarrow> (x # y) # ys))"

fun join :: "'a list \<Rightarrow> 'a list list \<Rightarrow> 'a list" where
  \<comment> \<open>\<open>sep.join(parts)\<close>\<close>
  "join sep [] = []"
| "join sep [x] = x"
| "join sep (x # y # xs) = x @ sep @ join sep (y # xs)"

fun words_acc :: "('a \<Rightarrow> bool) \<Rightarrow> 'a list \<Rightarrow> 'a list \<Rightarrow> 'a list list" where
  "words_acc p acc [] = (if acc = [] then [] else [acc])"
| "words_acc p acc (x # xs) =
     (if p x then (if acc = [] then words_acc p [] xs else acc # words_acc p [] xs)
      else words_acc p (acc @ [x]) xs)"

definition split_ws :: "string \<Rightarrow> string list" where
  \<comment> \<open>\<open>s.split()\<close>: the maximal runs of non-space characters\<close>
  "split_ws s = words_acc is_space [] s"

definition squeeze :: "string \<Rightarrow> string" where
  \<comment> \<open>\<open>" ".join(s.strip().split())\<close>\<close>
  "squeeze s = join '' '' (split_ws (strip s))"

lemma split_on_not_Nil [simp]: "split_on c xs \<noteq> []"
  by (cases xs) (auto split: list.splits)

lemma join_Cons: "join sep (x # xs) = (if xs = [] then x else x @ sep @ join sep xs)"
  by (cases xs) simp_all

lemma join_split_on: "join [c] (split_on c xs) = xs"
proof (induction xs)
  case (Cons x xs)
  then show ?case
    by (cases "split_on c xs") (auto simp: join_Cons)
qed simp

lemma split_on_no_sep: "c \<notin> set xs \<Longrightarrow> split_on c xs = [xs]"
  by (induction xs) auto

lemma split_on_append: "c \<notin> set x \<Longrightarrow> split_on c (x @ c # ys) = x # split_on c ys"
  by (induction x) auto

lemma split_on_join:
  "xs \<noteq> [] \<Longrightarrow> list_all (\<lambda>x. c \<notin> set x) xs \<Longrightarrow> split_on c (join [c] xs) = xs"
proof (induction xs)
  case (Cons x xs)
  then show ?case
    by (cases xs) (auto simp: split_on_no_sep split_on_append)
qed simp

section \<open>Searching\<close>

definition starts_with :: "'a list \<Rightarrow> 'a list \<Rightarrow> bool" where
  \<comment> \<open>\<open>s.startswith(p)\<close>\<close>
  "starts_with p s = (take (length p) s = p)"

definition ends_with :: "'a list \<Rightarrow> 'a list \<Rightarrow> bool" where
  "ends_with p s = starts_with (rev p) (rev s)"

fun contains :: "'a list \<Rightarrow> 'a list \<Rightarrow> bool" where
  \<comment> \<open>\<open>p in s\<close>\<close>
  "contains p [] = (p = [])"
| "contains p (x # xs) = (starts_with p (x # xs) \<or> contains p xs)"

lemma starts_with_append [simp]: "starts_with p (p @ s)"
  by (simp add: starts_with_def)

lemma starts_with_iff: "starts_with p s \<longleftrightarrow> (\<exists>t. s = p @ t)"
  by (metis append_take_drop_id starts_with_append starts_with_def)

lemma ends_with_append [simp]: "ends_with p (s @ p)"
  by (simp add: ends_with_def)

section \<open>Sets of strings as sorted lists\<close>

definition sorted_set :: "'a::linorder list \<Rightarrow> 'a list" where
  \<comment> \<open>\<open>sorted(set(xs))\<close>\<close>
  "sorted_set xs = sort (remdups xs)"

lemma set_sorted_set [simp]: "set (sorted_set xs) = set xs"
  by (simp add: sorted_set_def)

lemma sorted_sorted_set [simp]: "sorted (sorted_set xs)"
  by (simp add: sorted_set_def)

lemma distinct_sorted_set [simp]: "distinct (sorted_set xs)"
  by (simp add: sorted_set_def)

lemma sorted_set_eqI: "set xs = set ys \<Longrightarrow> sorted_set xs = sorted_set ys"
  by (rule sorted_distinct_set_unique) simp_all

lemma sorted_set_idem [simp]: "sorted_set (sorted_set xs) = sorted_set xs"
  by (rule sorted_set_eqI) simp

lemma sorted_set_fixed: "sorted_set xs = xs \<longleftrightarrow> sorted xs \<and> distinct xs"
proof
  assume "sorted_set xs = xs"
  then show "sorted xs \<and> distinct xs"
    by (metis sorted_sorted_set distinct_sorted_set)
qed (simp add: sorted_set_def sorted_sort_id distinct_remdups_id)

section \<open>Text of values\<close>

fun nat_digits :: "nat \<Rightarrow> string" where
  "nat_digits n =
     (if n < 10 then [char_of (48 + n)] else nat_digits (n div 10) @ [char_of (48 + n mod 10)])"

declare nat_digits.simps [simp del]

definition int_text :: "int \<Rightarrow> string" where
  \<comment> \<open>\<open>str(n)\<close>\<close>
  "int_text n = (if n < 0 then ''-'' @ nat_digits (nat (- n)) else nat_digits (nat n))"

definition hex_digit :: "nat \<Rightarrow> char" where
  "hex_digit n = (if n < 10 then char_of (48 + n) else char_of (87 + n))"

definition repr_char :: "char \<Rightarrow> char \<Rightarrow> string" where
  "repr_char q c = (let n = code c in
     if c = q \<or> c = CHR 0x5C then [CHR 0x5C, c]
     else if n = 10 then [CHR 0x5C, CHR ''n'']
     else if n = 13 then [CHR 0x5C, CHR ''r'']
     else if n = 9 then [CHR 0x5C, CHR ''t'']
     else if n < 32 \<or> (127 \<le> n \<and> n \<le> 160) \<or> n = 173
       then [CHR 0x5C, CHR ''x'', hex_digit (n div 16), hex_digit (n mod 16)]
     else [c])"

definition repr_str :: "string \<Rightarrow> string" where
  "repr_str s =
     (let q = (if CHR 0x27 \<in> set s \<and> CHR 0x22 \<notin> set s then CHR 0x22 else CHR 0x27)
      in [q] @ concat (map (repr_char q) s) @ [q])"

fun py_repr :: "pyval \<Rightarrow> string"
and py_reprs :: "pyval list \<Rightarrow> string list"
and py_repr_items :: "dict \<Rightarrow> string list" where
  "py_repr PNone = ''None''"
| "py_repr (PBool b) = (if b then ''True'' else ''False'')"
| "py_repr (PInt n) = int_text n"
| "py_repr (PStr s) = repr_str s"
| "py_repr (PList xs) = ''['' @ join '', '' (py_reprs xs) @ '']''"
| "py_repr (PTuple xs) =
     (case xs of [x] \<Rightarrow> ''('' @ join '', '' (py_reprs xs) @ '',)''
               | _ \<Rightarrow> ''('' @ join '', '' (py_reprs xs) @ '')'')"
| "py_repr (PDict d) = ''{'' @ join '', '' (py_repr_items d) @ ''}''"
| "py_reprs [] = []"
| "py_reprs (v # vs) = py_repr v # py_reprs vs"
| "py_repr_items [] = []"
| "py_repr_items ((k, v) # d) = (repr_str k @ '': '' @ py_repr v) # py_repr_items d"

definition py_str :: "pyval \<Rightarrow> string" where
  \<comment> \<open>\<open>str(v)\<close>\<close>
  "py_str v = (case v of PStr s \<Rightarrow> s | _ \<Rightarrow> py_repr v)"

lemma py_str_PStr [simp, py_simps]: "py_str (PStr s) = s"
  by (simp add: py_str_def)

fun elements :: "pyval \<Rightarrow> pyval list" where
  \<comment> \<open>iteration over a list, a tuple, the keys of a dict or the characters of a string\<close>
  "elements (PList xs) = xs"
| "elements (PTuple xs) = xs"
| "elements (PDict d) = map (\<lambda>(k, v). PStr k) d"
| "elements (PStr s) = map (\<lambda>c. PStr [c]) s"
| "elements _ = []"

fun is_seq :: "pyval \<Rightarrow> bool" where
  \<comment> \<open>\<open>isinstance(v, (list, tuple))\<close>\<close>
  "is_seq (PList xs) = True"
| "is_seq (PTuple xs) = True"
| "is_seq _ = False"

definition getitem :: "dict \<Rightarrow> string \<Rightarrow> pyval res" where
  \<comment> \<open>\<open>d[k]\<close>\<close>
  "getitem d k = (case map_of d k of None \<Rightarrow> Inl (KeyError k) | Some v \<Rightarrow> Inr v)"

fun py_len :: "pyval \<Rightarrow> int res" where
  \<comment> \<open>\<open>len(v)\<close>\<close>
  "py_len (PList xs) = Inr (int (length xs))"
| "py_len (PTuple xs) = Inr (int (length xs))"
| "py_len (PDict d) = Inr (int (length d))"
| "py_len (PStr s) = Inr (int (length s))"
| "py_len _ = Inl (TypeError ''len'')"

fun is_succ :: "pyval \<Rightarrow> pyval \<Rightarrow> bool" where
  \<comment> \<open>\<open>w == v + 1\<close> for a document field \<open>v\<close> that its validator has found to be an integer\<close>
  "is_succ (PInt m) w = py_eq w (PInt (m + 1))"
| "is_succ (PBool b) w = py_eq w (PInt (bool_int b + 1))"
| "is_succ _ w = False"

lemma getitem_Inr_iff: "getitem d k = Inr v \<longleftrightarrow> map_of d k = Some v"
  by (auto simp: getitem_def split: option.splits)

lemma getitem_dget: "getitem d k = Inr v \<Longrightarrow> dget d k = v"
  by (auto simp: getitem_Inr_iff dget_def)

end
