(* ===== verification/SessionTables.thy ===== *)
theory SessionTables
  imports PyText
begin

text \<open>
  The tables of the live-start session (\<open>src/src/hsconfig/live_start_session.py\<close>): the phases,
  the phases an event may connect, the artifacts every phase needs, the fields an update may
  touch and the authority it needs. A frozenset of the source is the list of its elements, a
  mapping is an association list; both keep the order in which the source writes them.
\<close>

section \<open>Phases\<close>

datatype live_phase =
    DISCOVERY_REQUIRED
  | INPUT_FROZEN
  | CANDIDATE_DRAFTED
  | CANDIDATE_VALIDATED
  | REVIEW_APPROVED
  | PACKAGE_VALIDATED
  | PREPUBLICATION_CHECK_PASSED
  | PUBLICATION_COMMITTED
  | APPLY_STARTED
  | APPLY_COMMITTED
  | RUNTIME_MATCHED

fun phase_text :: "live_phase \<Rightarrow> string" where
  "phase_text DISCOVERY_REQUIRED = ''DISCOVERY_REQUIRED''"
| "phase_text INPUT_FROZEN = ''INPUT_FROZEN''"
| "phase_text CANDIDATE_DRAFTED = ''CANDIDATE_DRAFTED''"
| "phase_text CANDIDATE_VALIDATED = ''CANDIDATE_VALIDATED''"
| "phase_text REVIEW_APPROVED = ''REVIEW_APPROVED''"
| "phase_text PACKAGE_VALIDATED = ''PACKAGE_VALIDATED''"
| "phase_text PREPUBLICATION_CHECK_PASSED = ''PREPUBLICATION_CHECK_PASSED''"
| "phase_text PUBLICATION_COMMITTED = ''PUBLICATION_COMMITTED''"
| "phase_text APPLY_STARTED = ''APPLY_STARTED''"
| "phase_text APPLY_COMMITTED = ''APPLY_COMMITTED''"
| "phase_text RUNTIME_MATCHED = ''RUNTIME_MATCHED''"

definition all_phases :: "live_phase list" where
  \<comment> \<open>\<open>list(LiveStartPhase)\<close>\<close>
  "all_phases =
    [DISCOVERY_REQUIRED, INPUT_FROZEN, CANDIDATE_DRAFTED, CANDIDATE_VALIDATED,
     REVIEW_APPROVED, PACKAGE_VALIDATED, PREPUBLICATION_CHECK_PASSED,
     PUBLICATION_COMMITTED, APPLY_STARTED, APPLY_COMMITTED, RUNTIME_MATCHED]"

fun index_of :: "'a \<Rightarrow> 'a list \<Rightarrow> nat" where
  "index_of x [] = 0"
| "index_of x (y # ys) = (if x = y then 0 else Suc (index_of x ys))"

definition phase_index :: "live_phase \<Rightarrow> nat" where
  \<comment> \<open>\<open>list(LiveStartPhase).index(phase)\<close>\<close>
  "phase_index p = index_of p all_phases"

fun find_phase :: "string \<Rightarrow> live_phase list \<Rightarrow> live_phase option" where
  "find_phase s [] = None"
| "find_phase s (p # ps) = (if phase_text p = s then Some p else find_phase s ps)"

definition phase_of_text :: "string \<Rightarrow> live_phase option" where
  \<comment> \<open>\<open>LiveStartPhase(s)\<close>, which raises for every other text\<close>
  "phase_of_text s = find_phase s all_phases"

section \<open>Fields and files\<close>

definition FROZEN_INPUT_FILES :: "string list" where
  "FROZEN_INPUT_FILES =
    [''inputs/input_snapshot_manifest.json'', ''inputs/deck.json'', ''inputs/cards.json'',
     ''inputs/sources.json'']"

definition RUN_LOGICAL_FILES :: "string list" where
  "RUN_LOGICAL_FILES =
    [''session.json'', ''inputs/input_snapshot_manifest.json'', ''inputs/deck.json'',
     ''inputs/cards.json'', ''inputs/sources.json'', ''starter/starter_context.json'',
     ''starter/starter_config_candidate.json'', ''starter/starter_config_review.json'',
     ''receipts/candidate_validation.json'', ''receipts/review_validation.json'',
     ''receipts/package_validation.json'', ''receipts/prepublication_apply_check.json'',
     ''receipts/apply_invocation.json'', ''terminal-resolution-cleanup.json'',
     ''result/summary.json'', ''result/summary.md'']"

definition QUALITY_SEED_PATHS :: "string list" where
  "QUALITY_SEED_PATHS =
    [''inputs/deck.json'', ''inputs/cards.json'', ''inputs/quality_seed.json'',
     ''research/request.json'', ''research/progress.json'']"

definition SESSION_FIELDS :: "string list" where
  "SESSION_FIELDS =
    [''schema_version'', ''run_id'', ''deck_name'', ''deck_code_sha256'', ''preview_requested'',
     ''phase'', ''candidate_revision'', ''revisions_used'', ''input_snapshot_manifest_sha256'',
     ''artifact_bindings'', ''pending_transition'', ''prepublication_work_binding'',
     ''output_operation_admission_binding'', ''output_child_binding'', ''publication_binding'',
     ''apply_invocation_sha256'', ''runtime_admission_binding'', ''runtime_layout_bootstrap'',
     ''apply_recovery'', ''closed_apply_recovery_commitment'', ''result_intent'',
     ''attempt_acknowledgement'', ''terminal_retirement'', ''terminal_status'', ''content_sha256'']"

definition PENDING_TRANSITION_FIELDS :: "string list" where
  "PENDING_TRANSITION_FIELDS =
    [''schema_version'', ''transition_kind'', ''run_id'', ''operation'', ''stage'',
     ''expected_session_sha256'', ''source_phase'', ''target_phase'',
     ''source_candidate_revision'', ''target_candidate_revision'', ''source_revisions_used'',
     ''target_revisions_used'', ''successor_artifact_bindings'', ''actions'',
     ''next_action_index'', ''external_file_action'', ''rendered_model_sha256'',
     ''work_parent_path'', ''work_parent_identity'', ''work_root'', ''work_root_identity'',
     ''work_tree_sha256'', ''cleanup_manifest_sha256'', ''cleanup_entry_count'',
     ''receipt_parent_path'', ''receipt_parent_identity'', ''cleanup_inventory_path'',
     ''cleanup_inventory_identity'', ''cleanup_inventory_size'', ''cleanup_inventory_sha256'',
     ''quarantine_path'', ''cleanup_parent_identity'', ''quarantine_identity'',
     ''cleanup_cursor'', ''apply_attempt_id'', ''apply_invocation_sha256'',
     ''apply_invocation_document_size'', ''runtime_admission_document_size'',
     ''runtime_admission_document_sha256'', ''runtime_admission_path'',
     ''runtime_admission_staging_path'', ''runtime_admission_staging_inner_temp_path'',
     ''runtime_admission_staging_identity'', ''runtime_admission_staging_size'',
     ''runtime_admission_staging_sha256'', ''runtime_admission_parent_identity'',
     ''runtime_admission_identity'', ''runtime_admission_sha256'', ''output_base_path'',
     ''output_base_identity'', ''output_operation_admission_path'',
     ''output_operation_admission_staging_path'',
     ''output_operation_admission_staging_inner_temp_path'',
     ''output_operation_admission_staging_identity'', ''output_operation_admission_staging_size'',
     ''output_operation_admission_staging_sha256'',
     ''output_operation_admission_parent_identity'', ''output_operation_admission_planned_size'',
     ''output_operation_admission_planned_sha256'', ''output_operation_admission_identity'',
     ''output_operation_admission_sha256'', ''output_child_path'',
     ''output_child_predecessor_state'', ''output_child_predecessor_identity'',
     ''planned_output_claim_size'', ''planned_output_claim_sha256'', ''output_claim_path'',
     ''output_claim_staging_path'', ''output_claim_staging_inner_temp_path'',
     ''output_claim_parent_identity'', ''output_claim_staging_identity'',
     ''output_claim_staging_size'', ''output_claim_staging_sha256'', ''output_claim_identity'',
     ''output_claim_sha256'', ''created_or_confirmed_output_child_identity'',
     ''output_bootstrap_lock_path'', ''output_bootstrap_lock_identity'', ''content_sha256'']"

definition EXTERNAL_FILE_ACTION_FIELDS :: "string list" where
  "EXTERNAL_FILE_ACTION_FIELDS =
    [''schema_version'', ''action_kind'', ''action_index'', ''stage'', ''final_path'',
     ''staging_path'', ''inner_temp_path'', ''parent_identity'', ''predecessor_state'',
     ''predecessor_identity'', ''predecessor_size'', ''predecessor_sha256'',
     ''planned_successor_size'', ''planned_successor_sha256'', ''staging_identity'',
     ''staging_size'', ''staging_sha256'', ''commit_mode'', ''content_sha256'']"

definition PREPUBLICATION_WORK_BINDING_FIELDS :: "string list" where
  "PREPUBLICATION_WORK_BINDING_FIELDS =
    [''work_parent_path'', ''work_parent_identity'', ''work_root'', ''work_root_identity'',
     ''work_tree_sha256'', ''cleanup_manifest_sha256'', ''cleanup_entry_count'']"

definition PUBLIC_SENSITIVE_UPDATE_FIELDS :: "string list" where
  "PUBLIC_SENSITIVE_UPDATE_FIELDS =
    [''artifact_bindings'', ''prepublication_work_binding'',
     ''output_operation_admission_binding'', ''output_child_binding'', ''publication_binding'',
     ''apply_invocation_sha256'', ''runtime_admission_binding'', ''runtime_layout_bootstrap'',
     ''apply_recovery'', ''closed_apply_recovery_commitment'', ''result_intent'',
     ''attempt_acknowledgement'', ''terminal_retirement'', ''terminal_status'']"

definition DOWNSTREAM_REVISION_ARTIFACTS :: "string list" where
  "DOWNSTREAM_REVISION_ARTIFACTS =
    [''receipts/candidate_validation.json'', ''starter/starter_config_review.json'',
     ''receipts/review_validation.json'', ''receipts/package_validation.json'',
     ''receipts/prepublication_apply_check.json'', ''receipts/apply_invocation.json'',
     ''result/summary.json'', ''result/summary.md'']"

definition PHASE_MANDATORY_ARTIFACTS :: "(live_phase \<times> string list) list" where
  "PHASE_MANDATORY_ARTIFACTS =
     [(INPUT_FROZEN, FROZEN_INPUT_FILES),
      (CANDIDATE_DRAFTED, FROZEN_INPUT_FILES @
       [''starter/starter_context.json'', ''starter/starter_config_candidate.json'']),
      (CANDIDATE_VALIDATED, FROZEN_INPUT_FILES @
       [''starter/starter_context.json'', ''starter/starter_config_candidate.json'',
        ''receipts/candidate_validation.json'']),
      (REVIEW_APPROVED, FROZEN_INPUT_FILES @
       [''starter/starter_context.json'', ''starter/starter_config_candidate.json'',
        ''receipts/candidate_validation.json'', ''starter/starter_config_review.json'',
        ''receipts/review_validation.json'']),
      (PACKAGE_VALIDATED, FROZEN_INPUT_FILES @
       [''starter/starter_context.json'', ''starter/starter_config_candidate.json'',
        ''receipts/candidate_validation.json'', ''starter/starter_config_review.json'',
        ''receipts/review_validation.json'', ''receipts/package_validation.json'']),
      (PREPUBLICATION_CHECK_PASSED, FROZEN_INPUT_FILES @
       [''starter/starter_context.json'', ''starter/starter_config_candidate.json'',
        ''receipts/candidate_validation.json'', ''starter/starter_config_review.json'',
        ''receipts/review_validation.json'', ''receipts/package_validation.json'',
        ''receipts/prepublication_apply_check.json'']),
      (PUBLICATION_COMMITTED, FROZEN_INPUT_FILES @
       [''starter/starter_context.json'', ''starter/starter_config_candidate.json'',
        ''receipts/candidate_validation.json'', ''starter/starter_config_review.json'',
        ''receipts/review_validation.json'', ''receipts/package_validation.json'',
        ''receipts/prepublication_apply_check.json'']),
      (APPLY_STARTED, FROZEN_INPUT_FILES @
       [''starter/starter_context.json'', ''starter/starter_config_candidate.json'',
        ''receipts/candidate_validation.json'', ''starter/starter_config_review.json'',
        ''receipts/review_validation.json'', ''receipts/package_validation.json'',
        ''receipts/prepublication_apply_check.json'', ''receipts/apply_invocation.json'']),
      (APPLY_COMMITTED, FROZEN_INPUT_FILES @
       [''starter/starter_context.json'', ''starter/starter_config_candidate.json'',
        ''receipts/candidate_validation.json'', ''starter/starter_config_review.json'',
        ''receipts/review_validation.json'', ''receipts/package_validation.json'',
        ''receipts/prepublication_apply_check.json'', ''receipts/apply_invocation.json'']),
      (RUNTIME_MATCHED, FROZEN_INPUT_FILES @
       [''starter/starter_context.json'', ''starter/starter_config_candidate.json'',
        ''receipts/candidate_validation.json'', ''starter/starter_config_review.json'',
        ''receipts/review_validation.json'', ''receipts/package_validation.json'',
        ''receipts/prepublication_apply_check.json'', ''receipts/apply_invocation.json''])]"

section \<open>Transitions\<close>

definition PHASE_TRANSITIONS :: "(live_phase \<times> live_phase list) list" where
  "PHASE_TRANSITIONS =
     [(INPUT_FROZEN, [CANDIDATE_DRAFTED]),
      (CANDIDATE_DRAFTED, [CANDIDATE_DRAFTED, CANDIDATE_VALIDATED]),
      (CANDIDATE_VALIDATED, [CANDIDATE_DRAFTED, REVIEW_APPROVED]),
      (REVIEW_APPROVED, [PACKAGE_VALIDATED]),
      (PACKAGE_VALIDATED, [PREPUBLICATION_CHECK_PASSED]),
      (PREPUBLICATION_CHECK_PASSED, [PUBLICATION_COMMITTED]),
      (PUBLICATION_COMMITTED, [APPLY_STARTED]),
      (APPLY_STARTED, [APPLY_STARTED, APPLY_COMMITTED]),
      (APPLY_COMMITTED, [APPLY_COMMITTED, RUNTIME_MATCHED]),
      (RUNTIME_MATCHED, [RUNTIME_MATCHED])]"

definition EVENT_TRANSITIONS :: "(string \<times> live_phase \<times> live_phase) list" where
  "EVENT_TRANSITIONS =
     [(''initial_draft'', (INPUT_FROZEN, CANDIDATE_DRAFTED)),
      (''candidate_valid'', (CANDIDATE_DRAFTED, CANDIDATE_VALIDATED)),
      (''technical_failure'', (CANDIDATE_DRAFTED, CANDIDATE_DRAFTED)),
      (''replacement_draft'', (CANDIDATE_DRAFTED, CANDIDATE_DRAFTED)),
      (''review_approved'', (CANDIDATE_VALIDATED, REVIEW_APPROVED)),
      (''review_revision'', (CANDIDATE_VALIDATED, CANDIDATE_DRAFTED)),
      (''package_validated'', (REVIEW_APPROVED, PACKAGE_VALIDATED)),
      (''prepublication_passed'', (PACKAGE_VALIDATED, PREPUBLICATION_CHECK_PASSED)),
      (''publication_committed'', (PREPUBLICATION_CHECK_PASSED, PUBLICATION_COMMITTED)),
      (''apply_started'', (PUBLICATION_COMMITTED, APPLY_STARTED)),
      (''apply_committed'', (APPLY_STARTED, APPLY_COMMITTED)),
      (''runtime_matched'', (APPLY_COMMITTED, RUNTIME_MATCHED))]"

definition PHASE_FINAL_PENDING_OPERATIONS :: "(string \<times> string) list" where
  "PHASE_FINAL_PENDING_OPERATIONS =
     [(''initial_draft'', ''install_candidate''),
      (''replacement_draft'', ''install_candidate''),
      (''candidate_valid'', ''install_candidate_validation''),
      (''review_approved'', ''install_review_validation''),
      (''review_revision'', ''review_revision''),
      (''package_validated'', ''install_package_validation''),
      (''prepublication_passed'', ''install_prepublication_validation''),
      (''apply_started'', ''install_apply_invocation'')]"

definition INTERNAL_EVENT_FIELD_ALLOWLIST :: "(string \<times> string list) list" where
  "INTERNAL_EVENT_FIELD_ALLOWLIST =
     [(''same_phase_cas'',
       [''artifact_bindings'', ''pending_transition'', ''prepublication_work_binding'',
        ''output_operation_admission_binding'', ''output_child_binding'', ''publication_binding'',
        ''apply_invocation_sha256'', ''runtime_admission_binding'', ''runtime_layout_bootstrap'',
        ''apply_recovery'', ''closed_apply_recovery_commitment'', ''result_intent'',
        ''attempt_acknowledgement'', ''terminal_retirement'']),
      (''apply_committed'',
       [''apply_recovery'']),
      (''runtime_matched'',
       [''apply_recovery'']),
      (''apply_started'',
       [''artifact_bindings'', ''pending_transition'', ''output_operation_admission_binding'',
        ''apply_invocation_sha256'', ''runtime_admission_binding'']),
      (''package_validated'',
       [''artifact_bindings'', ''pending_transition'', ''prepublication_work_binding'']),
      (''prepublication_passed'',
       [''artifact_bindings'', ''pending_transition'']),
      (''publication_committed'',
       [''publication_binding'']),
      (''bind_terminal'',
       [''artifact_bindings'', ''terminal_status'']),
      (''initial_draft'',
       [''artifact_bindings'', ''pending_transition'']),
      (''candidate_valid'',
       [''artifact_bindings'', ''pending_transition'']),
      (''review_approved'',
       [''artifact_bindings'', ''pending_transition'']),
      (''replacement_draft'',
       [''artifact_bindings'', ''pending_transition'']),
      (''review_revision'',
       [''artifact_bindings'', ''pending_transition''])]"

section \<open>Facts about the tables\<close>

lemma phase_of_text_phase_text [simp]: "phase_of_text (phase_text p) = Some p"
  by (cases p) (simp_all add: phase_of_text_def all_phases_def)

lemma phase_text_inject [simp]: "phase_text p = phase_text q \<longleftrightarrow> p = q"
  by (metis option.inject phase_of_text_phase_text)

lemma phase_of_text_Some: "phase_of_text s = Some p \<longleftrightarrow> s = phase_text p"
proof
  have "find_phase s ps = Some p \<Longrightarrow> s = phase_text p" for ps
    by (induction ps) (auto split: if_splits)
  then show "phase_of_text s = Some p \<Longrightarrow> s = phase_text p"
    by (simp add: phase_of_text_def)
qed simp

lemma phase_index_simps [simp]:
  "phase_index DISCOVERY_REQUIRED = 0"
  "phase_index INPUT_FROZEN = 1"
  "phase_index CANDIDATE_DRAFTED = 2"
  "phase_index CANDIDATE_VALIDATED = 3"
  "phase_index REVIEW_APPROVED = 4"
  "phase_index PACKAGE_VALIDATED = 5"
  "phase_index PREPUBLICATION_CHECK_PASSED = 6"
  "phase_index PUBLICATION_COMMITTED = 7"
  "phase_index APPLY_STARTED = 8"
  "phase_index APPLY_COMMITTED = 9"
  "phase_index RUNTIME_MATCHED = 10"
  by (simp_all add: phase_index_def all_phases_def)

lemma phase_index_inject [simp]: "phase_index p = phase_index q \<longleftrightarrow> p = q"
  by (cases p; cases q) simp_all

text \<open>The table of the phases as a relation, one rule for each entry.\<close>

inductive phase_edge :: "live_phase \<Rightarrow> live_phase \<Rightarrow> bool" where
  phase_edge_table: "map_of PHASE_TRANSITIONS p = Some qs \<Longrightarrow> q \<in> set qs \<Longrightarrow> phase_edge p q"

inductive_cases phase_edgeE: "phase_edge p q"

lemma phase_edge_iff:
  "phase_edge p q \<longleftrightarrow>
     q \<in> set (case map_of PHASE_TRANSITIONS p of None \<Rightarrow> [] | Some qs \<Rightarrow> qs)"
  by (cases "map_of PHASE_TRANSITIONS p") (auto simp: phase_edge.simps)

text \<open>
  The only edge that goes back is the one from a validated candidate to a draft; from
  \<open>REVIEW_APPROVED\<close> on, the table is the order of the phases.
\<close>

lemma phase_edge_forward:
  "phase_edge p q \<Longrightarrow> phase_index p \<le> phase_index q \<or> (p = CANDIDATE_VALIDATED \<and> q = CANDIDATE_DRAFTED)"
  by (cases p) (auto simp: phase_edge_iff PHASE_TRANSITIONS_def)

lemma phase_edge_single:
  "phase_edge p q \<Longrightarrow> phase_index q \<le> Suc (phase_index p)"
  by (cases p) (auto simp: phase_edge_iff PHASE_TRANSITIONS_def)

lemma event_transition_edge:
  "map_of EVENT_TRANSITIONS e = Some (p, q) \<Longrightarrow> phase_edge p q"
  by (auto simp: EVENT_TRANSITIONS_def phase_edge_iff PHASE_TRANSITIONS_def split: if_splits)

end
