(* ===== verification/SessionDocuments.thy ===== *)
theory SessionDocuments
  imports SessionTables
begin

text \<open>
  The documents inside a live-start session
  (\<open>src/src/hsconfig/live_start_session.py\<close>): the checks of single fields, the bindings of
  artifacts, research inputs, prepublication work, publication and runtime admission.

  A \<open>session_env\<close> holds what is outside this model: the validators of the self-digested
  documents (\<open>validate_embedded_document\<close>, \<open>_validate_apply_recovery_document\<close>), the digest
  (SHA-256 of the canonical JSON) and the path operations of \<open>pathlib\<close>, which depend on the
  platform.
\<close>

record session_env =
  validate_document :: "string \<Rightarrow> pyval \<Rightarrow> pyval res"
  validate_recovery :: "pyval \<Rightarrow> pyval res"
  self_digest :: "pyval \<Rightarrow> string"
  absolute_path :: "string \<Rightarrow> bool"
  path_parent :: "string \<Rightarrow> string"
  path_name :: "string \<Rightarrow> string"
  path_join :: "string \<Rightarrow> string \<Rightarrow> string"

definition is_sha256_text :: "pyval \<Rightarrow> bool" where
  \<comment> \<open>a match of \<open>sha256:[0-9a-f]{64}\<close>\<close>
  "is_sha256_text v =
     (case v of PStr s \<Rightarrow> starts_with ''sha256:'' s \<and> length s = 71 \<and> list_all is_lower_hex (drop 7 s)
              | _ \<Rightarrow> False)"

definition require_sha256 :: "pyval \<Rightarrow> string \<Rightarrow> unit res" where
  "require_sha256 v name =
     ensure (is_sha256_text v) (SessionValidationError (''live_start_'' @ name @ ''_invalid''))"

definition is_run_id :: "pyval \<Rightarrow> bool" where
  "is_run_id v = (case v of PStr s \<Rightarrow> length s = 32 \<and> list_all is_lower_hex s | _ \<Rightarrow> False)"

definition is_deck_name :: "pyval \<Rightarrow> bool" where
  "is_deck_name v =
     (case v of PStr s \<Rightarrow> 1 \<le> length s \<and> length s \<le> 128 \<and> list_all (\<lambda>c. code c \<ge> 32) s
              | _ \<Rightarrow> False)"

definition bounded_integer :: "pyval \<Rightarrow> int \<Rightarrow> int \<Rightarrow> string \<Rightarrow> int res" where
  "bounded_integer v lo hi name =
     (case v of PInt n \<Rightarrow> if lo \<le> n \<and> n \<le> hi then Inr n
                         else Inl (SessionValidationError (''live_start_'' @ name @ ''_invalid''))
              | _ \<Rightarrow> Inl (SessionValidationError (''live_start_'' @ name @ ''_invalid'')))"

definition require_identity :: "pyval \<Rightarrow> string \<Rightarrow> unit res" where
  "require_identity v name =
     ensure
       (is_seq v \<and> length (elements v) = 3
        \<and> list_all (\<lambda>x. case x of PInt n \<Rightarrow> 0 \<le> n | _ \<Rightarrow> False) (elements v))
       (SessionValidationError (''live_start_'' @ name @ ''_invalid''))"

definition require_absolute_path :: "session_env \<Rightarrow> pyval \<Rightarrow> string \<Rightarrow> unit res" where
  "require_absolute_path env v name =
     ensure (case v of PStr s \<Rightarrow> absolute_path env s | _ \<Rightarrow> False)
       (SessionValidationError (''live_start_'' @ name @ ''_invalid''))"

definition invalid_unless :: "bool \<Rightarrow> string \<Rightarrow> unit res" where
  "invalid_unless c message = ensure c (SessionValidationError message)"

definition invalid_if :: "bool \<Rightarrow> string \<Rightarrow> unit res" where
  "invalid_if c message = raise_if c (SessionValidationError message)"

lemma invalid_Inr_iff [simp]:
  "invalid_unless c m = Inr u \<longleftrightarrow> c" "invalid_if c m = Inr u \<longleftrightarrow> \<not> c"
  by (simp_all add: invalid_unless_def invalid_if_def)

lemma invalid_eval [py_simps]:
  "invalid_unless True m = Inr ()" "invalid_unless False m = Inl (SessionValidationError m)"
  "invalid_if True m = Inl (SessionValidationError m)" "invalid_if False m = Inr ()"
  by (simp_all add: invalid_unless_def invalid_if_def raise_if_def)

definition when_ok :: "bool \<Rightarrow> unit res \<Rightarrow> unit res" where
  \<comment> \<open>\<open>if c: check\<close>\<close>
  "when_ok c r = (if c then r else Inr ())"

lemma when_ok_Inr_iff [simp]: "when_ok c r = Inr u \<longleftrightarrow> (c \<longrightarrow> r = Inr u)"
  by (auto simp: when_ok_def)

definition field :: "pyval \<Rightarrow> string \<Rightarrow> pyval" where
  \<comment> \<open>\<open>v.get(f)\<close> for a document that has been found to be a mapping\<close>
  "field v f = dget (items v) f"

definition one_of :: "pyval \<Rightarrow> string list \<Rightarrow> bool" where
  \<comment> \<open>\<open>v in {...}\<close> for a set of strings and a hashable value\<close>
  "one_of v names = (case v of PStr s \<Rightarrow> s \<in> set names | _ \<Rightarrow> False)"

section \<open>Bindings of artifacts and research inputs\<close>

definition QUALITY_INPUT_PATHS :: "string list" where
  "QUALITY_INPUT_PATHS = QUALITY_SEED_PATHS @ FROZEN_INPUT_FILES @ [''inputs/quality.json'']"

definition allowed_artifacts :: "bool \<Rightarrow> string list" where
  "allowed_artifacts quality =
     remdups (if quality then RUN_LOGICAL_FILES @ QUALITY_INPUT_PATHS else RUN_LOGICAL_FILES)"

definition validate_artifact_bindings :: "pyval \<Rightarrow> bool \<Rightarrow> bool \<Rightarrow> unit res" where
  "validate_artifact_bindings v quality discovery =
     (let allowed = allowed_artifacts quality; d = items v in
      checks
       ([invalid_if (\<not> is_map v \<or> length d > length allowed) ''live_start_artifact_bindings_invalid'']
        @ concat (map (\<lambda>(logical, digest).
            [invalid_if (logical \<notin> set allowed \<or> logical = ''session.json'')
               ''live_start_artifact_path_invalid'',
             require_sha256 digest ''artifact_sha256'']) d)
        @ [invalid_if (\<not> dhas d ''inputs/input_snapshot_manifest.json'' \<and> \<not> discovery)
             ''live_start_snapshot_binding_missing'']))"

definition validate_quality_research_binding :: "dict \<Rightarrow> unit res" where
  "validate_quality_research_binding value =
     (let binding = dget value ''research_binding''; b = items binding;
          fields = [''request_sha256'', ''seed_sha256'', ''deck_sha256'', ''cards_sha256''];
          artifacts = items (dget value ''artifact_bindings'') in
      checks
       ([invalid_if (\<not> is_map binding \<or> \<not> same_keys b fields) ''live_start_research_binding_invalid'']
        @ map (\<lambda>name. require_sha256 (dget b name) name) fields
        @ map (\<lambda>(path, name).
            invalid_if (dhas artifacts path \<and> \<not> py_eq (dget artifacts path) (dget b name))
              ''live_start_research_input_binding_changed'')
          [(''inputs/deck.json'', ''deck_sha256''), (''inputs/cards.json'', ''cards_sha256''),
           (''inputs/quality_seed.json'', ''seed_sha256'')]))"

section \<open>Bindings of work, publication and runtime admission\<close>

definition MAX_FILESYSTEM_NODES :: int where
  "MAX_FILESYSTEM_NODES = 110000"

definition validate_self_digest :: "session_env \<Rightarrow> dict \<Rightarrow> string \<Rightarrow> unit res" where
  "validate_self_digest env d error_code =
     invalid_unless
       (dget d ''content_sha256'' = PStr (self_digest env (PDict (dpop ''content_sha256'' d)))) error_code"

definition validate_prepublication_work_binding :: "session_env \<Rightarrow> dict \<Rightarrow> unit res" where
  "validate_prepublication_work_binding env w =
     (let marker = normalize (dget w ''cleanup_completion'');
          base = normalize (PDict (map (\<lambda>k. (k, dget w k)) PREPUBLICATION_WORK_BINDING_FIELDS)) in
      checks
       ([invalid_unless
           (same_keys w PREPUBLICATION_WORK_BINDING_FIELDS
            \<or> same_keys w (PREPUBLICATION_WORK_BINDING_FIELDS @ [''cleanup_completion'']))
           ''live_start_prepublication_work_binding_fields_invalid'']
        @ map (\<lambda>k. require_absolute_path env (dget w k) k) [''work_parent_path'', ''work_root'']
        @ map (\<lambda>k. require_identity (dget w k) k) [''work_parent_identity'', ''work_root_identity'']
        @ map (\<lambda>k. require_sha256 (dget w k) k) [''work_tree_sha256'', ''cleanup_manifest_sha256'']
        @ [rbind (bounded_integer (dget w ''cleanup_entry_count'') 0 MAX_FILESYSTEM_NODES
             ''cleanup_entry_count'') (\<lambda>_. Inr ()),
           invalid_if
             (path_parent env (py_str (dget w ''work_root'')) \<noteq> py_str (dget w ''work_parent_path''))
             ''live_start_prepublication_work_path_invalid'',
           when_ok (dhas w ''cleanup_completion'')
             (checks
               [invalid_if
                  (\<not> is_map (dget w ''cleanup_completion'')
                   \<or> \<not> same_keys (items (dget w ''cleanup_completion''))
                      [''work_binding_sha256'', ''cleanup_parent_path'', ''cleanup_parent_identity'',
                       ''content_sha256''])
                  ''live_start_cleanup_completion_fields_invalid'',
                validate_self_digest env (items marker) ''live_start_cleanup_completion_digest_invalid'',
                require_identity (field marker ''cleanup_parent_identity'') ''cleanup_parent_identity'',
                invalid_if
                  (field marker ''work_binding_sha256'' \<noteq> PStr (self_digest env base)
                   \<or> field marker ''cleanup_parent_path''
                     \<noteq> PStr (path_join env (path_parent env (py_str (dget w ''work_parent_path''))) ''cleanup''))
                  ''live_start_cleanup_completion_binding_invalid''])]))"

definition RUNTIME_ADMISSION_BINDING_FIELDS :: "string list" where
  "RUNTIME_ADMISSION_BINDING_FIELDS =
     [''admission_path'', ''admission_parent_identity'', ''admission_identity'', ''admission_sha256'',
      ''output_operation_admission_path'', ''output_operation_admission_identity'',
      ''output_operation_admission_sha256'', ''output_child_binding_sha256'', ''output_child_path'',
      ''output_child_identity'', ''publication_revision'', ''publication_content_root_sha256'']"

definition PUBLICATION_BINDING_FIELDS :: "string list" where
  "PUBLICATION_BINDING_FIELDS =
     [''output_child_path'', ''output_child_identity'', ''output_child_binding_sha256'', ''revision'',
      ''content_root_sha256'', ''prior_current_identity'']"

definition is_publication_revision :: "pyval \<Rightarrow> bool" where
  \<comment> \<open>a match of \<open>revisions/sha256-[0-9a-f]{64}\<close>\<close>
  "is_publication_revision v =
     (case v of PStr s \<Rightarrow> starts_with ''revisions/sha256-'' s \<and> length s = 81
                    \<and> list_all is_lower_hex (drop 17 s)
              | _ \<Rightarrow> False)"

definition validate_runtime_admission_binding :: "session_env \<Rightarrow> dict \<Rightarrow> unit res" where
  "validate_runtime_admission_binding env v =
     checks
      ([invalid_unless (same_keys v RUNTIME_ADMISSION_BINDING_FIELDS)
          ''live_start_runtime_admission_binding_fields_invalid'']
       @ map (\<lambda>k. require_absolute_path env (dget v k) k)
           [''admission_path'', ''output_operation_admission_path'', ''output_child_path'']
       @ map (\<lambda>k. require_identity (dget v k) k)
           [''admission_parent_identity'', ''admission_identity'', ''output_operation_admission_identity'',
            ''output_child_identity'']
       @ map (\<lambda>k. require_sha256 (dget v k) k)
           [''admission_sha256'', ''output_operation_admission_sha256'', ''output_child_binding_sha256'',
            ''publication_content_root_sha256'']
       @ [invalid_unless (is_publication_revision (dget v ''publication_revision''))
            ''live_start_runtime_admission_publication_revision_invalid''])"

definition validate_publication_binding :: "session_env \<Rightarrow> dict \<Rightarrow> unit res" where
  "validate_publication_binding env v =
     checks
      [invalid_unless (same_keys v PUBLICATION_BINDING_FIELDS)
         ''live_start_publication_binding_fields_invalid'',
       require_absolute_path env (dget v ''output_child_path'') ''publication_output_child_path'',
       require_identity (dget v ''output_child_identity'') ''publication_output_child_identity'',
       require_sha256 (dget v ''output_child_binding_sha256'') ''publication_output_child_binding_sha256'',
       when_ok (dget v ''prior_current_identity'' \<noteq> PNone)
         (require_identity (dget v ''prior_current_identity'') ''publication_prior_current_identity''),
       invalid_unless (is_publication_revision (dget v ''revision''))
         ''live_start_publication_revision_invalid'',
       require_sha256 (dget v ''content_root_sha256'') ''publication_content_root_sha256'']"

end
