(* ===== verification/SessionUpdate.thy ===== *)
theory SessionUpdate
  imports SessionDocuments
begin

text \<open>
  The update function of the live-start session
  (\<open>_apply_session_update\<close> and \<open>_validate_update_authority\<close> of
  \<open>src/src/hsconfig/live_start_session.py\<close>): what an event may change, which authority it
  needs, and how a pending transition may advance.

  A session is the canonical JSON value that \<open>to_value()\<close> decodes, with the four attributes
  that the code reads as typed values.
\<close>

section \<open>State, updates, authority\<close>

record session =
  schema_version :: int
  phase :: live_phase
  candidate_revision :: int
  revisions_used :: int
  session_value :: dict

record session_update =
  update_event :: string
  update_changes :: dict

datatype authority = NoAuthority | InternalAuthority | ForgedAuthority

definition session_attr :: "session \<Rightarrow> string \<Rightarrow> pyval" where
  \<comment> \<open>\<open>session.name\<close>: the frozen form of the field of that name\<close>
  "session_attr s name = freeze (dget (session_value s) name)"

definition LiveStartSessionUpdate :: "string \<Rightarrow> dict \<Rightarrow> session_update res" where
  "LiveStartSessionUpdate event changes =
     (if event = [] then Inl (ValueError ''live_start_session_update_event_invalid'')
      else Inr \<lparr>update_event = event, update_changes = items (freeze (PDict changes))\<rparr>)"

section \<open>Discovery sessions\<close>

definition quality_completion :: "dict \<Rightarrow> dict \<Rightarrow> unit res" where
  "quality_completion old changes =
     rbind (getitem old ''stage'') (\<lambda>stage.
     rbind (raise_if (stage \<noteq> PStr ''PRIMARY_APPLIED'')
       (SessionConflictError ''live_start_quality_actions_incomplete'')) (\<lambda>_.
     rbind (getitem old ''next_action_index'') (\<lambda>index.
     rbind (getitem old ''actions'') (\<lambda>actions.
     rbind (py_len actions) (\<lambda>n.
     rbind (raise_if (\<not> py_eq index (PInt n))
       (SessionConflictError ''live_start_quality_actions_incomplete'')) (\<lambda>_.
     rbind (getitem old ''successor_artifact_bindings'') (\<lambda>bindings.
     rbind (raise_if (\<not> py_eq (dget changes ''artifact_bindings'') bindings)
       (SessionConflictError ''live_start_quality_final_bindings_invalid'')) (\<lambda>_.
     rbind (getitem old ''operation'') (\<lambda>operation.
       if operation = PStr ''quality_freeze'' then
         checks
          [raise_if
             (\<not> same_keys changes
                [''pending_transition'', ''artifact_bindings'', ''phase'',
                 ''input_snapshot_manifest_sha256''])
             (SessionConflictError ''live_start_quality_freeze_fields_invalid''),
           require_sha256 (dget changes ''input_snapshot_manifest_sha256'')
             ''input_snapshot_manifest_sha256'',
           raise_if (dget changes ''phase'' \<noteq> PStr ''INPUT_FROZEN'')
             (SessionConflictError ''live_start_quality_freeze_binding_invalid'')]
       else
         raise_if (\<not> same_keys changes [''pending_transition'', ''artifact_bindings''])
           (SessionConflictError ''live_start_quality_premature_freeze''))))))))))"

definition quality_checkpoint :: "dict \<Rightarrow> dict \<Rightarrow> dict \<Rightarrow> unit res" where
  "quality_checkpoint old new changes =
     rbind (raise_if (\<not> same_keys changes [''pending_transition''])
       (SessionConflictError ''live_start_quality_checkpoint_fields_invalid'')) (\<lambda>_.
     let mutable = [''content_sha256'', ''stage'', ''next_action_index''] in
     rbind (raise_if
         (\<not> py_eq (PDict (dpops mutable (thaw_items old))) (PDict (dpops mutable (thaw_items new))))
       (SessionConflictError ''live_start_quality_checkpoint_invalid'')) (\<lambda>_.
     rbind (getitem old ''stage'') (\<lambda>old_stage.
     rbind (getitem new ''stage'') (\<lambda>new_stage.
     rbind (getitem old ''next_action_index'') (\<lambda>old_index.
     rbind (getitem new ''next_action_index'') (\<lambda>new_index.
     raise_if
       (\<not> ((old_stage = PStr ''PREPARED'' \<and> new_stage = PStr ''PRIMARY_APPLIED''
              \<and> py_eq new_index (PInt 0))
          \<or> (old_stage = PStr ''PRIMARY_APPLIED'' \<and> new_stage = PStr ''PRIMARY_APPLIED''
              \<and> is_succ old_index new_index)))
       (SessionConflictError ''live_start_quality_checkpoint_invalid'')))))))"

definition quality_session_successor :: "session \<Rightarrow> dict \<Rightarrow> authority \<Rightarrow> dict res" where
  "quality_session_successor s changes auth =
     rbind (raise_if
        (auth \<noteq> InternalAuthority \<or> schema_version s \<noteq> 2 \<or> phase s \<noteq> DISCOVERY_REQUIRED
         \<or> \<not> list_all (\<lambda>k. k \<in> set [''pending_transition'', ''artifact_bindings'',
                          ''input_snapshot_manifest_sha256'', ''phase'']) (dkeys changes))
        (SessionCapabilityError ''live_start_quality_transition_authority_invalid'')) (\<lambda>_.
     let old = session_attr s ''pending_transition''; new = dget changes ''pending_transition'' in
     rbind
       (if old = PNone then
          raise_if
            (\<not> same_keys changes [''pending_transition''] \<or> \<not> is_map new
             \<or> \<not> py_eq (dget (items new) ''expected_session_sha256'') (session_attr s ''content_sha256''))
            (SessionConflictError ''live_start_quality_predecessor_invalid'')
        else if new = PNone then quality_completion (items old) changes
        else quality_checkpoint (items old) (items new) changes) (\<lambda>_.
     Inr (dupdate (dpop ''content_sha256'' (session_value s)) changes)))"

section \<open>Successors of a pending transition\<close>

definition unchanged_fields :: "string list \<Rightarrow> string list \<Rightarrow> dict \<Rightarrow> dict \<Rightarrow> bool" where
  \<comment> \<open>the fields outside \<open>mutable\<close> agree\<close>
  "unchanged_fields names mutable p q =
     list_all (\<lambda>f. py_eq (dget p f) (dget q f)) (filter (\<lambda>f. f \<notin> set mutable) names)"

definition external_action_unchanged_except :: "dict \<Rightarrow> dict \<Rightarrow> string list \<Rightarrow> bool" where
  "external_action_unchanged_except p q mutable =
     unchanged_fields EXTERNAL_FILE_ACTION_FIELDS mutable p q"

definition RUNTIME_ADMISSION_FIELDS :: "string list" where
  "RUNTIME_ADMISSION_FIELDS =
     [''runtime_admission_staging_identity'', ''runtime_admission_staging_size'',
      ''runtime_admission_staging_sha256'', ''runtime_admission_identity'',
      ''runtime_admission_sha256'']"

definition stage_is :: "dict \<Rightarrow> string \<Rightarrow> bool" where
  "stage_is d st = (dget d ''stage'' = PStr st)"

definition kind_is :: "dict \<Rightarrow> string \<Rightarrow> bool" where
  "kind_is d k = (dget d ''action_kind'' = PStr k)"

text \<open>
  The seven ways in which an \<open>install_apply_invocation\<close> transition may advance. \<open>c\<close> and
  \<open>n\<close> are the current and the next document, \<open>ce\<close> and \<open>ne\<close> their external file action.
\<close>

definition runtime_unchanged :: "dict \<Rightarrow> dict \<Rightarrow> bool" where
  "runtime_unchanged c n = list_all (\<lambda>f. py_eq (dget c f) (dget n f)) RUNTIME_ADMISSION_FIELDS"

definition index_unchanged :: "dict \<Rightarrow> dict \<Rightarrow> bool" where
  "index_unchanged c n = py_eq (dget c ''next_action_index'') (dget n ''next_action_index'')"

definition planned_again :: "string \<Rightarrow> pyval \<Rightarrow> pyval \<Rightarrow> bool" where
  \<comment> \<open>the same planned action, one attempt later\<close>
  "planned_again kind ce ne =
     (is_map ce \<and> is_map ne
      \<and> stage_is (items ce) ''PLANNED'' \<and> stage_is (items ne) ''PLANNED''
      \<and> kind_is (items ce) kind \<and> kind_is (items ne) kind
      \<and> is_succ (dget (items ce) ''action_index'') (dget (items ne) ''action_index'')
      \<and> external_action_unchanged_except (items ce) (items ne) [''action_index'', ''content_sha256''])"

definition planned_bound :: "string \<Rightarrow> string \<Rightarrow> pyval \<Rightarrow> pyval \<Rightarrow> bool" where
  \<comment> \<open>a planned action whose staging file is now bound\<close>
  "planned_bound kind kind' ce ne =
     (is_map ce \<and> is_map ne
      \<and> kind_is (items ce) kind \<and> stage_is (items ce) ''PLANNED''
      \<and> kind_is (items ne) kind' \<and> stage_is (items ne) ''STAGING_BOUND''
      \<and> external_action_unchanged_except (items ce) (items ne)
          [''action_kind'', ''stage'', ''staging_identity'', ''staging_size'', ''staging_sha256'',
           ''content_sha256''])"

definition prepared_cleanup :: "dict \<Rightarrow> dict \<Rightarrow> pyval \<Rightarrow> pyval \<Rightarrow> bool" where
  "prepared_cleanup c n ce ne =
     (stage_is c ''PREPARED'' \<and> stage_is n ''PREPARED''
      \<and> planned_again ''materialize_runtime_admission_staging'' ce ne
      \<and> runtime_unchanged c n \<and> index_unchanged c n)"

definition admission_staging_bound :: "dict \<Rightarrow> dict \<Rightarrow> pyval \<Rightarrow> pyval \<Rightarrow> bool" where
  "admission_staging_bound c n ce ne =
     (stage_is c ''PREPARED'' \<and> stage_is n ''STAGING_BOUND''
      \<and> planned_bound ''materialize_runtime_admission_staging'' ''commit_bound_runtime_admission'' ce ne
      \<and> dget c ''runtime_admission_staging_identity'' = PNone
      \<and> dget n ''runtime_admission_staging_identity'' \<noteq> PNone
      \<and> dget c ''runtime_admission_identity'' = PNone
      \<and> dget n ''runtime_admission_identity'' = PNone
      \<and> index_unchanged c n)"

definition admission_committed :: "dict \<Rightarrow> dict \<Rightarrow> pyval \<Rightarrow> pyval \<Rightarrow> bool" where
  "admission_committed c n ce ne =
     (stage_is c ''STAGING_BOUND'' \<and> stage_is n ''PRIMARY_APPLIED''
      \<and> is_map ce \<and> kind_is (items ce) ''commit_bound_runtime_admission''
      \<and> stage_is (items ce) ''STAGING_BOUND'' \<and> ne = PNone
      \<and> dget c ''runtime_admission_identity'' = PNone
      \<and> py_eq (dget n ''runtime_admission_identity'') (dget c ''runtime_admission_staging_identity'')
      \<and> py_eq (dget n ''runtime_admission_sha256'') (dget c ''runtime_admission_staging_sha256'')
      \<and> index_unchanged c n)"

definition receipt_intent_installed :: "dict \<Rightarrow> dict \<Rightarrow> pyval \<Rightarrow> pyval \<Rightarrow> bool" where
  "receipt_intent_installed c n ce ne =
     (stage_is c ''PRIMARY_APPLIED'' \<and> stage_is n ''PRIMARY_APPLIED''
      \<and> ce = PNone \<and> is_map ne
      \<and> kind_is (items ne) ''materialize_invocation_receipt_staging''
      \<and> stage_is (items ne) ''PLANNED''
      \<and> runtime_unchanged c n \<and> index_unchanged c n
      \<and> py_eq (dget n ''next_action_index'') (PInt 0))"

definition receipt_cleanup :: "dict \<Rightarrow> dict \<Rightarrow> pyval \<Rightarrow> pyval \<Rightarrow> bool" where
  "receipt_cleanup c n ce ne =
     (stage_is c ''PRIMARY_APPLIED'' \<and> stage_is n ''PRIMARY_APPLIED''
      \<and> planned_again ''materialize_invocation_receipt_staging'' ce ne
      \<and> runtime_unchanged c n \<and> index_unchanged c n)"

definition receipt_staging_bound :: "dict \<Rightarrow> dict \<Rightarrow> pyval \<Rightarrow> pyval \<Rightarrow> bool" where
  "receipt_staging_bound c n ce ne =
     (stage_is c ''PRIMARY_APPLIED'' \<and> stage_is n ''PRIMARY_APPLIED''
      \<and> planned_bound ''materialize_invocation_receipt_staging'' ''commit_bound_invocation_receipt'' ce ne
      \<and> runtime_unchanged c n \<and> index_unchanged c n)"

definition receipt_committed :: "dict \<Rightarrow> dict \<Rightarrow> pyval \<Rightarrow> pyval \<Rightarrow> bool" where
  "receipt_committed c n ce ne =
     (stage_is c ''PRIMARY_APPLIED'' \<and> stage_is n ''PRIMARY_APPLIED''
      \<and> is_map ce \<and> kind_is (items ce) ''commit_bound_invocation_receipt''
      \<and> stage_is (items ce) ''STAGING_BOUND'' \<and> ne = PNone
      \<and> runtime_unchanged c n
      \<and> is_succ (dget c ''next_action_index'') (dget n ''next_action_index''))"

definition apply_invocation_step :: "dict \<Rightarrow> dict \<Rightarrow> bool" where
  "apply_invocation_step c n =
     (let ce = dget c ''external_file_action''; ne = dget n ''external_file_action'' in
      prepared_cleanup c n ce ne \<or> admission_staging_bound c n ce ne \<or> admission_committed c n ce ne
      \<or> receipt_intent_installed c n ce ne \<or> receipt_cleanup c n ce ne
      \<or> receipt_staging_bound c n ce ne \<or> receipt_committed c n ce ne)"

definition validate_apply_invocation_pending_successor ::
    "session_env \<Rightarrow> pyval \<Rightarrow> pyval \<Rightarrow> unit res" where
  "validate_apply_invocation_pending_successor env predecessor successor =
     rbind (validate_document env ''pending_transition'' predecessor) (\<lambda>current.
     let c = items current; external = dget c ''external_file_action'' in
     if successor = PNone then
       raise_if
         (\<not> stage_is c ''PREPARED'' \<or> \<not> is_map external \<or> \<not> stage_is (items external) ''PLANNED''
          \<or> \<not> list_all (\<lambda>f. dget c f = PNone) RUNTIME_ADMISSION_FIELDS)
         (SessionCapabilityError ''live_start_apply_invocation_rollback_invalid'')
     else if \<not> is_map successor then
       Inl (SessionCapabilityError ''live_start_apply_invocation_successor_invalid'')
     else
       rbind (validate_document env ''pending_transition'' successor) (\<lambda>next_value.
       let n = items next_value in
       checks
        [ensure
           (unchanged_fields PENDING_TRANSITION_FIELDS
              ([''stage'', ''next_action_index'', ''external_file_action''] @ RUNTIME_ADMISSION_FIELDS
               @ [''content_sha256'']) c n)
           (SessionCapabilityError ''live_start_apply_invocation_successor_changed''),
         ensure (apply_invocation_step c n)
           (SessionCapabilityError ''live_start_apply_invocation_successor_invalid'')]))"

definition materialization_completion :: "session_env \<Rightarrow> dict \<Rightarrow> pyval \<Rightarrow> unit res" where
  "materialization_completion env c work_binding =
     (let w = normalize work_binding; b = items w; actions = dget c ''actions'' in
      rbind (if is_map w then validate_prepublication_work_binding env b else Inr ()) (\<lambda>_.
      raise_if
        (\<not> stage_is c ''PRIMARY_APPLIED''
         \<or> (case actions of PTuple xs \<Rightarrow>
               \<not> py_eq (dget c ''next_action_index'') (PInt (int (length xs))) | _ \<Rightarrow> True)
         \<or> \<not> is_map w
         \<or> \<not> same_keys b PREPUBLICATION_WORK_BINDING_FIELDS
         \<or> \<not> py_eq (dget b ''work_parent_path'') (dget c ''work_parent_path'')
         \<or> \<not> py_eqs (elements (dget b ''work_parent_identity'')) (elements (dget c ''work_parent_identity''))
         \<or> \<not> py_eq (dget b ''work_root'') (dget c ''work_root'')
         \<or> \<not> py_eqs (elements (dget b ''work_root_identity'')) (elements (dget c ''work_root_identity'')))
        (SessionCapabilityError ''live_start_prepublication_materialization_completion_invalid'')))"

definition materialization_step :: "dict \<Rightarrow> dict \<Rightarrow> bool" where
  "materialization_step c n =
     (if stage_is c ''PREPARED'' then
        stage_is n ''PRIMARY_APPLIED''
        \<and> dget c ''work_root_identity'' = PNone \<and> dget n ''work_root_identity'' \<noteq> PNone
        \<and> py_eq (dget c ''next_action_index'') (PInt 0) \<and> py_eq (dget n ''next_action_index'') (PInt 0)
      else
        stage_is c ''PRIMARY_APPLIED'' \<and> stage_is n ''PRIMARY_APPLIED''
        \<and> py_eq (dget c ''work_root_identity'') (dget n ''work_root_identity'')
        \<and> is_succ (dget c ''next_action_index'') (dget n ''next_action_index''))"

definition validate_prepublication_materialization_successor ::
    "session_env \<Rightarrow> pyval \<Rightarrow> pyval \<Rightarrow> pyval \<Rightarrow> unit res" where
  "validate_prepublication_materialization_successor env predecessor successor work_binding =
     rbind (validate_document env ''pending_transition'' predecessor) (\<lambda>current.
     if successor = PNone then materialization_completion env (items current) work_binding
     else if \<not> is_map successor then
       Inl (SessionCapabilityError ''live_start_prepublication_materialization_successor_invalid'')
     else
       rbind (validate_document env ''pending_transition'' successor) (\<lambda>next_value.
       checks
        [ensure
           (unchanged_fields PENDING_TRANSITION_FIELDS
              [''stage'', ''work_root_identity'', ''next_action_index'', ''content_sha256'']
              (items current) (items next_value))
           (SessionCapabilityError ''live_start_prepublication_materialization_successor_changed''),
         raise_if (work_binding \<noteq> PNone)
           (SessionCapabilityError ''live_start_prepublication_materialization_successor_invalid''),
         ensure (materialization_step (items current) (items next_value))
           (SessionCapabilityError ''live_start_prepublication_materialization_successor_invalid'')]))"

definition cleanup_unchanged :: "string list \<Rightarrow> pyval \<Rightarrow> pyval \<Rightarrow> bool" where
  "cleanup_unchanged mutable ce ne =
     unchanged_fields EXTERNAL_FILE_ACTION_FIELDS mutable (items ce) (items ne)"

definition cleanup_step :: "dict \<Rightarrow> dict \<Rightarrow> unit res" where
  "cleanup_step c n =
     (let ce = dget c ''external_file_action''; ne = dget n ''external_file_action'';
          invalid = SessionCapabilityError ''live_start_prepublication_cleanup_successor_invalid'';
          changed = SessionCapabilityError ''live_start_prepublication_cleanup_successor_changed'' in
      if stage_is c ''PREPARED'' \<and> stage_is n ''PREPARED'' then
        checks
         [raise_if (\<not> is_map ce \<or> \<not> is_map ne) invalid,
          ensure (cleanup_unchanged [''action_index'', ''content_sha256''] ce ne) changed,
          ensure (is_succ (dget (items ce) ''action_index'') (dget (items ne) ''action_index'')) invalid]
      else if stage_is c ''PREPARED'' \<and> stage_is n ''STAGING_BOUND'' then
        checks
         [raise_if
            (\<not> is_map ce \<or> \<not> is_map ne
             \<or> \<not> kind_is (items ce) ''materialize_prepublication_cleanup_inventory_staging''
             \<or> \<not> kind_is (items ne) ''commit_bound_prepublication_cleanup_inventory''
             \<or> \<not> stage_is (items ce) ''PLANNED'' \<or> \<not> stage_is (items ne) ''STAGING_BOUND''
             \<or> \<not> py_eq (dget (items ce) ''action_index'') (dget (items ne) ''action_index'')) invalid,
          ensure (cleanup_unchanged [''action_kind'', ''stage'', ''staging_identity'',
            ''staging_size'', ''staging_sha256'', ''content_sha256''] ce ne) changed]
      else if stage_is c ''STAGING_BOUND'' \<and> stage_is n ''PRIMARY_APPLIED'' then
        raise_if
          (\<not> is_map ce \<or> ne \<noteq> PNone
           \<or> \<not> py_eq (dget n ''cleanup_inventory_identity'') (dget (items ce) ''staging_identity'')
           \<or> dget n ''quarantine_identity'' \<noteq> PNone
           \<or> \<not> py_eq (dget n ''cleanup_cursor'') (PInt 0)) invalid
      else if stage_is c ''PRIMARY_APPLIED'' \<and> stage_is n ''CLEANUP_DELETING'' then
        raise_if
          (ce \<noteq> PNone \<or> ne \<noteq> PNone
           \<or> \<not> py_eq (dget c ''cleanup_inventory_identity'') (dget n ''cleanup_inventory_identity'')
           \<or> dget c ''quarantine_identity'' \<noteq> PNone
           \<or> \<not> py_eq (dget n ''quarantine_identity'') (dget c ''work_root_identity'')
           \<or> \<not> py_eq (dget c ''cleanup_cursor'') (PInt 0)
           \<or> \<not> py_eq (dget n ''cleanup_cursor'') (PInt 0)) invalid
      else if stage_is c ''CLEANUP_DELETING'' \<and> stage_is n ''CLEANUP_DELETING'' then
        raise_if
          (ce \<noteq> PNone \<or> ne \<noteq> PNone
           \<or> \<not> py_eq (dget c ''cleanup_inventory_identity'') (dget n ''cleanup_inventory_identity'')
           \<or> \<not> py_eq (dget c ''quarantine_identity'') (dget n ''quarantine_identity'')
           \<or> \<not> is_succ (dget c ''cleanup_cursor'') (dget n ''cleanup_cursor'')) invalid
      else Inl invalid)"

definition validate_prepublication_cleanup_pending_successor ::
    "session_env \<Rightarrow> pyval \<Rightarrow> pyval \<Rightarrow> unit res" where
  "validate_prepublication_cleanup_pending_successor env predecessor successor =
     rbind (validate_document env ''pending_transition'' predecessor) (\<lambda>current.
     rbind (validate_document env ''pending_transition'' successor) (\<lambda>next_value.
     checks
      [ensure
         (unchanged_fields PENDING_TRANSITION_FIELDS
            [''stage'', ''external_file_action'', ''cleanup_inventory_identity'',
             ''quarantine_identity'', ''cleanup_cursor'', ''content_sha256'']
            (items current) (items next_value))
         (SessionCapabilityError ''live_start_prepublication_cleanup_successor_changed''),
       cleanup_step (items current) (items next_value)]))"

end
