(* ===== verification/SessionMachine.thy ===== *)
theory SessionMachine
  imports SessionUpdate
begin

text \<open>
  The live-start session as a state machine: the guards of an update
  (\<open>_validate_update_authority\<close>), the update itself (\<open>_apply_session_update\<close>), loading the
  result (the typed part of \<open>_load_session_bytes\<close>), the resulting step relation, and its
  invariants: the revision budget, the order of the phases, the fields that never change.
\<close>

section \<open>Guards\<close>

definition validate_public_update_scope :: "string \<Rightarrow> dict \<Rightarrow> unit res" where
  "validate_public_update_scope event changes =
     checks
      [raise_if (event = ''review_revision'')
         (SessionCapabilityError ''live_start_review_revision_specialized_authority_required''),
       raise_if (event \<in> set [''apply_committed'', ''runtime_matched'', ''bind_terminal''])
         (SessionCapabilityError ''live_start_specialized_transition_authority_required''),
       raise_if
         (is_map (dget changes ''pending_transition'')
          \<and> dget (items (dget changes ''pending_transition'')) ''operation'' = PStr ''review_revision'')
         (SessionCapabilityError ''live_start_review_revision_specialized_authority_required''),
       raise_if (list_ex (\<lambda>k. k \<in> set PUBLIC_SENSITIVE_UPDATE_FIELDS) (dkeys changes))
         (SessionCapabilityError ''live_start_specialized_field_authority_required'')]"

definition completed_prepublication_work_binding ::
    "session_env \<Rightarrow> dict \<Rightarrow> dict \<Rightarrow> pyval res" where
  "completed_prepublication_work_binding env work pending =
     rbind (raise_if
        (\<not> same_keys work PREPUBLICATION_WORK_BINDING_FIELDS
         \<or> dget pending ''operation'' \<noteq> PStr ''cleanup_prepublication''
         \<or> \<not> stage_is pending ''CLEANUP_DELETING''
         \<or> \<not> py_eq (dget pending ''cleanup_cursor'') (dget work ''cleanup_entry_count'')
         \<or> dget pending ''external_file_action'' \<noteq> PNone
         \<or> \<not> unchanged_fields PREPUBLICATION_WORK_BINDING_FIELDS [] pending work)
        (SessionCapabilityError ''live_start_prepublication_cleanup_incomplete'')) (\<lambda>_.
     let base = normalize_items work in
     rbind (getitem base ''work_parent_path'') (\<lambda>work_parent_path.
     rbind (getitem base ''work_root'') (\<lambda>work_root.
     let cleanup_parent = path_join env (path_parent env (py_str work_parent_path)) ''cleanup'';
         work_name = path_name env (py_str work_root) in
     rbind (raise_if
        (dget pending ''cleanup_inventory_path''
           \<noteq> PStr (path_join env cleanup_parent (work_name @ ''.inventory.json''))
         \<or> dget pending ''quarantine_path''
           \<noteq> PStr (path_join env cleanup_parent (work_name @ ''.quarantine'')))
        (SessionCapabilityError ''live_start_prepublication_cleanup_path_invalid'')) (\<lambda>_.
     rbind (getitem pending ''cleanup_parent_identity'') (\<lambda>identity.
     let marker = [(''work_binding_sha256'', PStr (self_digest env (PDict base))),
                   (''cleanup_parent_path'', PStr cleanup_parent),
                   (''cleanup_parent_identity'', normalize identity)];
         sealed = dput ''content_sha256'' (PStr (self_digest env (PDict marker))) marker in
     Inr (PDict (dput ''cleanup_completion'' (PDict sealed) base)))))))"

definition validate_prepublication_cleanup_completion_successor ::
    "session_env \<Rightarrow> session \<Rightarrow> string \<Rightarrow> dict \<Rightarrow> bool \<Rightarrow> unit res" where
  "validate_prepublication_cleanup_completion_successor env s event changes internally_authorized =
     (let work = session_attr s ''prepublication_work_binding'';
          successor = dget_or changes ''prepublication_work_binding'' work;
          pending = session_attr s ''pending_transition'';
          invalid = SessionCapabilityError ''live_start_prepublication_cleanup_completion_invalid'' in
      if is_map pending \<and> dget (items pending) ''operation'' = PStr ''cleanup_prepublication''
         \<and> dhas changes ''pending_transition'' \<and> dget changes ''pending_transition'' = PNone
      then
        rbind (raise_if (\<not> is_map work) invalid) (\<lambda>_.
        rbind (completed_prepublication_work_binding env (items work) (items pending)) (\<lambda>completed.
        raise_if
          (event \<noteq> ''same_phase_cas'' \<or> \<not> internally_authorized
           \<or> \<not> same_keys changes [''pending_transition'', ''prepublication_work_binding'']
           \<or> \<not> py_eq (normalize successor) completed) invalid))
      else if is_map work \<and> \<not> py_eq (normalize successor) (normalize work) then
        Inl (SessionCapabilityError ''live_start_prepublication_cleanup_binding_immutable'')
      else raise_if (is_map successor \<and> dhas (items successor) ''cleanup_completion'' \<and> work = PNone) invalid)"

definition validate_authority_scope :: "session \<Rightarrow> string \<Rightarrow> dict \<Rightarrow> authority \<Rightarrow> unit res" where
  "validate_authority_scope s event changes auth =
     (case auth of
        ForgedAuthority \<Rightarrow> Inl (SessionCapabilityError ''live_start_transition_authority_forged'')
      | InternalAuthority \<Rightarrow>
          ensure
            (case map_of INTERNAL_EVENT_FIELD_ALLOWLIST event of
               None \<Rightarrow> False
             | Some allowed \<Rightarrow> list_all (\<lambda>k. k \<in> set allowed) (dkeys changes))
            (SessionCapabilityError ''live_start_internal_transition_authority_scope_invalid'')
      | NoAuthority \<Rightarrow>
          checks
           [validate_public_update_scope event changes,
            raise_if
              (session_attr s ''pending_transition'' \<noteq> PNone
               \<and> (dhas PHASE_FINAL_PENDING_OPERATIONS event \<or> dhas changes ''pending_transition''))
              (SessionCapabilityError ''live_start_pending_completion_authority_required'')])"

definition validate_phase_intent :: "session \<Rightarrow> string \<Rightarrow> dict \<Rightarrow> unit res" where
  "validate_phase_intent s event changes =
     (case map_of PHASE_FINAL_PENDING_OPERATIONS event of
        None \<Rightarrow> Inr ()
      | Some expected_operation \<Rightarrow>
          (let pending = session_attr s ''pending_transition''; p = items pending in
           case map_of EVENT_TRANSITIONS event of
             None \<Rightarrow> Inl (KeyError event)
           | Some (source, target) \<Rightarrow>
               checks
                [raise_if
                   (\<not> is_map pending
                    \<or> dget p ''operation'' \<noteq> PStr expected_operation
                    \<or> \<not> (stage_is p ''PRIMARY_APPLIED'' \<or> stage_is p ''CLEANUP_DELETING'')
                    \<or> \<not> (dhas changes ''pending_transition'' \<and> dget changes ''pending_transition'' = PNone))
                   (SessionConflictError ''live_start_phase_transition_intent_missing_or_invalid''),
                 raise_if
                   (dget p ''source_phase'' \<noteq> PStr (phase_text (phase s))
                    \<or> dget p ''target_phase'' \<noteq> PStr (phase_text target)
                    \<or> \<not> py_eq (dget changes ''artifact_bindings'') (dget p ''successor_artifact_bindings''))
                   (SessionConflictError ''live_start_phase_transition_intent_mismatch'')]))"

text \<open>
  A field that a same-phase update does not really change is refused. (A name that is no
  attribute of the session raises \<open>AttributeError\<close>; the few attributes without a JSON field
  are refused later, with the other fields that an update must not name.)
\<close>

definition noop_check :: "session \<Rightarrow> string \<times> pyval \<Rightarrow> unit res" where
  "noop_check s = (\<lambda>(field_name, successor).
     if \<not> dhas (session_value s) field_name then Inl (AttributeError field_name)
     else if py_eq successor (session_attr s field_name) then
       Inl (SessionValidationError
         (if successor = PNone then ''live_start_same_phase_null_authority_invalid''
          else ''live_start_same_phase_noop_invalid''))
     else Inr ())"

definition pending_operation_is :: "pyval \<Rightarrow> string \<Rightarrow> bool" where
  "pending_operation_is pending operation =
     (is_map pending \<and> dget (items pending) ''operation'' = PStr operation)"

definition validate_same_phase ::
    "session_env \<Rightarrow> session \<Rightarrow> dict \<Rightarrow> bool \<Rightarrow> unit res" where
  "validate_same_phase env s changes internally_authorized =
     (let pending = session_attr s ''pending_transition'';
          successor = dget changes ''pending_transition'' in
      checks
       ([raise_if
           (pending \<noteq> PNone \<and> dhas changes ''pending_transition'' \<and> \<not> internally_authorized)
           (SessionCapabilityError ''live_start_pending_transition_receipt_required''),
         raise_if
           (pending_operation_is pending ''cleanup_prepublication'' \<and> successor = PNone
            \<and> (\<not> stage_is (items pending) ''CLEANUP_DELETING''
               \<or> \<not> py_eq (dget (items pending) ''cleanup_cursor'')
                      (dget (items pending) ''cleanup_entry_count'')))
           (SessionCapabilityError ''live_start_prepublication_cleanup_incomplete''),
         (if pending_operation_is pending ''cleanup_prepublication''
             \<and> pending_operation_is successor ''cleanup_prepublication''
          then validate_prepublication_cleanup_pending_successor env pending successor else Inr ()),
         (if pending_operation_is pending ''materialize_prepublication_work''
          then validate_prepublication_materialization_successor env pending successor
                 (dget changes ''prepublication_work_binding'')
          else Inr ()),
         (if pending_operation_is pending ''install_apply_invocation'' \<and> dhas changes ''pending_transition''
          then validate_apply_invocation_pending_successor env pending successor else Inr ())]
        @ map (noop_check s) changes
        @ [raise_if
             (pending = PNone \<and> is_map successor \<and> \<not> stage_is (items successor) ''PREPARED'')
             (SessionValidationError ''live_start_pending_initial_stage_invalid'')]))"

definition validate_update_authority ::
    "session_env \<Rightarrow> session \<Rightarrow> string \<Rightarrow> dict \<Rightarrow> authority \<Rightarrow> unit res" where
  "validate_update_authority env s event changes auth =
     checks
      [validate_authority_scope s event changes auth,
       validate_prepublication_cleanup_completion_successor env s event changes
         (auth = InternalAuthority),
       validate_phase_intent s event changes,
       (if event = ''same_phase_cas''
        then validate_same_phase env s changes (auth = InternalAuthority) else Inr ())]"

section \<open>The update\<close>

definition PERMITTED_CHANGES :: "string list" where
  "PERMITTED_CHANGES =
     [''artifact_bindings'', ''pending_transition'', ''prepublication_work_binding'',
      ''output_operation_admission_binding'', ''output_child_binding'', ''publication_binding'',
      ''apply_invocation_sha256'', ''runtime_admission_binding'', ''runtime_layout_bootstrap'',
      ''apply_recovery'', ''closed_apply_recovery_commitment'', ''result_intent'',
      ''attempt_acknowledgement'', ''terminal_retirement'', ''terminal_status'']"

definition apply_event_phase :: "session \<Rightarrow> string \<Rightarrow> dict \<Rightarrow> dict res" where
  "apply_event_phase s event value =
     (case map_of EVENT_TRANSITIONS event of
        Some (expected_source, target) \<Rightarrow>
          rbind (raise_if (phase s \<noteq> expected_source)
            (SessionConflictError ''live_start_phase_transition_invalid'')) (\<lambda>_.
          case map_of PHASE_TRANSITIONS (phase s) of
            None \<Rightarrow> Inl (KeyError (phase_text (phase s)))
          | Some targets \<Rightarrow>
              rbind (raise_if (target \<notin> set targets)
                (SessionValidationError ''live_start_phase_table_invalid'')) (\<lambda>_.
              Inr (dput ''phase'' (PStr (phase_text target)) value)))
      | None \<Rightarrow>
          if event = ''same_phase_cas'' then Inr value
          else if event = ''bind_terminal'' then
            rbind (raise_if
              (session_attr s ''pending_transition'' \<noteq> PNone \<or> session_attr s ''apply_recovery'' \<noteq> PNone)
              (SessionConflictError ''live_start_terminal_cursor_not_closed'')) (\<lambda>_. Inr value)
          else Inl (SessionValidationError ''live_start_session_event_invalid''))"

definition drop_downstream :: "dict \<Rightarrow> dict res" where
  \<comment> \<open>the copy of the artifact bindings without the artifacts after the candidate\<close>
  "drop_downstream value =
     (case dget value ''artifact_bindings'' of
        PDict bindings \<Rightarrow>
          Inr (dput ''artifact_bindings'' (PDict (dpops DOWNSTREAM_REVISION_ARTIFACTS bindings)) value)
      | _ \<Rightarrow> Inl (TypeError ''artifact_bindings''))"

definition apply_revision_event :: "session \<Rightarrow> string \<Rightarrow> dict \<Rightarrow> dict res" where
  "apply_revision_event s event value =
     (if event \<in> set [''technical_failure'', ''review_revision''] then
        rbind (raise_if
          (revisions_used s \<ge> 2 \<or> candidate_revision s \<ge> 3
           \<or> revisions_used s \<noteq> candidate_revision s - 1)
          (SessionConflictError ''live_start_candidate_revision_budget_exhausted'')) (\<lambda>_.
        let value = dput ''revisions_used'' (PInt (revisions_used s + 1)) value in
        if event = ''technical_failure'' then drop_downstream value else Inr value)
      else if event = ''replacement_draft'' then
        (let expected_revision = candidate_revision s + 1;
             previous_candidate = dget (items (session_attr s ''artifact_bindings''))
                                    ''starter/starter_config_candidate.json'';
             replacement_candidate = dget (items (dget value ''artifact_bindings''))
                                    ''starter/starter_config_candidate.json'' in
         rbind (raise_if
           (revisions_used s \<noteq> expected_revision - 1 \<or> expected_revision > 3
            \<or> previous_candidate = PNone \<or> py_eq replacement_candidate previous_candidate)
           (SessionConflictError ''live_start_candidate_revision_or_candidate_invalid'')) (\<lambda>_.
         drop_downstream (dput ''candidate_revision'' (PInt expected_revision) value)))
      else if event \<notin> set [''same_phase_cas'', ''bind_terminal''] then
        rbind (raise_if
          (\<not> py_eq (dget value ''candidate_revision'') (PInt (candidate_revision s))
           \<or> \<not> py_eq (dget value ''revisions_used'') (PInt (revisions_used s)))
          (SessionValidationError ''live_start_revision_state_changed'')) (\<lambda>_. Inr value)
      else Inr value)"

definition immutable_checks :: "session \<Rightarrow> dict \<Rightarrow> unit res" where
  "immutable_checks s value =
     checks
      [raise_if (dget value ''preview_requested'' \<noteq> session_attr s ''preview_requested'')
         (SessionValidationError ''live_start_preview_requested_immutable''),
       raise_if (\<not> py_eq (dget value ''deck_code_sha256'') (session_attr s ''deck_code_sha256''))
         (SessionValidationError ''live_start_deck_identity_immutable''),
       raise_if
         (\<not> py_eq (dget value ''input_snapshot_manifest_sha256'')
            (session_attr s ''input_snapshot_manifest_sha256''))
         (SessionValidationError ''live_start_frozen_input_immutable'')]"

definition apply_session_update ::
    "session_env \<Rightarrow> session \<Rightarrow> session_update \<Rightarrow> authority \<Rightarrow> dict res" where
  "apply_session_update env s u auth =
     (let event = update_event u; changes = thaw_items (update_changes u) in
      if event = ''quality_transition'' then quality_session_successor s changes auth
      else
        rbind (validate_update_authority env s event changes auth) (\<lambda>_.
        rbind (apply_event_phase s event (dpop ''content_sha256'' (session_value s))) (\<lambda>value.
        rbind (ensure (list_all (\<lambda>k. k \<in> set PERMITTED_CHANGES) (dkeys changes))
          (SessionValidationError ''live_start_session_update_fields_invalid'')) (\<lambda>_.
        rbind (apply_revision_event s event (dupdate value changes)) (\<lambda>value.
        rbind (immutable_checks s value) (\<lambda>_. Inr value))))))"

section \<open>Loading the successor\<close>

text \<open>
  \<open>_seal_session_value\<close> adds the digest and reloads the canonical bytes, so the successor is
  a session only if \<open>_load_session_bytes\<close> accepts it. The checks of the scalar fields are
  here; the matrices over the nested documents are the argument \<open>nested_ok\<close>.
\<close>

definition TERMINAL_STATUSES :: "string list" where
  "TERMINAL_STATUSES =
     [''LIVE_AND_MATCHED'', ''ALREADY_LIVE'', ''PREVIEW_READY'', ''FAILED_PRESERVED'',
      ''APPLIED_BUT_NOT_VERIFIED'']"

definition session_fields :: "pyval \<Rightarrow> string list" where
  "session_fields version = (if py_eq version (PInt 2) then SESSION_FIELDS @ [''research_binding'']
                             else SESSION_FIELDS)"

definition load_session ::
    "session_env \<Rightarrow> (dict \<Rightarrow> live_phase \<Rightarrow> unit res) \<Rightarrow> dict \<Rightarrow> session res" where
  "load_session env nested_ok value =
     (let version = dget value ''schema_version'';
          discovery = (py_eq version (PInt 2) \<and> dget value ''phase'' = PStr ''DISCOVERY_REQUIRED'') in
      rbind (checks
        [ensure (same_keys value (session_fields version))
           (SessionValidationError ''live_start_session_fields_invalid''),
         ensure (py_eq (dget value ''content_sha256'')
                   (PStr (self_digest env (PDict (dpop ''content_sha256'' value)))))
           (SessionValidationError ''live_start_session_content_sha256_invalid''),
         ensure (version = PInt 1 \<or> version = PInt 2)
           (SessionValidationError ''live_start_session_schema_invalid''),
         ensure (is_run_id (dget value ''run_id'')) (SessionValidationError ''live_start_run_id_invalid''),
         ensure (is_deck_name (dget value ''deck_name''))
           (SessionValidationError ''live_start_deck_name_invalid''),
         require_sha256 (dget value ''deck_code_sha256'') ''deck_code_sha256'',
         (if discovery then
            ensure (dget value ''input_snapshot_manifest_sha256'' = PNone)
              (SessionValidationError ''live_start_discovery_manifest_forbidden'')
          else require_sha256 (dget value ''input_snapshot_manifest_sha256'')
              ''input_snapshot_manifest_sha256''),
         ensure (case dget value ''preview_requested'' of PBool b \<Rightarrow> True | _ \<Rightarrow> False)
           (SessionValidationError ''live_start_preview_requested_invalid'')]) (\<lambda>_.
      rbind (case dget value ''phase'' of
               PStr t \<Rightarrow> (case phase_of_text t of Some p \<Rightarrow> Inr p
                         | None \<Rightarrow> Inl (SessionValidationError ''live_start_session_phase_invalid''))
             | _ \<Rightarrow> Inl (SessionValidationError ''live_start_session_phase_invalid'')) (\<lambda>p.
      rbind (bounded_integer (dget value ''candidate_revision'') 1 3 ''candidate_revision'') (\<lambda>c.
      rbind (bounded_integer (dget value ''revisions_used'') 0 2 ''revisions_used'') (\<lambda>r.
      rbind (checks
        [ensure (c \<le> r + 1) (SessionValidationError ''live_start_candidate_revision_state_invalid''),
         raise_if (version = PInt 1 \<and> p = DISCOVERY_REQUIRED)
           (SessionValidationError ''live_start_session_phase_invalid''),
         nested_ok value p,
         ensure (case dget value ''terminal_status'' of PNone \<Rightarrow> True
                 | PStr t \<Rightarrow> t \<in> set TERMINAL_STATUSES | _ \<Rightarrow> False)
           (SessionValidationError ''live_start_terminal_status_invalid'')]) (\<lambda>_.
      Inr \<lparr>schema_version = (case version of PInt n \<Rightarrow> n | _ \<Rightarrow> 0), phase = p,
            candidate_revision = c, revisions_used = r, session_value = value\<rparr>))))))"

definition seal_session_value ::
    "session_env \<Rightarrow> (dict \<Rightarrow> live_phase \<Rightarrow> unit res) \<Rightarrow> dict \<Rightarrow> session res" where
  "seal_session_value env nested_ok value =
     (let unsigned = dpop ''content_sha256'' (normalize_items value);
          names = filter (\<lambda>k. k \<noteq> ''content_sha256'') (session_fields (dget unsigned ''schema_version'')) in
      rbind (ensure (same_keys unsigned names)
        (SessionValidationError ''live_start_session_fields_invalid'')) (\<lambda>_.
      load_session env nested_ok
        (dput ''content_sha256'' (PStr (self_digest env (PDict unsigned))) unsigned)))"

definition build_session_successor ::
    "session_env \<Rightarrow> (dict \<Rightarrow> live_phase \<Rightarrow> unit res) \<Rightarrow> session \<Rightarrow> session_update \<Rightarrow> authority
      \<Rightarrow> session res" where
  "build_session_successor env nested_ok s u auth =
     rbind (apply_session_update env s u auth) (seal_session_value env nested_ok)"

end
