(* ===== verification/SessionInvariants.thy ===== *)
theory SessionInvariants
  imports SessionMachine
begin

text \<open>
  What every update of a live-start session keeps: the revision budget as an abstract
  two-counter machine that the update refines, the order of the phases, and the fields that
  are fixed when the session is created. The runs of a session are an inductive relation
  over the updates that were accepted.
\<close>

section \<open>The parts of a successful update\<close>

lemma permitted_frame:
  assumes "list_all (\<lambda>k. k \<in> set P) (dkeys c)" and "f \<notin> set P"
  shows "dget (dupdate d c) f = dget d f"
proof -
  from assms have "\<not> dhas c f" by (auto simp: dhas_iff list_all_iff)
  then show ?thesis by (rule dget_dupdate_notin)
qed

lemma apply_session_update_parts:
  assumes "apply_session_update env s u auth = Inr v"
    and "update_event u \<noteq> ''quality_transition''"
  obtains w where
    "validate_update_authority env s (update_event u) (thaw_items (update_changes u)) auth = Inr ()"
    "apply_event_phase s (update_event u) (dpop ''content_sha256'' (session_value s)) = Inr w"
    "list_all (\<lambda>k. k \<in> set PERMITTED_CHANGES) (dkeys (thaw_items (update_changes u)))"
    "apply_revision_event s (update_event u) (dupdate w (thaw_items (update_changes u))) = Inr v"
    "immutable_checks s v = Inr ()"
  using assms by (auto simp: apply_session_update_def Let_def)

lemma apply_event_phase_dget:
  assumes "apply_event_phase s event value = Inr w"
  shows "dget w f = (if f = ''phase'' then
            (case map_of EVENT_TRANSITIONS event of Some (p, q) \<Rightarrow> PStr (phase_text q)
             | None \<Rightarrow> dget value f) else dget value f)"
  using assms by (auto simp: apply_event_phase_def split: option.splits if_splits)

lemma apply_event_phase_wf: "apply_event_phase s event value = Inr w \<Longrightarrow> wf_dict value \<Longrightarrow> wf_dict w"
  by (auto simp: apply_event_phase_def split: option.splits if_splits)

lemma apply_event_phase_source:
  assumes "apply_event_phase s event value = Inr w"
  shows "(case map_of EVENT_TRANSITIONS event of Some (p, q) \<Rightarrow> phase s = p \<and> phase_edge p q
          | None \<Rightarrow> event = ''same_phase_cas'' \<or> event = ''bind_terminal'')"
  using assms event_transition_edge
  by (fastforce simp: apply_event_phase_def split: option.splits if_splits)

lemma drop_downstream_dget:
  "drop_downstream value = Inr w \<Longrightarrow> f \<noteq> ''artifact_bindings'' \<Longrightarrow> dget w f = dget value f"
  by (auto simp: drop_downstream_def split: pyval.splits)

lemma drop_downstream_wf: "drop_downstream value = Inr w \<Longrightarrow> wf_dict value \<Longrightarrow> wf_dict w"
  by (auto simp: drop_downstream_def split: pyval.splits)

definition failure_event :: "string \<Rightarrow> bool" where
  "failure_event e = (e = ''technical_failure'' \<or> e = ''review_revision'')"

text \<open>
  The revision budget as a machine of its own: a failure uses one of two revisions and may
  only follow an unrevised candidate, a replacement needs a used revision.
\<close>

definition budget_step :: "string \<Rightarrow> int \<times> int \<Rightarrow> (int \<times> int) option" where
  "budget_step e = (\<lambda>(c, r).
     if failure_event e then (if r < 2 \<and> c < 3 \<and> r = c - 1 then Some (c, r + 1) else None)
     else if e = ''replacement_draft'' then (if c < 3 \<and> r = c then Some (c + 1, r) else None)
     else Some (c, r))"

definition budget_ok :: "int \<times> int \<Rightarrow> bool" where
  "budget_ok = (\<lambda>(c, r). 1 \<le> c \<and> c \<le> 3 \<and> 0 \<le> r \<and> r \<le> 2 \<and> c - 1 \<le> r \<and> r \<le> c)"

lemma budget_step_ok: "budget_step e b = Some b' \<Longrightarrow> budget_ok b \<Longrightarrow> budget_ok b'"
  by (cases b) (auto simp: budget_step_def budget_ok_def split: if_splits)

definition budget :: "session \<Rightarrow> int \<times> int" where
  "budget s = (candidate_revision s, revisions_used s)"

text \<open>The typed attributes of a session are those of its JSON value.\<close>

definition session_coherent :: "session \<Rightarrow> bool" where
  "session_coherent s =
     (wf_dict (session_value s)
      \<and> dget (session_value s) ''schema_version'' = PInt (schema_version s)
      \<and> dget (session_value s) ''phase'' = PStr (phase_text (phase s))
      \<and> dget (session_value s) ''candidate_revision'' = PInt (candidate_revision s)
      \<and> dget (session_value s) ''revisions_used'' = PInt (revisions_used s))"

definition value_budget :: "dict \<Rightarrow> int \<times> int \<Rightarrow> bool" where
  "value_budget v = (\<lambda>(c, r). dget v ''candidate_revision'' = PInt c \<and> dget v ''revisions_used'' = PInt r)"

lemma apply_revision_event_budget:
  assumes "apply_revision_event s event w = Inr v" and "value_budget w (budget s)"
  shows "\<exists>b. budget_step event (budget s) = Some b \<and> value_budget v b"
  using assms
  by (auto simp: apply_revision_event_def Let_def budget_step_def failure_event_def budget_def
        value_budget_def drop_downstream_dget split: if_splits)

lemma apply_revision_event_frame:
  assumes "apply_revision_event s event w = Inr v"
    and "f \<notin> set [''artifact_bindings'', ''candidate_revision'', ''revisions_used'']"
  shows "dget v f = dget w f"
  using assms
  by (auto simp: apply_revision_event_def Let_def drop_downstream_dget split: if_splits)

lemma apply_revision_event_wf:
  "apply_revision_event s event w = Inr v \<Longrightarrow> wf_dict w \<Longrightarrow> wf_dict v"
  by (auto simp: apply_revision_event_def Let_def dest: drop_downstream_wf split: if_splits)

section \<open>The three facts about one update\<close>

lemma quality_parts:
  assumes "quality_session_successor s changes auth = Inr v"
  shows "v = dupdate (dpop ''content_sha256'' (session_value s)) changes"
    and "auth = InternalAuthority" and "schema_version s = 2" and "phase s = DISCOVERY_REQUIRED"
    and "list_all (\<lambda>k. k \<in> set [''pending_transition'', ''artifact_bindings'',
           ''input_snapshot_manifest_sha256'', ''phase'']) (dkeys changes)"
  using assms unfolding quality_session_successor_def Let_def by auto

lemma not_quality_event: "budget_step ''quality_transition'' b = Some b"
  by (cases b) (simp add: budget_step_def failure_event_def)

lemma apply_update_budget:
  assumes "apply_session_update env s u auth = Inr v" and "session_coherent s"
  shows "\<exists>b. budget_step (update_event u) (budget s) = Some b \<and> value_budget v b"
proof (cases "update_event u = ''quality_transition''")
  case True
  with assms(1) have q: "quality_session_successor s (thaw_items (update_changes u)) auth = Inr v"
    by (simp add: apply_session_update_def Let_def)
  have "value_budget v (budget s)"
    using assms(2) permitted_frame [OF quality_parts(5) [OF q]]
    by (simp add: quality_parts(1) [OF q] value_budget_def budget_def session_coherent_def)
  with True show ?thesis by (simp add: not_quality_event)
next
  case False
  obtain w where w: "apply_event_phase s (update_event u) (dpop ''content_sha256'' (session_value s)) = Inr w"
      "list_all (\<lambda>k. k \<in> set PERMITTED_CHANGES) (dkeys (thaw_items (update_changes u)))"
      "apply_revision_event s (update_event u) (dupdate w (thaw_items (update_changes u))) = Inr v"
    using apply_session_update_parts [OF assms(1) False] by blast
  have "value_budget (dupdate w (thaw_items (update_changes u))) (budget s)"
    using assms(2) permitted_frame [OF w(2)] apply_event_phase_dget [OF w(1)]
    by (simp add: value_budget_def budget_def session_coherent_def PERMITTED_CHANGES_def)
  then show ?thesis by (rule apply_revision_event_budget [OF w(3)])
qed

definition phase_move :: "string \<Rightarrow> live_phase \<Rightarrow> live_phase \<Rightarrow> bool" where
  "phase_move e p q =
     (if e = ''quality_transition'' then p = DISCOVERY_REQUIRED
      else case map_of EVENT_TRANSITIONS e of
             Some (p', q') \<Rightarrow> p = p' \<and> q = q' \<and> phase_edge p q
           | None \<Rightarrow> q = p)"

lemma apply_update_phase:
  assumes "apply_session_update env s u auth = Inr v" and "session_coherent s"
    and "update_event u \<noteq> ''quality_transition''"
  shows "\<exists>q. dget v ''phase'' = PStr (phase_text q) \<and> phase_move (update_event u) (phase s) q"
proof -
  obtain w where w: "apply_event_phase s (update_event u) (dpop ''content_sha256'' (session_value s)) = Inr w"
      "list_all (\<lambda>k. k \<in> set PERMITTED_CHANGES) (dkeys (thaw_items (update_changes u)))"
      "apply_revision_event s (update_event u) (dupdate w (thaw_items (update_changes u))) = Inr v"
    using apply_session_update_parts [OF assms(1,3)] by blast
  have "dget v ''phase'' = dget w ''phase''"
    using apply_revision_event_frame [OF w(3), of "''phase''"] permitted_frame [OF w(2), of "''phase''"]
    by (simp add: PERMITTED_CHANGES_def)
  then show ?thesis
    using assms(2,3) apply_event_phase_dget [OF w(1), of "''phase''"] apply_event_phase_source [OF w(1)]
    by (auto simp: phase_move_def session_coherent_def split: option.splits)
qed

lemma apply_update_frame:
  assumes "apply_session_update env s u auth = Inr v"
    and "f \<notin> set PERMITTED_CHANGES"
    and "f \<notin> set [''phase'', ''content_sha256'', ''candidate_revision'', ''revisions_used'',
                    ''input_snapshot_manifest_sha256'']"
  shows "dget v f = dget (session_value s) f"
proof (cases "update_event u = ''quality_transition''")
  case True
  with assms(1) have q: "quality_session_successor s (thaw_items (update_changes u)) auth = Inr v"
    by (simp add: apply_session_update_def Let_def)
  show ?thesis
    using assms(2,3) permitted_frame [OF quality_parts(5) [OF q], of f]
    by (auto simp: quality_parts(1) [OF q] PERMITTED_CHANGES_def)
next
  case False
  obtain w where w: "apply_event_phase s (update_event u) (dpop ''content_sha256'' (session_value s)) = Inr w"
      "list_all (\<lambda>k. k \<in> set PERMITTED_CHANGES) (dkeys (thaw_items (update_changes u)))"
      "apply_revision_event s (update_event u) (dupdate w (thaw_items (update_changes u))) = Inr v"
    using apply_session_update_parts [OF assms(1) False] by blast
  have "dget v f = dget w f"
    using assms(2,3) apply_revision_event_frame [OF w(3), of f] permitted_frame [OF w(2), of f]
    by (auto simp: PERMITTED_CHANGES_def)
  with assms(3) apply_event_phase_dget [OF w(1), of f] show ?thesis by simp
qed

lemma apply_update_wf:
  assumes "apply_session_update env s u auth = Inr v" and "wf_dict (session_value s)"
  shows "wf_dict v"
proof (cases "update_event u = ''quality_transition''")
  case True
  with assms(1) have q: "quality_session_successor s (thaw_items (update_changes u)) auth = Inr v"
    by (simp add: apply_session_update_def Let_def)
  show ?thesis using assms(2) by (simp add: quality_parts(1) [OF q] wf_dupdate)
next
  case False
  obtain w where w: "apply_event_phase s (update_event u) (dpop ''content_sha256'' (session_value s)) = Inr w"
      "apply_revision_event s (update_event u) (dupdate w (thaw_items (update_changes u))) = Inr v"
    using apply_session_update_parts [OF assms(1) False] by blast
  from assms(2) w(1) have "wf_dict w" by (auto dest: apply_event_phase_wf)
  with w(2) show ?thesis by (auto dest: apply_revision_event_wf)
qed

section \<open>Loading and sealing\<close>

lemma bounded_integer_Inr [simp]:
  "bounded_integer v lo hi name = Inr k \<longleftrightarrow> v = PInt k \<and> lo \<le> k \<and> k \<le> hi"
  by (cases v) (auto simp: bounded_integer_def)

lemma read_phase [simp]:
  "(case v of PStr t \<Rightarrow> (case phase_of_text t of None \<Rightarrow> Inl e | Some p \<Rightarrow> Inr p) | _ \<Rightarrow> Inl e) = Inr p
     \<longleftrightarrow> v = PStr (phase_text p)"
  by (cases v) (auto simp: phase_of_text_Some split: option.splits)

lemma load_session_coherent:
  assumes "load_session env nested_ok value = Inr t" and "wf_dict value"
  shows "session_coherent t" and "session_value t = value"
    and "1 \<le> candidate_revision t" "candidate_revision t \<le> 3"
    and "0 \<le> revisions_used t" "revisions_used t \<le> 2" "candidate_revision t \<le> revisions_used t + 1"
  using assms by (auto simp: load_session_def Let_def session_coherent_def)

lemma map_of_normalize: "map_of (normalize_items d) k = map_option normalize (map_of d k)"
  by (induction d) (auto split: if_splits)

lemma normalize_items_keys [simp]: "map fst (normalize_items d) = map fst d"
  by (induction d) auto

lemma dget_normalize: "dget (normalize_items d) k = normalize (dget d k)"
  by (auto simp: dget_def map_of_normalize split: option.splits)

lemma wf_normalize [simp]: "wf_dict (normalize_items d) \<longleftrightarrow> wf_dict d"
  by (simp add: wf_dict_def)

lemma seal_session_parts:
  assumes "seal_session_value env nested_ok v = Inr t" and "wf_dict v"
  shows "session_coherent t"
    and "1 \<le> candidate_revision t" "candidate_revision t \<le> 3"
    and "0 \<le> revisions_used t" "revisions_used t \<le> 2" "candidate_revision t \<le> revisions_used t + 1"
    and "f \<noteq> ''content_sha256'' \<Longrightarrow> dget (session_value t) f = normalize (dget v f)"
proof -
  let ?u = "dpop ''content_sha256'' (normalize_items v)"
  let ?w = "dput ''content_sha256'' (PStr (self_digest env (PDict ?u))) ?u"
  from assms(1) have l: "load_session env nested_ok ?w = Inr t"
    by (simp add: seal_session_value_def Let_def)
  have wf: "wf_dict ?w" using assms(2) by (simp add: wf_dput wf_dpop)
  note c = load_session_coherent [OF l wf]
  show "session_coherent t" "1 \<le> candidate_revision t" "candidate_revision t \<le> 3"
    "0 \<le> revisions_used t" "revisions_used t \<le> 2" "candidate_revision t \<le> revisions_used t + 1"
    using c by simp_all
  show "dget (session_value t) f = normalize (dget v f)" if "f \<noteq> ''content_sha256''"
    using that by (simp add: c(2) dget_normalize)
qed

end
