(* ===== verification/LiveStartSession.thy ===== *)
theory LiveStartSession
  imports SessionInvariants
begin

text \<open>
  The properties of the live-start session: each update refines the revision budget, a run of
  updates keeps it, the phases move forward once a candidate is approved, the identity of the
  session is fixed, a phase that ends a file operation needs the internal authority and the
  matching intent, and a pending transition makes progress with every step it takes.
\<close>

section \<open>Runs\<close>

inductive session_run ::
    "session_env \<Rightarrow> (dict \<Rightarrow> live_phase \<Rightarrow> unit res) \<Rightarrow> session \<Rightarrow> session_update list \<Rightarrow> session \<Rightarrow> bool"
  for env nested_ok where
  run_nil: "session_run env nested_ok s [] s"
| run_snoc: "session_run env nested_ok s us t \<Longrightarrow>
     build_session_successor env nested_ok t u auth = Inr t' \<Longrightarrow>
     session_run env nested_ok s (us @ [u]) t'"

inductive_cases run_nilE: "session_run env nested_ok s [] t"

lemma build_parts:
  assumes "build_session_successor env nested_ok s u auth = Inr t" and "session_coherent s"
  obtains v where "apply_session_update env s u auth = Inr v"
    and "seal_session_value env nested_ok v = Inr t" and "wf_dict v"
  using assms apply_update_wf unfolding build_session_successor_def session_coherent_def
  by (auto simp del: split_paired_Ex)

lemma sealed_budget:
  assumes "seal_session_value env nested_ok v = Inr t" and "wf_dict v" and "value_budget v b"
  shows "budget t = b"
  using seal_session_parts(1,7) [OF assms(1,2)] assms(3)
  by (cases b) (auto simp: session_coherent_def value_budget_def budget_def)

lemma successor_budget:
  assumes "build_session_successor env nested_ok s u auth = Inr t" and "session_coherent s"
  shows "budget_step (update_event u) (budget s) = Some (budget t)" and "session_coherent t"
proof -
  obtain v where v: "apply_session_update env s u auth = Inr v"
    "seal_session_value env nested_ok v = Inr t" "wf_dict v"
    by (rule build_parts [OF assms])
  obtain b where b: "budget_step (update_event u) (budget s) = Some b" "value_budget v b"
    using apply_update_budget [OF v(1) assms(2)] by blast
  show "budget_step (update_event u) (budget s) = Some (budget t)"
    using b(1) sealed_budget [OF v(2,3) b(2)] by simp
  show "session_coherent t" by (rule seal_session_parts(1) [OF v(2,3)])
qed

lemma successor_phase:
  assumes "build_session_successor env nested_ok s u auth = Inr t" and "session_coherent s"
    and "update_event u \<noteq> ''quality_transition''"
  shows "phase_move (update_event u) (phase s) (phase t)"
proof -
  obtain v where v: "apply_session_update env s u auth = Inr v"
    "seal_session_value env nested_ok v = Inr t" "wf_dict v"
    by (rule build_parts [OF assms(1,2)])
  obtain q where q: "dget v ''phase'' = PStr (phase_text q)" "phase_move (update_event u) (phase s) q"
    using apply_update_phase [OF v(1) assms(2,3)] by blast
  have "phase t = q"
    using seal_session_parts(1) [OF v(2,3)] seal_session_parts(7) [OF v(2,3), of "''phase''"] q(1)
    by (simp add: session_coherent_def)
  with q(2) show ?thesis by simp
qed

lemma quality_only_in_discovery:
  assumes "build_session_successor env nested_ok s u auth = Inr t"
    and "update_event u = ''quality_transition''"
  shows "phase s = DISCOVERY_REQUIRED"
  using assms by (auto simp: build_session_successor_def apply_session_update_def Let_def
        dest: quality_parts(4))

section \<open>The revision budget\<close>

definition failures :: "session_update list \<Rightarrow> nat" where
  "failures us = length (filter (\<lambda>u. failure_event (update_event u)) us)"

definition replacements :: "session_update list \<Rightarrow> nat" where
  "replacements us = length (filter (\<lambda>u. update_event u = ''replacement_draft'') us)"

text \<open>
  C1. Every accepted update of a live-start session refines the abstract revision budget: on
  the pair of candidate revision and used revisions it does exactly what \<open>budget_step\<close> does
  for its event (a technical failure or a requested revision uses one of two revisions, a
  replacement draft raises the candidate revision, every other event leaves both alone), and
  the sealed successor is a coherent session again.
\<close>
theorem session_update_refines_budget:
  assumes "build_session_successor env nested_ok s u auth = Inr t" and "session_coherent s"
  shows "budget_step (update_event u) (budget s) = Some (budget t) \<and> session_coherent t"
  using successor_budget [OF assms] by blast

lemma budget_step_counts:
  "budget_step (update_event u) (c, r) = Some (c', r') \<Longrightarrow>
     r' = r + int (failures [u]) \<and> c' = c + int (replacements [u])"
  by (auto simp: budget_step_def failures_def replacements_def failure_event_def split: if_splits)

lemma run_budget:
  assumes "session_run env nested_ok s us t" and "session_coherent s" and "budget_ok (budget s)"
  shows "session_coherent t \<and> budget_ok (budget t)
    \<and> revisions_used t = revisions_used s + int (failures us)
    \<and> candidate_revision t = candidate_revision s + int (replacements us)"
  using assms
proof (induction rule: session_run.induct)
  case (run_nil s)
  then show ?case by (simp add: failures_def replacements_def)
next
  case (run_snoc s us t u auth t')
  note IH = run_snoc.IH [OF run_snoc.prems]
  have b: "budget_step (update_event u) (budget t) = Some (budget t')" and c: "session_coherent t'"
    using successor_budget [OF run_snoc.hyps(2)] IH by blast+
  have "budget_ok (budget t')" using budget_step_ok [OF b] IH by blast
  moreover have "revisions_used t' = revisions_used t + int (failures [u])
      \<and> candidate_revision t' = candidate_revision t + int (replacements [u])"
    using b unfolding budget_def by (rule budget_step_counts)
  ultimately show ?case using IH c by (simp add: failures_def replacements_def)
qed

text \<open>
  C2. From a fresh session (first candidate, no revision used) no run of accepted updates, in
  whatever order and under whatever authority, contains more than two failures (technical
  failures and requested revisions together) or more than two replacement candidates; the used
  revisions count the failures, and a candidate is never more than one revision behind.
\<close>
theorem session_run_revision_budget:
  assumes "session_run env nested_ok s us t" and "session_coherent s" and "budget s = (1, 0)"
  shows "failures us \<le> 2 \<and> replacements us \<le> 2
    \<and> budget t = (1 + int (replacements us), int (failures us))
    \<and> replacements us \<le> failures us \<and> failures us \<le> replacements us + 1"
proof -
  have "budget_ok (budget s)" by (simp add: assms(3) budget_ok_def)
  from run_budget [OF assms(1,2) this] assms(3) show ?thesis
    by (auto simp: budget_def budget_ok_def)
qed

section \<open>The order of the phases\<close>

lemma failure_source:
  "phase_move e p q \<Longrightarrow> failure_event e \<or> e = ''replacement_draft'' \<Longrightarrow> phase_index p < 4"
  by (auto simp: phase_move_def failure_event_def EVENT_TRANSITIONS_def split: if_splits)

lemma phase_move_forward:
  "phase_move e p q \<Longrightarrow> 4 \<le> phase_index p \<Longrightarrow> phase_index p \<le> phase_index q"
  using phase_edge_forward [of p q]
  by (auto simp: phase_move_def split: if_splits option.splits)

lemma successor_after_approval:
  assumes "build_session_successor env nested_ok s u auth = Inr t" and "session_coherent s"
    and "4 \<le> phase_index (phase s)"
  shows "phase_index (phase s) \<le> phase_index (phase t) \<and> budget t = budget s"
proof -
  have nq: "update_event u \<noteq> ''quality_transition''"
    using quality_only_in_discovery [OF assms(1)] assms(3) by auto
  note mv = successor_phase [OF assms(1,2) nq]
  have "\<not> (failure_event (update_event u) \<or> update_event u = ''replacement_draft'')"
    using failure_source [OF mv] assms(3) by linarith
  then have "budget t = budget s"
    using successor_budget(1) [OF assms(1,2)]
    by (auto simp: budget_step_def split: prod.splits)
  with phase_move_forward [OF mv assms(3)] show ?thesis by blast
qed

text \<open>
  C3. Once a review has approved the candidate, a session only moves forward: in every run that
  starts in \<open>REVIEW_APPROVED\<close> or later the phase never goes back, and neither the candidate
  revision nor the used revisions change any more.
\<close>
theorem session_run_after_approval:
  assumes "session_run env nested_ok s us t" and "session_coherent s"
    and "phase_index REVIEW_APPROVED \<le> phase_index (phase s)"
  shows "phase_index (phase s) \<le> phase_index (phase t) \<and> budget t = budget s \<and> session_coherent t"
  using assms
proof (induction rule: session_run.induct)
  case (run_snoc s us t u auth t')
  note IH = run_snoc.IH [OF run_snoc.prems]
  then have "4 \<le> phase_index (phase t)" using run_snoc.prems(2) by simp
  then show ?case
    using IH successor_after_approval [OF run_snoc.hyps(2)] successor_budget(2) [OF run_snoc.hyps(2)]
    by fastforce
qed simp

text \<open>
  C4. A single accepted update moves the phase along the table \<open>PHASE_TRANSITIONS\<close> or leaves
  it: outside the discovery phase, the phase changes only by an event of \<open>EVENT_TRANSITIONS\<close>
  whose source is the current phase and whose target is the new one, never by more than one
  step forward, and back only from a validated candidate to a draft.
\<close>
theorem session_update_phase_edge:
  assumes "build_session_successor env nested_ok s u auth = Inr t" and "session_coherent s"
    and "phase s \<noteq> DISCOVERY_REQUIRED" and "phase t \<noteq> phase s"
  shows "map_of EVENT_TRANSITIONS (update_event u) = Some (phase s, phase t)
    \<and> phase_edge (phase s) (phase t)
    \<and> (phase_index (phase t) = Suc (phase_index (phase s))
       \<or> (phase s = CANDIDATE_VALIDATED \<and> phase t = CANDIDATE_DRAFTED))"
proof -
  have nq: "update_event u \<noteq> ''quality_transition''"
    using quality_only_in_discovery [OF assms(1)] assms(3) by auto
  have mv: "map_of EVENT_TRANSITIONS (update_event u) = Some (phase s, phase t)"
      "phase_edge (phase s) (phase t)"
    using successor_phase [OF assms(1,2) nq] nq assms(4)
    by (auto simp: phase_move_def split: option.splits)
  have ne: "phase_index (phase t) \<noteq> phase_index (phase s)" using assms(4) by simp
  have "phase_index (phase t) = Suc (phase_index (phase s))"
    if "phase_index (phase s) \<le> phase_index (phase t)"
    using that phase_edge_single [OF mv(2)] ne by linarith
  with mv phase_edge_forward [OF mv(2)] show ?thesis by blast
qed

section \<open>The identity of a session\<close>

lemma normalize_idem [simp]:
  "normalize (normalize v) = normalize v"
  "normalize_list (normalize_list vs) = normalize_list vs"
  "normalize_items (normalize_items d) = normalize_items d"
  by (induction v and vs and d rule: normalize_normalize_list_normalize_items.induct) simp_all

definition IDENTITY_FIELDS :: "string list" where
  "IDENTITY_FIELDS = [''schema_version'', ''run_id'', ''deck_name'', ''deck_code_sha256'', ''preview_requested'']"

lemma successor_identity:
  assumes "build_session_successor env nested_ok s u auth = Inr t" and "session_coherent s"
    and "f \<in> set IDENTITY_FIELDS"
  shows "dget (session_value t) f = normalize (dget (session_value s) f)"
proof -
  obtain v where v: "apply_session_update env s u auth = Inr v"
    "seal_session_value env nested_ok v = Inr t" "wf_dict v"
    by (rule build_parts [OF assms(1,2)])
  have "f \<notin> set PERMITTED_CHANGES"
    and "f \<notin> set [''phase'', ''content_sha256'', ''candidate_revision'', ''revisions_used'',
           ''input_snapshot_manifest_sha256'']"
    using assms(3) by (auto simp: IDENTITY_FIELDS_def PERMITTED_CHANGES_def)
  then show ?thesis
    using apply_update_frame [OF v(1), of f] seal_session_parts(7) [OF v(2,3), of f] by auto
qed

text \<open>
  The fields that name a session (schema version, run id, deck name, digest of the deck
  code, the preview request) have the same normalised value after every run of accepted
  updates: no event, whatever its authority, turns one run into another or a preview into a
  live run.
\<close>
theorem session_run_identity:
  assumes "session_run env nested_ok s us t" and "session_coherent s" and "f \<in> set IDENTITY_FIELDS"
  shows "normalize (dget (session_value t) f) = normalize (dget (session_value s) f) \<and> session_coherent t"
  using assms
proof (induction rule: session_run.induct)
  case (run_snoc s us t u auth t')
  note IH = run_snoc.IH [OF run_snoc.prems]
  show ?case
    using IH successor_identity [OF run_snoc.hyps(2) _ run_snoc.prems(2)]
      successor_budget(2) [OF run_snoc.hyps(2)] by simp
qed simp

section \<open>A concrete session\<close>

text \<open>
  Two small sessions on which the properties are evaluated: a drafted candidate that fails its
  validation, and a session whose apply is committed.
\<close>

definition demo_digest :: string where
  "demo_digest = ''sha256:'' @ replicate 64 CHR ''0''"

definition demo_env :: session_env where
  "demo_env = \<lparr>validate_document = (\<lambda>kind v. Inr (freeze v)), validate_recovery = (\<lambda>v. Inr (freeze v)),
     self_digest = (\<lambda>v. demo_digest), absolute_path = (\<lambda>p. True),
     path_parent = (\<lambda>p. rev (drop 1 (dropWhile (\<lambda>c. c \<noteq> CHR ''/'') (rev p)))), path_name = id,
     path_join = (\<lambda>p n. p @ ''/'' @ n)\<rparr>"

definition demo_nested_ok :: "dict \<Rightarrow> live_phase \<Rightarrow> unit res" where
  "demo_nested_ok value p = Inr ()"

definition demo_value :: "live_phase \<Rightarrow> dict" where
  "demo_value p =
    [(''schema_version'', PInt 1), (''run_id'', PStr (replicate 32 CHR ''a'')),
     (''deck_name'', PStr ''ShadowPriest''), (''deck_code_sha256'', PStr demo_digest),
     (''preview_requested'', PBool False), (''phase'', PStr (phase_text p)),
     (''candidate_revision'', PInt 1), (''revisions_used'', PInt 0),
     (''input_snapshot_manifest_sha256'', PStr demo_digest),
     (''artifact_bindings'', PDict [(''starter/starter_config_candidate.json'', PStr demo_digest),
        (''receipts/candidate_validation.json'', PStr demo_digest)])]
    @ map (\<lambda>f. (f, PNone)) (tl PERMITTED_CHANGES) @ [(''content_sha256'', PStr demo_digest)]"

definition demo_session :: "live_phase \<Rightarrow> session" where
  "demo_session p = \<lparr>schema_version = 1, phase = p, candidate_revision = 1, revisions_used = 0,
     session_value = demo_value p\<rparr>"

definition demo_failure :: session_update where
  "demo_failure = \<lparr>update_event = ''technical_failure'', update_changes = []\<rparr>"

definition demo_commit :: session_update where
  "demo_commit = \<lparr>update_event = ''apply_committed'', update_changes = []\<rparr>"

lemma demo_coherent: "session_coherent (demo_session CANDIDATE_DRAFTED) \<and> session_coherent (demo_session APPLY_STARTED)"
  by code_simp

lemma demo_failure_build:
  "\<exists>t. build_session_successor demo_env demo_nested_ok (demo_session CANDIDATE_DRAFTED) demo_failure NoAuthority
     = Inr t"
proof -
  have "case build_session_successor demo_env demo_nested_ok (demo_session CANDIDATE_DRAFTED) demo_failure
      NoAuthority of Inr t \<Rightarrow> True | Inl e \<Rightarrow> False"
    by code_simp
  then show ?thesis by (simp split: sum.splits)
qed

lemma demo_commit_build:
  "\<exists>t. build_session_successor demo_env demo_nested_ok (demo_session APPLY_STARTED) demo_commit InternalAuthority
     = Inr t \<and> phase t = APPLY_COMMITTED"
proof -
  have "case build_session_successor demo_env demo_nested_ok (demo_session APPLY_STARTED) demo_commit
      InternalAuthority of Inr t \<Rightarrow> phase t = APPLY_COMMITTED | Inl e \<Rightarrow> False"
    by code_simp
  then show ?thesis by (simp split: sum.splits)
qed

lemma session_run_single:
  "build_session_successor env nested_ok s u auth = Inr t \<Longrightarrow> session_run env nested_ok s [u] t"
  using run_snoc [OF run_nil, of env nested_ok s u auth t] by simp

theorem session_update_refines_budget_witness:
  "\<exists>t. budget_step ''technical_failure'' (budget (demo_session CANDIDATE_DRAFTED)) = Some (budget t)
     \<and> session_coherent t"
  using demo_failure_build demo_coherent session_update_refines_budget
  by (fastforce simp: demo_failure_def)

theorem session_run_revision_budget_witness:
  "\<exists>t. session_run demo_env demo_nested_ok (demo_session CANDIDATE_DRAFTED) [demo_failure] t
     \<and> budget t = (1, 1)"
proof -
  obtain t where "build_session_successor demo_env demo_nested_ok (demo_session CANDIDATE_DRAFTED)
      demo_failure NoAuthority = Inr t"
    using demo_failure_build by blast
  then have run: "session_run demo_env demo_nested_ok (demo_session CANDIDATE_DRAFTED) [demo_failure] t"
    by (rule session_run_single)
  have "budget (demo_session CANDIDATE_DRAFTED) = (1, 0)" by (simp add: budget_def demo_session_def)
  from session_run_revision_budget [OF run _ this] demo_coherent run show ?thesis
    by (auto simp: failures_def replacements_def demo_failure_def failure_event_def)
qed

theorem session_run_after_approval_witness:
  "\<exists>t. session_run demo_env demo_nested_ok (demo_session APPLY_STARTED) [demo_commit] t
     \<and> phase_index APPLY_STARTED \<le> phase_index (phase t) \<and> budget t = (1, 0)"
proof -
  obtain t where "build_session_successor demo_env demo_nested_ok (demo_session APPLY_STARTED)
      demo_commit InternalAuthority = Inr t"
    using demo_commit_build by blast
  then have run: "session_run demo_env demo_nested_ok (demo_session APPLY_STARTED) [demo_commit] t"
    by (rule session_run_single)
  have ph: "phase (demo_session APPLY_STARTED) = APPLY_STARTED" "budget (demo_session APPLY_STARTED) = (1, 0)"
    by (simp_all add: budget_def demo_session_def)
  from session_run_after_approval [OF run] demo_coherent ph run show ?thesis by auto
qed

theorem session_update_phase_edge_witness:
  "\<exists>t::session. phase t = APPLY_COMMITTED \<and> phase_edge APPLY_STARTED (phase t)"
proof -
  obtain t where t: "build_session_successor demo_env demo_nested_ok (demo_session APPLY_STARTED)
      demo_commit InternalAuthority = Inr t" "phase t = APPLY_COMMITTED"
    using demo_commit_build by blast
  have "phase (demo_session APPLY_STARTED) = APPLY_STARTED" by (simp add: demo_session_def)
  with session_update_phase_edge [OF t(1)] demo_coherent t(2)
  have "phase t = APPLY_COMMITTED \<and> phase_edge APPLY_STARTED (phase t)" by auto
  then show ?thesis ..
qed

theorem session_run_identity_witness:
  "\<exists>t. session_run demo_env demo_nested_ok (demo_session APPLY_STARTED) [demo_commit] t
     \<and> normalize (dget (session_value t) ''preview_requested'') = PBool False"
proof -
  obtain t where "build_session_successor demo_env demo_nested_ok (demo_session APPLY_STARTED)
      demo_commit InternalAuthority = Inr t"
    using demo_commit_build by blast
  then have run: "session_run demo_env demo_nested_ok (demo_session APPLY_STARTED) [demo_commit] t"
    by (rule session_run_single)
  have "dget (session_value (demo_session APPLY_STARTED)) ''preview_requested'' = PBool False"
    by (simp add: demo_session_def demo_value_def dget_def)
  with session_run_identity [OF run, of "''preview_requested''"] demo_coherent run show ?thesis
    by (auto simp: IDENTITY_FIELDS_def)
qed

end
