(* ===== verification/RankedSteps.thy ===== *)
theory RankedSteps
  imports PyText
begin

text \<open>
  An interface of the step relations of the program: each accepted step raises a rank, so a
  journal that advances by such steps never returns to an earlier state. The extended
  interface adds a potential that the steps of one kind use up, which bounds their number.
  The pending transitions of a session and the journal of a runtime transaction provide it.
\<close>

locale ranked_steps =
  fixes step :: "'a \<Rightarrow> 'a \<Rightarrow> bool"
    and rank :: "'a \<Rightarrow> 'r::linorder"
  assumes step_rank: "step x y \<Longrightarrow> rank x < rank y"
begin

lemma chain_sorted: "successively step xs \<Longrightarrow> sorted_wrt (\<lambda>x y. rank x < rank y) xs"
proof (induction xs rule: induct_list012)
  case (3 x y zs)
  then have "rank x < rank y" "sorted_wrt (\<lambda>x y. rank x < rank y) (y # zs)"
    using step_rank by auto
  then show ?case by auto
qed auto

lemma chain_distinct: "successively step xs \<Longrightarrow> distinct xs"
proof -
  assume "successively step xs"
  then have "sorted_wrt (\<lambda>x y. rank x < rank y) xs" by (rule chain_sorted)
  then show "distinct xs" by (induction xs) auto
qed

lemma trancl_rank: "step\<^sup>+\<^sup>+ x y \<Longrightarrow> rank x < rank y"
  by (induction rule: tranclp_induct) (auto dest: step_rank)

lemma no_cycle: "\<not> step\<^sup>+\<^sup>+ x x"
  using trancl_rank by blast

end

fun advances :: "('a \<Rightarrow> 'a \<Rightarrow> bool) \<Rightarrow> 'a list \<Rightarrow> nat" where
  \<comment> \<open>the steps of a chain that are not retries\<close>
  "advances retry (x # y # zs) = (if retry x y then 0 else 1) + advances retry (y # zs)"
| "advances retry _ = 0"

locale bounded_steps = ranked_steps step rank
  for step :: "'a \<Rightarrow> 'a \<Rightarrow> bool" and rank :: "'a \<Rightarrow> 'r::linorder" +
  fixes retry :: "'a \<Rightarrow> 'a \<Rightarrow> bool"
    and fuel :: "'a \<Rightarrow> nat"
  assumes step_fuel: "step x y \<Longrightarrow> (if retry x y then fuel y \<le> fuel x else fuel y < fuel x)"
begin

lemma chain_advances: "successively step (x # xs) \<Longrightarrow> advances retry (x # xs) \<le> fuel x"
proof (induction xs arbitrary: x)
  case (Cons y ys)
  then have "advances retry (y # ys) \<le> fuel y" "step x y" by auto
  with step_fuel [of x y] show ?case by (auto split: if_splits)
qed simp

end

section \<open>Integers of documents\<close>

fun int_of_value :: "pyval \<Rightarrow> int" where
  "int_of_value (PInt n) = n"
| "int_of_value (PBool b) = bool_int b"
| "int_of_value _ = 0"

lemma py_eq_int: "py_eq v w \<Longrightarrow> int_of_value v = int_of_value w"
  by (cases v) (auto split: pyval.splits simp: bool_int_def)

lemma is_succ_int: "is_succ v w \<Longrightarrow> int_of_value w = int_of_value v + 1"
  by (cases v) (auto simp: bool_int_def split: pyval.splits dest: py_eq_int)

end
