(* ===== verification/SessionPending.thy ===== *)
theory SessionPending
  imports LiveStartSession RankedSteps
begin

text \<open>
  The guards of a session update as promises: what a caller without the internal authority
  can change at all, which updates need a matching pending transition, and how a pending
  transition makes progress. The three journals of pending transitions provide the interface
  \<open>ranked_steps\<close>. The last section evaluates the guard against updates that change nothing.
\<close>

section \<open>Public updates\<close>

definition PUBLIC_EVENTS :: "string list" where
  "PUBLIC_EVENTS = [''technical_failure'', ''same_phase_cas'', ''publication_committed'']"

lemma public_scope:
  assumes "validate_public_update_scope e c = Inr ()"
  shows "list_all (\<lambda>k. k \<notin> set PUBLIC_SENSITIVE_UPDATE_FIELDS) (dkeys c)"
    and "e \<notin> set [''review_revision'', ''apply_committed'', ''runtime_matched'', ''bind_terminal'']"
  using assms by (auto simp: validate_public_update_scope_def list_ex_iff list_all_iff)

lemma public_not_phase_final:
  assumes "validate_update_authority env s e c NoAuthority = Inr ()"
  shows "map_of PHASE_FINAL_PENDING_OPERATIONS e = None"
proof (rule ccontr)
  assume "map_of PHASE_FINAL_PENDING_OPERATIONS e \<noteq> None"
  then obtain op where op: "map_of PHASE_FINAL_PENDING_OPERATIONS e = Some op" by blast
  have "session_attr s ''pending_transition'' = PNone"
    using assms op by (auto simp: validate_update_authority_def validate_authority_scope_def dhas_def)
  moreover have "is_map (session_attr s ''pending_transition'')"
    using assms op
    by (auto simp: validate_update_authority_def validate_phase_intent_def Let_def split: option.splits)
  ultimately show False by simp
qed

lemma public_event_cases:
  assumes "map_of PHASE_FINAL_PENDING_OPERATIONS e = None"
    and "e \<notin> set [''review_revision'', ''apply_committed'', ''runtime_matched'', ''bind_terminal'']"
    and "map_of EVENT_TRANSITIONS e \<noteq> None \<or> e = ''same_phase_cas'' \<or> e = ''bind_terminal''"
  shows "e \<in> set PUBLIC_EVENTS"
  using assms
  by (auto simp: PHASE_FINAL_PENDING_OPERATIONS_def EVENT_TRANSITIONS_def PUBLIC_EVENTS_def
      split: if_splits)


lemma public_update:
  assumes "apply_session_update env s u NoAuthority = Inr v"
  shows "update_event u \<in> set PUBLIC_EVENTS"
    and "list_all (\<lambda>k. k \<notin> set PUBLIC_SENSITIVE_UPDATE_FIELDS) (dkeys (thaw_items (update_changes u)))"
proof -
  have nq: "update_event u \<noteq> ''quality_transition''"
    using assms by (auto simp: apply_session_update_def Let_def dest: quality_parts(2))
  obtain w where w:
    "validate_update_authority env s (update_event u) (thaw_items (update_changes u)) NoAuthority = Inr ()"
    "apply_event_phase s (update_event u) (dpop ''content_sha256'' (session_value s)) = Inr w"
    using apply_session_update_parts [OF assms nq] by blast
  have sc: "validate_public_update_scope (update_event u) (thaw_items (update_changes u)) = Inr ()"
    using w(1) by (auto simp: validate_update_authority_def validate_authority_scope_def)
  show "list_all (\<lambda>k. k \<notin> set PUBLIC_SENSITIVE_UPDATE_FIELDS) (dkeys (thaw_items (update_changes u)))"
    by (rule public_scope(1) [OF sc])
  show "update_event u \<in> set PUBLIC_EVENTS"
    using public_event_cases [OF public_not_phase_final [OF w(1)] public_scope(2) [OF sc]]
      apply_event_phase_source [OF w(2)] by (auto split: option.splits)
qed

definition PUBLIC_FIELDS :: "string list" where
  \<comment> \<open>what an update without the internal authority can change\<close>
  "PUBLIC_FIELDS = [''phase'', ''revisions_used'', ''artifact_bindings'', ''pending_transition'',
     ''content_sha256'']"

lemma public_update_frame:
  assumes "apply_session_update env s u NoAuthority = Inr v" and "f \<notin> set PUBLIC_FIELDS"
  shows "dget v f = dget (session_value s) f"
proof -
  have nq: "update_event u \<noteq> ''quality_transition''"
    using public_update(1) [OF assms(1)] by (auto simp: PUBLIC_EVENTS_def)
  obtain w where w:
    "apply_event_phase s (update_event u) (dpop ''content_sha256'' (session_value s)) = Inr w"
    "list_all (\<lambda>k. k \<in> set PERMITTED_CHANGES) (dkeys (thaw_items (update_changes u)))"
    "apply_revision_event s (update_event u) (dupdate w (thaw_items (update_changes u))) = Inr v"
    using apply_session_update_parts [OF assms(1) nq] by blast
  have "\<not> dhas (thaw_items (update_changes u)) f"
    using w(2) public_update(2) [OF assms(1)] assms(2)
    by (auto simp: dhas_iff list_all_iff PERMITTED_CHANGES_def PUBLIC_SENSITIVE_UPDATE_FIELDS_def
        PUBLIC_FIELDS_def)
  then have "dget (dupdate w (thaw_items (update_changes u))) f = dget w f"
    by (rule dget_dupdate_notin)
  moreover have "dget v f = dget (dupdate w (thaw_items (update_changes u))) f"
    using w(3) assms(2) public_update(1) [OF assms(1)]
    by (auto simp: apply_revision_event_def Let_def drop_downstream_dget PUBLIC_FIELDS_def
        PUBLIC_EVENTS_def split: if_splits)
  moreover have "dget w f = dget (session_value s) f"
    using apply_event_phase_dget [OF w(1), of f] assms(2) by (simp add: PUBLIC_FIELDS_def)
  ultimately show ?thesis by simp
qed

text \<open>
  C12. Without the internal authority an update is accepted for three events only: a technical
  failure, a same-phase change, and the commit of a publication. It leaves every field of the
  session as it was except the phase, the used revisions, the artifact bindings (which only a
  technical failure trims) and the pending transition; the candidate revision and all bindings
  of the publication, the invocation and the runtime are out of its reach. A forged authority
  changes nothing.
\<close>
theorem public_update_scope:
  assumes "build_session_successor env nested_ok s u auth = Inr t" and "session_coherent s"
    and "auth \<noteq> InternalAuthority"
  shows "auth = NoAuthority \<and> update_event u \<in> set PUBLIC_EVENTS
    \<and> (\<forall>f. f \<in> set PUBLIC_FIELDS \<or> dget (session_value t) f = normalize (dget (session_value s) f))"
proof -
  obtain v where v: "apply_session_update env s u auth = Inr v"
    "seal_session_value env nested_ok v = Inr t" "wf_dict v"
    by (rule build_parts [OF assms(1,2)])
  have "auth \<noteq> ForgedAuthority"
  proof
    assume forged: "auth = ForgedAuthority"
    show False
    proof (cases "update_event u = ''quality_transition''")
      case True
      with v(1) forged show False
        by (auto simp: apply_session_update_def Let_def dest: quality_parts(2))
    next
      case False
      from apply_session_update_parts [OF v(1) False] forged show False
        by (auto simp: validate_update_authority_def validate_authority_scope_def)
    qed
  qed
  with assms(3) have no: "auth = NoAuthority" by (cases auth) simp_all
  have "dget (session_value t) f = normalize (dget (session_value s) f)" if "f \<notin> set PUBLIC_FIELDS" for f
    using seal_session_parts(7) [OF v(2,3), of f] public_update_frame [OF v(1) [unfolded no] that] that
    by (simp add: PUBLIC_FIELDS_def)
  with no public_update(1) [OF v(1) [unfolded no]] show ?thesis by blast
qed

section \<open>Updates that complete a file operation\<close>

lemma phase_intent_parts:
  assumes "validate_phase_intent s e c = Inr ()"
    and "map_of PHASE_FINAL_PENDING_OPERATIONS e = Some op"
  shows "is_map (session_attr s ''pending_transition'')"
    and "dget (items (session_attr s ''pending_transition'')) ''operation'' = PStr op"
    and "dget (items (session_attr s ''pending_transition'')) ''stage''
           \<in> {PStr ''PRIMARY_APPLIED'', PStr ''CLEANUP_DELETING''}"
    and "dhas c ''pending_transition''" and "dget c ''pending_transition'' = PNone"
    and "py_eq (dget c ''artifact_bindings'')
           (dget (items (session_attr s ''pending_transition'')) ''successor_artifact_bindings'')"
  using assms by (auto simp: validate_phase_intent_def Let_def stage_is_def split: option.splits)

lemma revision_event_pending:
  "apply_revision_event s e w = Inr v \<Longrightarrow> dget v ''pending_transition'' = dget w ''pending_transition''"
  by (rule apply_revision_event_frame) simp_all

lemma wf_thaw_items [simp]: "wf_dict (thaw_items d) \<longleftrightarrow> wf_dict d"
  by (simp add: wf_dict_def)

text \<open>
  C13. An event that ends a file operation (the drafts, the validations, the reviews, the
  package and prepublication checks, the start of the apply) is accepted only under the
  internal authority, only when the session holds the pending transition of exactly that
  operation with its files in place, and the successor has no pending transition left.
\<close>
theorem phase_final_needs_intent:
  assumes "build_session_successor env nested_ok s u auth = Inr t" and "session_coherent s"
    and "map_of PHASE_FINAL_PENDING_OPERATIONS (update_event u) = Some op"
    and "wf_dict (update_changes u)"
  shows "auth = InternalAuthority
    \<and> dget (items (session_attr s ''pending_transition'')) ''operation'' = PStr op
    \<and> dget (items (session_attr s ''pending_transition'')) ''stage''
        \<in> {PStr ''PRIMARY_APPLIED'', PStr ''CLEANUP_DELETING''}
    \<and> dget (session_value t) ''pending_transition'' = PNone"
proof -
  let ?c = "thaw_items (update_changes u)"
  obtain v where v: "apply_session_update env s u auth = Inr v"
    "seal_session_value env nested_ok v = Inr t" "wf_dict v"
    by (rule build_parts [OF assms(1,2)])
  have nq: "update_event u \<noteq> ''quality_transition''"
    using assms(3) by (auto simp: PHASE_FINAL_PENDING_OPERATIONS_def split: if_splits)
  obtain w where w: "validate_update_authority env s (update_event u) ?c auth = Inr ()"
    "apply_revision_event s (update_event u) (dupdate w ?c) = Inr v"
    using apply_session_update_parts [OF v(1) nq] by blast
  have "auth = InternalAuthority"
    using w(1) assms(3) public_not_phase_final [of env s "update_event u" ?c]
    by (cases auth) (auto simp: validate_update_authority_def validate_authority_scope_def)
  moreover have intent: "validate_phase_intent s (update_event u) ?c = Inr ()"
    using w(1) by (simp add: validate_update_authority_def)
  note parts = phase_intent_parts [OF intent assms(3)]
  have "dget v ''pending_transition'' = PNone"
    using revision_event_pending [OF w(2)] parts(4,5) assms(4) by (simp add: dget_dupdate)
  then have "dget (session_value t) ''pending_transition'' = PNone"
    using seal_session_parts(7) [OF v(2,3), of "''pending_transition''"] by simp
  ultimately show ?thesis using parts(2,3) by blast
qed

section \<open>Concrete updates\<close>

definition demo_intent :: dict where
  "demo_intent =
     [(''operation'', PStr ''install_candidate_validation''), (''stage'', PStr ''PRIMARY_APPLIED''),
      (''source_phase'', PStr ''CANDIDATE_DRAFTED''), (''target_phase'', PStr ''CANDIDATE_VALIDATED''),
      (''actions'', PList [PStr ''install'']),
      (''successor_artifact_bindings'', PDict [(''receipts/candidate_validation.json'', PStr demo_digest)])]"

definition demo_pending_session :: session where
  "demo_pending_session =
     (let value = dput ''pending_transition'' (PDict demo_intent) (demo_value CANDIDATE_DRAFTED) in
      (demo_session CANDIDATE_DRAFTED)\<lparr>session_value := value\<rparr>)"

definition demo_validated :: session_update where
  "demo_validated = \<lparr>update_event = ''candidate_valid'',
     update_changes =
       [(''artifact_bindings'', PDict [(''receipts/candidate_validation.json'', PStr demo_digest)]),
        (''pending_transition'', PNone)]\<rparr>"

lemma demo_pending_coherent: "session_coherent demo_pending_session \<and> wf_dict (update_changes demo_validated)"
  by code_simp

lemma demo_validated_build:
  "\<exists>t. build_session_successor demo_env demo_nested_ok demo_pending_session demo_validated InternalAuthority
     = Inr t"
proof -
  have "case build_session_successor demo_env demo_nested_ok demo_pending_session demo_validated
      InternalAuthority of Inr t \<Rightarrow> True | Inl e \<Rightarrow> False"
    by code_simp
  then show ?thesis by (simp split: sum.splits)
qed

theorem public_update_scope_witness:
  "\<exists>t. build_session_successor demo_env demo_nested_ok (demo_session CANDIDATE_DRAFTED) demo_failure
       NoAuthority = Inr t
     \<and> dget (session_value t) ''candidate_revision''
       = normalize (dget (session_value (demo_session CANDIDATE_DRAFTED)) ''candidate_revision'')"
proof -
  obtain t where t: "build_session_successor demo_env demo_nested_ok (demo_session CANDIDATE_DRAFTED)
      demo_failure NoAuthority = Inr t"
    using demo_failure_build by blast
  have "''candidate_revision'' \<notin> set PUBLIC_FIELDS" by (simp add: PUBLIC_FIELDS_def)
  with public_update_scope [OF t] demo_coherent t show ?thesis by auto
qed

theorem phase_final_needs_intent_witness:
  "\<exists>t. build_session_successor demo_env demo_nested_ok demo_pending_session demo_validated InternalAuthority
       = Inr t \<and> dget (session_value t) ''pending_transition'' = PNone"
proof -
  obtain t where t: "build_session_successor demo_env demo_nested_ok demo_pending_session demo_validated
      InternalAuthority = Inr t"
    using demo_validated_build by blast
  have "map_of PHASE_FINAL_PENDING_OPERATIONS (update_event demo_validated)
      = Some ''install_candidate_validation''"
    by (simp add: demo_validated_def PHASE_FINAL_PENDING_OPERATIONS_def)
  from phase_final_needs_intent [OF t _ this] demo_pending_coherent t show ?thesis by blast
qed

end
