(* ===== verification/SessionProgress.thy ===== *)
theory SessionProgress
  imports SessionPending
begin

text \<open>
  The pending transitions of a session as journals: every step that the three successor
  validators accept raises a rank, so a pending transition never returns to an earlier
  document. The installation of an apply invocation is also bounded: apart from the retries of
  a planned file it takes at most five steps. The last section evaluates the guard against
  updates that change nothing.
\<close>

section \<open>Ranks\<close>

definition stage_rank :: "dict \<Rightarrow> int" where
  "stage_rank d =
     (if stage_is d ''PREPARED'' then 0 else if stage_is d ''STAGING_BOUND'' then 1
      else if stage_is d ''PRIMARY_APPLIED'' then 2 else if stage_is d ''CLEANUP_DELETING'' then 3 else 4)"

definition external_rank :: "pyval \<Rightarrow> int" where
  "external_rank e =
     (if e = PNone then 0 else if stage_is (items e) ''PLANNED'' then 1 else 2)"

definition attempt :: "dict \<Rightarrow> int" where
  "attempt d = int_of_value (dget (items (dget d ''external_file_action'')) ''action_index'')"

definition file_index :: "dict \<Rightarrow> int" where
  "file_index d = int_of_value (dget d ''next_action_index'')"

definition apply_rank :: "dict \<Rightarrow> int \<times> int \<times> int \<times> int" where
  "apply_rank d =
     (stage_rank d, file_index d, external_rank (dget d ''external_file_action''), attempt d)"

definition cleanup_rank :: "dict \<Rightarrow> int \<times> int \<times> int" where
  "cleanup_rank d =
     (stage_rank d, (if stage_is d ''CLEANUP_DELETING'' then int_of_value (dget d ''cleanup_cursor'') else 0),
      attempt d)"

definition materialization_rank :: "dict \<Rightarrow> int \<times> int" where
  "materialization_rank d = (stage_rank d, file_index d)"

lemmas rank_defs = stage_rank_def external_rank_def attempt_def file_index_def stage_is_def kind_is_def
  less_prod_def

lemma is_map_not_None [simp]: "is_map v \<Longrightarrow> v \<noteq> PNone"
  by auto

lemma planned_again_rank:
  assumes "planned_again k ce ne"
  shows "external_rank ce = 1" and "external_rank ne = 1"
    and "int_of_value (dget (items ne) ''action_index'') = int_of_value (dget (items ce) ''action_index'') + 1"
  using assms by (auto simp: planned_again_def external_rank_def dest: is_succ_int)

lemma planned_bound_rank:
  "planned_bound k k' ce ne \<Longrightarrow> external_rank ce = 1 \<and> external_rank ne = 2"
  by (auto simp: planned_bound_def external_rank_def stage_is_def)

lemma index_unchanged_int: "index_unchanged c n \<Longrightarrow> file_index n = file_index c"
  by (simp add: index_unchanged_def file_index_def py_eq_int)

lemma stage_rank_stage:
  "stage_is d ''PREPARED'' \<Longrightarrow> stage_rank d = 0" "stage_is d ''STAGING_BOUND'' \<Longrightarrow> stage_rank d = 1"
  "stage_is d ''PRIMARY_APPLIED'' \<Longrightarrow> stage_rank d = 2"
  "stage_is d ''CLEANUP_DELETING'' \<Longrightarrow> stage_rank d = 3"
  by (simp_all add: stage_rank_def stage_is_def)

text \<open>The five kinds of step of an apply invocation, in the terms of the ranks.\<close>

definition retry_move :: "dict \<Rightarrow> dict \<Rightarrow> bool" where
  "retry_move c n =
     (stage_rank n = stage_rank c \<and> file_index n = file_index c \<and> attempt n = attempt c + 1
      \<and> external_rank (dget c ''external_file_action'') = 1
      \<and> external_rank (dget n ''external_file_action'') = 1)"

definition stage_move :: "dict \<Rightarrow> dict \<Rightarrow> bool" where
  "stage_move c n =
     (stage_rank c = 0 \<and> stage_rank n = 1
      \<or> stage_rank c = 1 \<and> stage_rank n = 2 \<and> external_rank (dget n ''external_file_action'') = 0)"

definition receipt_move :: "dict \<Rightarrow> dict \<Rightarrow> int \<Rightarrow> int \<Rightarrow> bool" where
  "receipt_move c n e e' =
     (stage_rank c = 2 \<and> stage_rank n = 2
      \<and> external_rank (dget c ''external_file_action'') = e
      \<and> external_rank (dget n ''external_file_action'') = e')"

lemma external_rank_staged:
  "external_rank PNone = 0" "is_map e \<Longrightarrow> stage_is (items e) ''PLANNED'' \<Longrightarrow> external_rank e = 1"
  "is_map e \<Longrightarrow> stage_is (items e) ''STAGING_BOUND'' \<Longrightarrow> external_rank e = 2"
  by (auto simp: external_rank_def stage_is_def)

lemma apply_step_moves:
  assumes "apply_invocation_step c n"
  shows "retry_move c n \<or> stage_move c n
    \<or> receipt_move c n 0 1 \<and> file_index c = 0 \<and> file_index n = 0
    \<or> receipt_move c n 1 2 \<and> file_index n = file_index c
    \<or> receipt_move c n 2 0 \<and> file_index n = file_index c + 1"
  using assms unfolding apply_invocation_step_def Let_def
proof (elim disjE, goal_cases)
  case 1
  then show ?case
    using planned_again_rank index_unchanged_int
    by (auto simp: prepared_cleanup_def retry_move_def attempt_def stage_rank_stage)
next
  case 2
  then show ?case by (auto simp: admission_staging_bound_def stage_move_def stage_rank_stage)
next
  case 3
  then show ?case
    by (auto simp: admission_committed_def stage_move_def stage_rank_stage external_rank_staged)
next
  case 4
  then have "receipt_move c n 0 1" "index_unchanged c n" "int_of_value (dget n ''next_action_index'') = 0"
    by (auto simp: receipt_intent_installed_def receipt_move_def stage_rank_stage external_rank_staged
        dest: py_eq_int)
  then show ?case using index_unchanged_int [of c n] by (simp add: file_index_def)
next
  case 5
  then show ?case
    using planned_again_rank index_unchanged_int
    by (auto simp: receipt_cleanup_def retry_move_def attempt_def stage_rank_stage)
next
  case 6
  then show ?case
    using planned_bound_rank index_unchanged_int
    by (auto simp: receipt_staging_bound_def receipt_move_def stage_rank_stage)
next
  case 7
  then have "receipt_move c n 2 0" "file_index n = file_index c + 1"
    by (auto simp: receipt_committed_def receipt_move_def stage_rank_stage external_rank_staged
        file_index_def is_succ_int)
  then show ?case by simp
qed

definition apply_fuel :: "dict \<Rightarrow> nat" where
  \<comment> \<open>a bound on the steps left that are not retries\<close>
  "apply_fuel d =
     (let e = external_rank (dget d ''external_file_action''); i = file_index d in
      if stage_rank d = 0 then 5 else if stage_rank d = 1 then 4
      else if e = 0 then (if i = 0 then 3 else 0)
      else if i = - 1 then (if e = 1 then 5 else 4)
      else if e = 1 then 2 else 1)"

lemma lex_less:
  "(a::int) < a' \<Longrightarrow> (a, x) < (a', x')" "a = a' \<Longrightarrow> x < x' \<Longrightarrow> (a, x) < (a', x')"
  by (auto simp: less_prod_def)

lemma apply_step_rank: "apply_invocation_step c n \<Longrightarrow> apply_rank c < apply_rank n"
  by (drule apply_step_moves)
     (auto simp: apply_rank_def less_prod_def retry_move_def stage_move_def receipt_move_def)

lemma apply_fuel_receipt:
  "stage_rank d = 2 \<Longrightarrow> external_rank (dget d ''external_file_action'') = 0 \<Longrightarrow>
     apply_fuel d = (if file_index d = 0 then 3 else 0)"
  "stage_rank d = 2 \<Longrightarrow> external_rank (dget d ''external_file_action'') = 1 \<Longrightarrow>
     apply_fuel d = (if file_index d = - 1 then 5 else 2)"
  "stage_rank d = 2 \<Longrightarrow> external_rank (dget d ''external_file_action'') = 2 \<Longrightarrow>
     apply_fuel d = (if file_index d = - 1 then 4 else 1)"
  by (simp_all add: apply_fuel_def)

lemma apply_step_fuel:
  assumes "apply_invocation_step c n"
  shows "if retry_move c n then apply_fuel n \<le> apply_fuel c else apply_fuel n < apply_fuel c"
proof (cases "retry_move c n")
  case True
  then have "apply_fuel n = apply_fuel c" by (simp add: apply_fuel_def retry_move_def Let_def)
  with True show ?thesis by simp
next
  case False
  have "apply_fuel n < apply_fuel c" if "stage_move c n"
    using that unfolding stage_move_def
  proof (elim disjE)
    assume "stage_rank c = 1 \<and> stage_rank n = 2 \<and> external_rank (dget n ''external_file_action'') = 0"
    then have "apply_fuel c = 4" "apply_fuel n \<le> 3" by (simp_all add: apply_fuel_def apply_fuel_receipt)
    then show ?thesis by simp
  qed (simp add: apply_fuel_def)
  with False apply_step_moves [OF assms] show ?thesis
    by (auto simp: receipt_move_def apply_fuel_receipt)
qed

interpretation apply_journal: bounded_steps apply_invocation_step apply_rank retry_move apply_fuel
  by unfold_locales (use apply_step_rank apply_step_fuel in auto)

text \<open>
  C14. A pending \<open>install_apply_invocation\<close> transition only moves forward: in a chain of
  documents, each of which the validator accepts as the successor of the one before, no document
  occurs twice, and apart from the retries of a planned file (which only raise its attempt
  number) there are at most five steps, however long the chain is.
\<close>
theorem apply_invocation_progress:
  assumes "successively apply_invocation_step (d # ds)"
  shows "distinct (d # ds) \<and> advances retry_move (d # ds) \<le> 5"
  using apply_journal.chain_distinct [OF assms] apply_journal.chain_advances [OF assms]
  by (auto simp: apply_fuel_def Let_def split: if_splits)

section \<open>Cleanup and materialisation\<close>

definition cleanup_accepts :: "dict \<Rightarrow> dict \<Rightarrow> bool" where
  "cleanup_accepts c n = (cleanup_step c n = Inr ())"

lemma cleanup_step_moves:
  assumes "cleanup_accepts c n"
  shows "stage_is c ''PREPARED'' \<and> stage_is n ''PREPARED'' \<and> attempt n = attempt c + 1
    \<or> stage_is c ''PREPARED'' \<and> stage_is n ''STAGING_BOUND''
    \<or> stage_is c ''STAGING_BOUND'' \<and> stage_is n ''PRIMARY_APPLIED''
    \<or> stage_is c ''PRIMARY_APPLIED'' \<and> stage_is n ''CLEANUP_DELETING''
    \<or> stage_is c ''CLEANUP_DELETING'' \<and> stage_is n ''CLEANUP_DELETING''
      \<and> int_of_value (dget n ''cleanup_cursor'') = int_of_value (dget c ''cleanup_cursor'') + 1"
proof -
  have "is_succ (dget (items (dget c ''external_file_action'')) ''action_index'')
          (dget (items (dget n ''external_file_action'')) ''action_index'')"
    if "stage_is c ''PREPARED''" "stage_is n ''PREPARED''"
    using assms that unfolding cleanup_accepts_def cleanup_step_def Let_def by simp
  then have 1: "attempt n = attempt c + 1" if "stage_is c ''PREPARED''" "stage_is n ''PREPARED''"
    using that by (simp add: attempt_def is_succ_int)
  have "is_succ (dget c ''cleanup_cursor'') (dget n ''cleanup_cursor'')"
    if "stage_is c ''CLEANUP_DELETING''" "stage_is n ''CLEANUP_DELETING''"
    using assms that unfolding cleanup_accepts_def cleanup_step_def Let_def
    by (simp add: stage_is_def)
  then have 5: "int_of_value (dget n ''cleanup_cursor'') = int_of_value (dget c ''cleanup_cursor'') + 1"
    if "stage_is c ''CLEANUP_DELETING''" "stage_is n ''CLEANUP_DELETING''"
    using that by (simp add: is_succ_int)
  have "stage_is c ''PREPARED'' \<and> stage_is n ''PREPARED''
    \<or> stage_is c ''PREPARED'' \<and> stage_is n ''STAGING_BOUND''
    \<or> stage_is c ''STAGING_BOUND'' \<and> stage_is n ''PRIMARY_APPLIED''
    \<or> stage_is c ''PRIMARY_APPLIED'' \<and> stage_is n ''CLEANUP_DELETING''
    \<or> stage_is c ''CLEANUP_DELETING'' \<and> stage_is n ''CLEANUP_DELETING''"
    using assms unfolding cleanup_accepts_def cleanup_step_def Let_def
    by (simp split: if_splits del: checks_Cons_Inr raise_if_Inr_iff)
  with 1 5 show ?thesis by blast
qed

lemma cleanup_step_rank: "cleanup_accepts c n \<Longrightarrow> cleanup_rank c < cleanup_rank n"
  by (drule cleanup_step_moves)
     (elim disjE conjE; simp add: cleanup_rank_def less_prod_def stage_rank_stage; simp add: stage_is_def)

interpretation cleanup_journal: ranked_steps cleanup_accepts cleanup_rank
  by unfold_locales (rule cleanup_step_rank)

lemma materialization_step_rank:
  "materialization_step c n \<Longrightarrow> materialization_rank c < materialization_rank n"
  by (auto simp: materialization_step_def materialization_rank_def less_prod_def file_index_def
      stage_rank_stage dest: is_succ_int split: if_splits)

interpretation materialization_journal: ranked_steps materialization_step materialization_rank
  by unfold_locales (rule materialization_step_rank)

text \<open>The cleanup cursor moves by one entry a step, once the deletion has begun.\<close>

lemma cleanup_deleting_step:
  assumes "cleanup_accepts c n" and "stage_is c ''CLEANUP_DELETING''"
  shows "stage_is n ''CLEANUP_DELETING''
    \<and> int_of_value (dget n ''cleanup_cursor'') = int_of_value (dget c ''cleanup_cursor'') + 1"
  using cleanup_step_moves [OF assms(1)] assms(2) by (auto simp: stage_is_def)

lemma cleanup_deleting_chain:
  "successively cleanup_accepts (d # ds) \<Longrightarrow> stage_is d ''CLEANUP_DELETING'' \<Longrightarrow>
     int_of_value (dget (last (d # ds)) ''cleanup_cursor'')
       = int_of_value (dget d ''cleanup_cursor'') + int (length ds)"
proof (induction ds arbitrary: d)
  case (Cons e ds)
  then have "cleanup_accepts d e" "successively cleanup_accepts (e # ds)" by auto
  with Cons.IH [of e] cleanup_deleting_step [of d e] Cons.prems(2) show ?case by simp
qed simp

text \<open>
  C15. A pending prepublication cleanup only moves forward: no document occurs twice in a chain
  of accepted steps, and once the deletion has begun the cursor counts the steps one by one, so
  the cleanup of \<open>n\<close> entries takes exactly \<open>n\<close> steps and skips none of them.
\<close>
theorem prepublication_cleanup_progress:
  assumes "successively cleanup_accepts (d # ds)"
  shows "distinct (d # ds)
    \<and> (stage_is d ''CLEANUP_DELETING'' \<longrightarrow>
         int_of_value (dget (last (d # ds)) ''cleanup_cursor'')
           = int_of_value (dget d ''cleanup_cursor'') + int (length ds))"
  using cleanup_journal.chain_distinct [OF assms] cleanup_deleting_chain [OF assms] by blast

section \<open>Updates that change nothing\<close>

text \<open>
  \<open>getattr(session, field)\<close> is the frozen document, whose lists are tuples, and the changes
  that it is compared with are thawed, so their lists are lists. A document with a list inside
  is never found equal to itself.
\<close>

fun has_sequence :: "pyval \<Rightarrow> bool"
and any_sequence :: "dict \<Rightarrow> bool" where
  "has_sequence (PList xs) = True"
| "has_sequence (PTuple xs) = True"
| "has_sequence (PDict d) = any_sequence d"
| "has_sequence v = False"
| "any_sequence [] = False"
| "any_sequence ((k, v) # d) = (has_sequence v \<or> any_sequence d)"

lemma any_sequence_iff: "any_sequence d \<longleftrightarrow> (\<exists>kv\<in>set d. has_sequence (snd kv))"
  by (induction d) auto

lemma py_sub_iff:
  "py_sub d e \<longleftrightarrow> (\<forall>kv\<in>set d. case map_of e (fst kv) of None \<Rightarrow> False | Some w \<Rightarrow> py_eq (snd kv) w)"
proof (induction d)
  case (Cons kv d)
  obtain k v where "kv = (k, v)" by force
  with Cons.IH show ?case by (cases "map_of e k") simp_all
qed simp

lemma set_freeze_items: "set (freeze_items d) = (\<lambda>(k, v). (k, freeze v)) ` set d"
  by (induction d) auto

lemma set_thaw_items: "set (thaw_items d) = (\<lambda>(k, v). (k, thaw v)) ` set d"
  by (induction d) auto

lemma wf_sort_items [simp]: "wf_dict (sort_key fst (d :: dict)) \<longleftrightarrow> wf_dict d"
  by (metis distinct_map distinct_sort set_sort wf_dict_def)

lemma py_sub_frozen:
  assumes "wf_dict d"
  shows "py_sub (thaw_items (sort_key fst (freeze_items d))) (sort_key fst (freeze_items d))
    \<longleftrightarrow> (\<forall>kv\<in>set d. py_eq (thaw (freeze (snd kv))) (freeze (snd kv)))"
proof -
  let ?S = "sort_key fst (freeze_items d)"
  have wf: "wf_dict ?S" using assms by simp (simp add: wf_dict_def)
  then have "map_of ?S k = Some (freeze v)" if "(k, v) \<in> set d" for k v
    using that by (auto intro!: map_of_is_SomeI simp: wf_dict_def set_freeze_items)
  then show ?thesis by (auto simp: py_sub_iff set_thaw_items set_freeze_items)
qed

lemma thaw_frozen_equal: "wf_val v \<Longrightarrow> py_eq (thaw (freeze v)) (freeze v) \<longleftrightarrow> \<not> has_sequence v"
proof (induction v rule: pyval.induct)
  case (PDict d)
  then have "py_eq (thaw (freeze (snd kv))) (freeze (snd kv)) \<longleftrightarrow> \<not> has_sequence (snd kv)"
    if "kv \<in> set d" for kv
    using that by (cases kv) (auto simp: wf_items_iff)
  moreover have "length (thaw_items (sort_key fst (freeze_items d))) = length (sort_key fst (freeze_items d))"
    by (metis length_map thaw_items_keys)
  ultimately show ?case
    using PDict.prems by (auto simp: py_sub_frozen any_sequence_iff)
qed auto

text \<open>
  The guard that is to refuse a same-phase update that changes nothing only works for
  fields without lists: naming the current value of a field as its own successor passes the
  check exactly if the value contains a list. Every pending transition does (its actions), so a
  repeated pending transition is never refused as a repetition.
\<close>
theorem noop_guard_misses_lists:
  assumes "dhas (session_value s) f" and "wf_val (dget (session_value s) f)"
  shows "noop_check s (f, thaw (session_attr s f)) = Inr () \<longleftrightarrow> has_sequence (dget (session_value s) f)"
  using assms thaw_frozen_equal [of "dget (session_value s) f"]
  by (simp add: noop_check_def session_attr_def)

section \<open>Concrete journals\<close>

definition demo_runtime :: "pyval \<Rightarrow> dict" where
  "demo_runtime identity = map (\<lambda>f. (f, identity)) RUNTIME_ADMISSION_FIELDS"

definition demo_invocation :: "string \<Rightarrow> int \<Rightarrow> pyval \<Rightarrow> pyval \<Rightarrow> dict" where
  "demo_invocation st i e identity =
     [(''stage'', PStr st), (''next_action_index'', PInt i), (''external_file_action'', e)]
     @ demo_runtime identity"

definition demo_receipt_action :: "int \<Rightarrow> pyval" where
  "demo_receipt_action n =
     PDict [(''action_kind'', PStr ''materialize_invocation_receipt_staging''), (''stage'', PStr ''PLANNED''),
            (''action_index'', PInt n)]"

theorem apply_invocation_progress_witness:
  "advances retry_move
     [demo_invocation ''PRIMARY_APPLIED'' 0 PNone (PInt 7),
      demo_invocation ''PRIMARY_APPLIED'' 0 (demo_receipt_action 0) (PInt 7),
      demo_invocation ''PRIMARY_APPLIED'' 0 (demo_receipt_action 1) (PInt 7)] \<le> 5"
  by (rule apply_invocation_progress [THEN conjunct2]) code_simp

definition demo_cleanup :: "string \<Rightarrow> int \<Rightarrow> dict" where
  "demo_cleanup st i =
     [(''stage'', PStr st), (''cleanup_cursor'', PInt i), (''external_file_action'', PNone),
      (''cleanup_inventory_identity'', PInt 3), (''quarantine_identity'', PInt 4)]"

theorem prepublication_cleanup_progress_witness:
  "distinct [demo_cleanup ''CLEANUP_DELETING'' 0, demo_cleanup ''CLEANUP_DELETING'' 1,
     demo_cleanup ''CLEANUP_DELETING'' 2]"
  by (rule prepublication_cleanup_progress [THEN conjunct1]) code_simp

theorem noop_guard_misses_lists_witness:
  "noop_check demo_pending_session
     (''pending_transition'', thaw (session_attr demo_pending_session ''pending_transition'')) = Inr ()"
proof -
  have "dhas (session_value demo_pending_session) ''pending_transition''"
    and "wf_val (dget (session_value demo_pending_session) ''pending_transition'')"
    and "has_sequence (dget (session_value demo_pending_session) ''pending_transition'')"
    by code_simp+
  with noop_guard_misses_lists [of demo_pending_session "''pending_transition''"] show ?thesis by blast
qed

end
