(* ===== verification/SessionMatrix.thy ===== *)
theory SessionMatrix
  imports SessionDocuments
begin

text \<open>
  Which documents a live-start session holds in which phase
  (\<open>_validate_session_nested_documents\<close>, \<open>_validate_session_binding_matrix\<close>,
  \<open>_validate_top_level_phase_field_matrix\<close>, \<open>_validate_terminal_status_matrix\<close>,
  \<open>_validate_phase_artifact_bindings\<close> and their helpers in
  \<open>src/src/hsconfig/live_start_session.py\<close>). Every check is run on a document that its own
  validator has accepted, so \<open>field\<close> reads a mapping and \<open>one_of\<close> a string.
\<close>

section \<open>Discovery and artifacts\<close>

definition QUALITY_OPERATIONS :: "string list" where
  "QUALITY_OPERATIONS = [''quality_bootstrap'', ''quality_progress'', ''quality_freeze'']"

definition validate_quality_discovery_matrix :: "dict \<Rightarrow> unit res" where
  "validate_quality_discovery_matrix value =
     (let paths = dkeys (items (dget value ''artifact_bindings''));
          pending = dget value ''pending_transition'' in
      checks
       ([invalid_if
           (\<not> py_eq (dget value ''schema_version'') (PInt 2)
            \<or> \<not> py_eq (dget value ''candidate_revision'') (PInt 1)
            \<or> \<not> py_eq (dget value ''revisions_used'') (PInt 0))
           ''live_start_discovery_version_or_revision_invalid'']
        @ map (\<lambda>name. invalid_if (dget value name \<noteq> PNone) ''live_start_discovery_authority_forbidden'')
            (filter (\<lambda>name. name \<notin> set
               [''schema_version'', ''run_id'', ''deck_name'', ''deck_code_sha256'',
                ''preview_requested'', ''phase'', ''candidate_revision'', ''revisions_used'',
                ''artifact_bindings'', ''pending_transition'', ''content_sha256'']) SESSION_FIELDS)
        @ [invalid_if
             (set paths \<noteq> set QUALITY_SEED_PATHS
              \<and> \<not> (paths = [] \<and> is_map pending \<and> field pending ''operation'' = PStr ''quality_bootstrap''))
             ''live_start_discovery_artifacts_invalid'',
           invalid_if (pending \<noteq> PNone \<and> \<not> one_of (field pending ''operation'') QUALITY_OPERATIONS)
             ''live_start_discovery_operation_invalid'']))"

definition RESULT_PATHS :: "string list" where
  "RESULT_PATHS = [''result/summary.json'', ''result/summary.md'']"

definition REVISION_REQUEST_PATH :: string where
  "REVISION_REQUEST_PATH = ''starter/starter_config_review.json''"

definition replacement_pending :: "dict \<Rightarrow> bool" where
  "replacement_pending value =
     (let pending = dget value ''pending_transition'' in
      is_map pending
      \<and> field pending ''operation'' = PStr ''install_candidate''
      \<and> field pending ''source_phase'' = PStr ''CANDIDATE_DRAFTED''
      \<and> field pending ''target_phase'' = PStr ''CANDIDATE_DRAFTED''
      \<and> is_succ (dget value ''candidate_revision'') (field pending ''target_candidate_revision'')
      \<and> py_eq (field pending ''target_revisions_used'') (dget value ''revisions_used''))"

definition mandatory_artifacts :: "dict \<Rightarrow> live_phase \<Rightarrow> string list" where
  "mandatory_artifacts value p =
     dget_or PHASE_MANDATORY_ARTIFACTS p []
     @ (if py_eq (dget value ''schema_version'') (PInt 2) then QUALITY_INPUT_PATHS else [])"

definition revision_request_variant :: "dict \<Rightarrow> live_phase \<Rightarrow> string list \<Rightarrow> bool" where
  "revision_request_variant value p extras =
     (let pending = dget value ''pending_transition'' in
      p = CANDIDATE_DRAFTED
      \<and> (set extras = {REVISION_REQUEST_PATH}
         \<or> set extras = set (REVISION_REQUEST_PATH # RESULT_PATHS)
           \<and> dget value ''terminal_status'' = PStr ''FAILED_PRESERVED''
           \<and> is_map (dget value ''result_intent'') \<and> pending = PNone)
      \<and> py_eq (dget value ''revisions_used'') (dget value ''candidate_revision'')
      \<and> (pending = PNone \<or> replacement_pending value))"

definition validate_phase_artifact_bindings :: "dict \<Rightarrow> live_phase \<Rightarrow> unit res" where
  "validate_phase_artifact_bindings value p =
     (if p = DISCOVERY_REQUIRED then validate_quality_discovery_matrix value
      else
        (let mandatory = mandatory_artifacts value p;
             actual = dkeys (items (dget value ''artifact_bindings''));
             extras = filter (\<lambda>a. a \<notin> set mandatory) actual;
             variant = revision_request_variant value p extras in
         checks
          [invalid_unless (list_all (\<lambda>a. a \<in> set actual) mandatory)
             ''live_start_phase_artifact_binding_missing'',
           invalid_if (list_ex (\<lambda>a. a \<notin> set RESULT_PATHS) extras \<and> \<not> variant)
             ''live_start_phase_artifact_binding_forbidden'',
           invalid_if (dget value ''result_intent'' = PNone \<and> extras \<noteq> [] \<and> \<not> variant)
             ''live_start_result_artifact_binding_phase_invalid'',
           invalid_if
             (dget value ''terminal_status'' \<noteq> PNone
              \<and> set extras \<noteq> set (RESULT_PATHS @ (if variant then [REVISION_REQUEST_PATH] else [])))
             ''live_start_terminal_result_artifact_binding_missing'']))"

section \<open>The result of a session\<close>

definition TERMINAL_RETIREMENT_STAGES :: "(string \<times> string list) list" where
  "TERMINAL_RETIREMENT_STAGES =
     [(''ack_success'',
       [''PREPARED'', ''ACK_JOURNAL_RETIRED'', ''EVIDENCE_RETIRED'', ''ADMISSION_RELEASE_AUTHORIZED'']),
      (''release_not_committed'', [''PREPARED'', ''EVIDENCE_RETIRED'', ''ADMISSION_RELEASE_AUTHORIZED'']),
      (''release_committed_mismatch'', [''PREPARED'', ''EVIDENCE_RETIRED'', ''ADMISSION_RELEASE_AUTHORIZED'']),
      (''release_resolved_terminal'',
       [''RECOVERY_PREPARED'', ''RECOVERY_INVENTORY_BOUND'', ''RECOVERY_CLEANING'',
        ''RECOVERY_JOURNAL_RETIRED'', ''RECOVERY_FENCE_RETIRED'', ''RECOVERY_INVENTORY_RETIRED'',
        ''RECOVERY_STABILIZED'', ''EVIDENCE_RETIRED'', ''ADMISSION_RELEASE_AUTHORIZED''])]"

definition RETAINED_FIELDS :: "string list" where
  \<comment> \<open>\<open>f"{prefix}_{suffix}"\<close> for the three retained records\<close>
  "RETAINED_FIELDS =
     [prefix @ ''_'' @ suffix.
        prefix \<leftarrow> [''retained_attempt_record'', ''retained_journal'', ''retained_target_owner_journal''],
        suffix \<leftarrow> [''path'', ''identity'', ''sha256'']]"

definition RUNTIME_ADMISSION_INTENT :: "string list" where
  "RUNTIME_ADMISSION_INTENT =
     [''runtime_admission_path'', ''runtime_admission_parent_identity'', ''runtime_admission_identity'',
      ''runtime_admission_sha256'']"

definition terminal_operation_matches_authority ::
    "pyval \<Rightarrow> pyval \<Rightarrow> pyval \<Rightarrow> pyval \<Rightarrow> bool \<Rightarrow> bool" where
  "terminal_operation_matches_authority operation terminal_status intent acknowledgement has_resolution =
     (let disposition = field intent ''physical_disposition'';
          match_status = field intent ''runtime_match_status'' in
      if \<not> is_map intent \<or> \<not> py_eq terminal_status (field intent ''terminal_status'')
         \<or> \<not> one_of operation (dkeys TERMINAL_RETIREMENT_STAGES) then False
      else if list_ex (\<lambda>f. field intent f = PNone) RUNTIME_ADMISSION_INTENT then False
      else if one_of terminal_status [''LIVE_AND_MATCHED'', ''ALREADY_LIVE''] then
        operation = PStr ''ack_success'' \<and> disposition = PStr ''COMMITTED''
        \<and> match_status = PStr ''matched'' \<and> is_map acknowledgement \<and> \<not> has_resolution
      else if terminal_status = PStr ''FAILED_PRESERVED'' \<and> disposition = PStr ''NOT_COMMITTED''
         \<and> acknowledgement = PNone then
        (operation = PStr ''release_not_committed''
           \<and> field intent ''retained_candidate_identity'' = PNone
           \<and> list_all (\<lambda>f. field intent f = PNone) RETAINED_FIELDS \<and> \<not> has_resolution)
        \<or> (operation = PStr ''release_resolved_terminal'' \<and> has_resolution)
      else if terminal_status = PStr ''APPLIED_BUT_NOT_VERIFIED'' \<and> disposition = PStr ''COMMITTED''
         \<and> match_status = PStr ''mismatch'' \<and> acknowledgement = PNone then
        operation = PStr ''release_committed_mismatch'' \<and> \<not> has_resolution
      else if terminal_status = PStr ''APPLIED_BUT_NOT_VERIFIED''
         \<and> one_of disposition [''COMMITTED_RECOVERY_PENDING'', ''UNKNOWN_REQUIRES_RECOVERY'']
         \<and> one_of match_status [''not_run'', ''unknown''] \<and> acknowledgement = PNone then
        operation = PStr ''release_resolved_terminal'' \<and> has_resolution
      else False)"

definition preview_terminal_ok :: "dict \<Rightarrow> live_phase \<Rightarrow> bool" where
  "preview_terminal_ok value p =
     (let intent = dget value ''result_intent'' in
      p = PUBLICATION_COMMITTED
      \<and> dget value ''preview_requested'' = PBool True
      \<and> dget value ''publication_binding'' \<noteq> PNone
      \<and> dget value ''apply_invocation_sha256'' = PNone
      \<and> dget value ''runtime_admission_binding'' = PNone
      \<and> dget value ''runtime_layout_bootstrap'' = PNone
      \<and> field intent ''raw_apply_status'' = PNone
      \<and> field intent ''physical_disposition'' = PNone
      \<and> field intent ''runtime_match_status'' = PStr ''not_run''
      \<and> field intent ''runtime_match_sha256'' = PNone
      \<and> dget value ''attempt_acknowledgement'' = PNone
      \<and> field intent ''retained_safe_state'' = PStr ''PUBLISHED_PREVIEW_RUNTIME_UNCHANGED''
      \<and> one_of (field intent ''review_confidence'') [''high'', ''limited''])"

definition success_terminal_ok :: "dict \<Rightarrow> live_phase \<Rightarrow> bool" where
  "success_terminal_ok value p =
     (let intent = dget value ''result_intent'' in
      p = RUNTIME_MATCHED
      \<and> one_of (field intent ''raw_apply_status'')
          (if field intent ''terminal_status'' = PStr ''LIVE_AND_MATCHED'' then [''applied'', ''recovered'']
           else [''already_current''])
      \<and> field intent ''physical_disposition'' = PStr ''COMMITTED''
      \<and> field intent ''runtime_match_status'' = PStr ''matched''
      \<and> field intent ''retained_safe_state'' = PStr ''ACTIVE_RUNTIME_MATCHED''
      \<and> dget value ''attempt_acknowledgement'' \<noteq> PNone
      \<and> dget value ''apply_invocation_sha256'' \<noteq> PNone
      \<and> dget value ''runtime_admission_binding'' \<noteq> PNone
      \<and> dget value ''publication_binding'' \<noteq> PNone)"

definition failure_terminal_ok :: "dict \<Rightarrow> live_phase \<Rightarrow> bool" where
  "failure_terminal_ok value p =
     (let intent = dget value ''result_intent''; invocation = dget value ''apply_invocation_sha256'';
          admission = dget value ''runtime_admission_binding'';
          publication = dget value ''publication_binding'';
          untouched = (invocation = PNone \<and> admission = PNone
            \<and> field intent ''raw_apply_status'' = PNone \<and> field intent ''physical_disposition'' = PNone
            \<and> field intent ''runtime_match_status'' = PStr ''not_run'') in
      if phase_index p \<le> phase_index PREPUBLICATION_CHECK_PASSED then
        untouched \<and> publication = PNone
        \<and> field intent ''retained_safe_state'' = PStr ''NO_PUBLICATION_OR_RUNTIME_WRITE''
      else if p = PUBLICATION_COMMITTED then
        untouched \<and> publication \<noteq> PNone
        \<and> field intent ''retained_safe_state'' = PStr ''PUBLICATION_RETAINED_RUNTIME_UNCHANGED''
      else
        p = APPLY_STARTED \<and> invocation \<noteq> PNone \<and> admission \<noteq> PNone
        \<and> field intent ''physical_disposition'' = PStr ''NOT_COMMITTED''
        \<and> field intent ''runtime_match_status'' = PStr ''not_run''
        \<and> field intent ''retained_safe_state'' = PStr ''PREVIOUS_RUNTIME_UNCHANGED'')"

definition unverified_terminal_ok :: "dict \<Rightarrow> live_phase \<Rightarrow> bool" where
  "unverified_terminal_ok value p =
     (let intent = dget value ''result_intent''; raw_status = field intent ''raw_apply_status'';
          disposition = field intent ''physical_disposition'' in
      ((p = APPLY_COMMITTED
          \<and> one_of raw_status [''applied'', ''already_current'', ''recovered'']
          \<and> disposition = PStr ''COMMITTED''
          \<and> one_of (field intent ''runtime_match_status'') [''mismatch'', ''unknown''])
       \<or> (p \<in> {APPLY_STARTED, APPLY_COMMITTED}
          \<and> (raw_status = PNone \<or> raw_status = PStr ''committed_receipt_pending'')
          \<and> one_of disposition [''COMMITTED_RECOVERY_PENDING'', ''UNKNOWN_REQUIRES_RECOVERY'']))
      \<and> dget value ''apply_invocation_sha256'' \<noteq> PNone
      \<and> dget value ''runtime_admission_binding'' \<noteq> PNone
      \<and> field intent ''retained_safe_state'' = PStr ''ATTEMPT_EVIDENCE_RETAINED'')"

definition terminal_bindings :: "dict \<Rightarrow> live_phase \<Rightarrow> unit res" where
  \<comment> \<open>the result names the session, its publication, its admission and its review\<close>
  "terminal_bindings value p =
     (let intent = dget value ''result_intent''; status = field intent ''terminal_status'';
          terminal_status = dget value ''terminal_status'';
          publication = dget value ''publication_binding'';
          admission = dget value ''runtime_admission_binding'' in
      checks
       [invalid_unless (is_map intent) ''live_start_terminal_intent_invalid'',
        invalid_unless
          (list_all (\<lambda>f. py_eq (field intent f) (dget value f))
             [''run_id'', ''deck_name'', ''candidate_revision''])
          ''live_start_terminal_intent_binding_invalid'',
        invalid_if (terminal_status \<noteq> PNone \<and> \<not> py_eq terminal_status status)
          ''live_start_terminal_status_mismatch'',
        invalid_if (dget value ''apply_recovery'' \<noteq> PNone) ''live_start_terminal_recovery_not_consumed'',
        invalid_unless
          (if publication = PNone then
             field intent ''publication_revision'' = PNone
             \<and> field intent ''publication_content_root_sha256'' = PNone
           else
             py_eq (field intent ''publication_revision'') (field publication ''revision'')
             \<and> py_eq (field intent ''publication_content_root_sha256'')
                 (field publication ''content_root_sha256''))
          ''live_start_terminal_publication_binding_invalid'',
        invalid_unless
          (if admission = PNone then list_all (\<lambda>f. field intent f = PNone) RUNTIME_ADMISSION_INTENT
           else list_all (\<lambda>f. py_eq (field intent (''runtime_'' @ f)) (field admission f))
                  [''admission_path'', ''admission_parent_identity'', ''admission_identity'',
                   ''admission_sha256''])
          ''live_start_terminal_admission_binding_invalid'',
        invalid_if
          ((dget value ''apply_invocation_sha256'' = PNone) \<noteq> (field intent ''apply_attempt_id'' = PNone))
          ''live_start_terminal_attempt_binding_invalid'',
        invalid_if
          (phase_index REVIEW_APPROVED \<le> phase_index p
           \<and> (\<not> one_of (field intent ''review_confidence'') [''high'', ''limited'']
              \<or> field intent ''configured_cards'' = PNone
              \<or> field intent ''deliberately_unconfigured_cards'' = PNone))
          ''live_start_terminal_review_or_coverage_invalid''])"

definition validate_terminal_status_matrix :: "dict \<Rightarrow> live_phase \<Rightarrow> unit res" where
  "validate_terminal_status_matrix value p =
     (let intent = dget value ''result_intent''; status = field intent ''terminal_status'' in
      checks
       [terminal_bindings value p,
        if status = PStr ''PREVIEW_READY'' then
          invalid_unless (preview_terminal_ok value p) ''live_start_preview_terminal_matrix_invalid''
        else if one_of status [''LIVE_AND_MATCHED'', ''ALREADY_LIVE''] then
          checks
           (invalid_unless (success_terminal_ok value p) ''live_start_success_terminal_matrix_invalid''
            # map (\<lambda>key. require_sha256 (field intent key) key)
                [''runtime_match_sha256'', ''package_root_sha256'', ''last_apply_receipt_sha256'',
                 ''runtime_state_sha256'', ''deck_config_ini_sha256''])
        else
          checks
           [invalid_if (dget value ''attempt_acknowledgement'' \<noteq> PNone)
              ''live_start_failure_acknowledgement_forbidden'',
            if status = PStr ''FAILED_PRESERVED'' then
              invalid_unless (failure_terminal_ok value p) ''live_start_failure_terminal_matrix_invalid''
            else if status = PStr ''APPLIED_BUT_NOT_VERIFIED'' then
              invalid_unless (unverified_terminal_ok value p)
                ''live_start_unverified_terminal_matrix_invalid''
            else Inl (SessionValidationError ''live_start_terminal_status_matrix_invalid'')]])"

section \<open>The fields of a session by phase\<close>

definition validate_apply_invocation_outer_matrix :: "dict \<Rightarrow> pyval \<Rightarrow> unit res" where
  "validate_apply_invocation_outer_matrix value pending =
     (let layout = dget value ''runtime_layout_bootstrap''; stage = field pending ''stage'';
          external = field pending ''external_file_action'';
          index = field pending ''next_action_index'' in
      if dget value ''apply_invocation_sha256'' \<noteq> PNone \<or> dget value ''runtime_admission_binding'' \<noteq> PNone then
        Inl (SessionValidationError ''live_start_apply_invocation_outer_binding_invalid'')
      else if one_of stage [''PREPARED'', ''STAGING_BOUND''] then
        invalid_if (layout \<noteq> PNone) ''live_start_runtime_layout_phase_invalid''
      else if stage \<noteq> PStr ''PRIMARY_APPLIED'' then
        Inl (SessionValidationError ''live_start_apply_invocation_outer_binding_invalid'')
      else if layout = PNone then
        invalid_if (external \<noteq> PNone \<or> \<not> py_eq index (PInt 0))
          ''live_start_invocation_receipt_before_layout_invalid''
      else if \<not> py_eq (field layout ''run_id'') (dget value ''run_id'')
              \<or> \<not> py_eq (field layout ''apply_attempt_id'') (field pending ''apply_attempt_id'') then
        Inl (SessionValidationError ''live_start_runtime_layout_outer_binding_invalid'')
      else if field layout ''stage'' = PStr ''INCOMPLETE'' then
        invalid_if (external \<noteq> PNone \<or> \<not> py_eq index (PInt 0))
          ''live_start_invocation_receipt_before_layout_invalid''
      else if field layout ''stage'' \<noteq> PStr ''COMPLETE'' then
        Inl (SessionValidationError ''live_start_runtime_layout_completion_invalid'')
      else if external = PNone then
        invalid_unless (py_eq index (PInt 1)) ''live_start_invocation_receipt_commit_invalid''
      else invalid_unless (py_eq index (PInt 0)) ''live_start_invocation_receipt_cursor_invalid'')"

definition pending_outer_matrix :: "dict \<Rightarrow> live_phase \<Rightarrow> unit res" where
  "pending_outer_matrix value p =
     (let pending = dget value ''pending_transition'';
          prepublication = dget value ''prepublication_work_binding'' in
      when_ok (pending \<noteq> PNone)
       (checks
        [invalid_if
           (\<not> py_eq (field pending ''run_id'') (dget value ''run_id'')
            \<or> field pending ''source_phase'' \<noteq> PStr (phase_text p)
            \<or> \<not> py_eq (field pending ''source_candidate_revision'') (dget value ''candidate_revision'')
            \<or> \<not> py_eq (field pending ''source_revisions_used'') (dget value ''revisions_used''))
           ''live_start_pending_outer_binding_invalid'',
         when_ok (field pending ''operation'' = PStr ''cleanup_prepublication'')
           (invalid_if
             (\<not> is_map prepublication \<or> dhas (items prepublication) ''cleanup_completion''
              \<or> list_ex (\<lambda>f. \<not> py_eq (field pending f) (field prepublication f))
                  PREPUBLICATION_WORK_BINDING_FIELDS)
             ''live_start_prepublication_cleanup_work_binding_invalid''),
         when_ok (field pending ''operation'' = PStr ''install_apply_invocation'')
           (validate_apply_invocation_outer_matrix value pending)]))"

definition phase_fields_matrix :: "dict \<Rightarrow> live_phase \<Rightarrow> unit res" where
  "phase_fields_matrix value p =
     (let bound = (\<lambda>f. dget value f \<noteq> PNone);
          pending = dget value ''pending_transition'';
          before = (\<lambda>q. phase_index p < phase_index q) in
      checks
       [invalid_if
          (before PACKAGE_VALIDATED \<and> p \<noteq> REVIEW_APPROVED \<and> bound ''prepublication_work_binding'')
          ''live_start_prepublication_work_phase_invalid'',
        invalid_if (\<not> before PACKAGE_VALIDATED \<and> \<not> bound ''prepublication_work_binding'')
          ''live_start_prepublication_work_binding_missing'',
        invalid_if
          (p = REVIEW_APPROVED \<and> bound ''prepublication_work_binding'' \<and> pending \<noteq> PNone
           \<and> field pending ''operation'' \<noteq> PStr ''install_package_validation'')
          ''live_start_prepublication_work_phase_invalid'',
        invalid_if
          (before PREPUBLICATION_CHECK_PASSED
           \<and> (bound ''output_operation_admission_binding'' \<or> bound ''output_child_binding''))
          ''live_start_output_binding_phase_invalid'',
        invalid_if (before PUBLICATION_COMMITTED \<and> bound ''publication_binding'')
          ''live_start_publication_binding_phase_invalid'',
        invalid_if
          (\<not> before PUBLICATION_COMMITTED
           \<and> \<not> (bound ''publication_binding'' \<and> bound ''output_operation_admission_binding''
                  \<and> bound ''output_child_binding''))
          ''live_start_output_binding_missing'',
        invalid_if
          (before APPLY_STARTED
           \<and> \<not> (p = PUBLICATION_COMMITTED \<and> is_map pending
                  \<and> field pending ''operation'' = PStr ''install_apply_invocation'')
           \<and> (bound ''apply_invocation_sha256'' \<or> bound ''runtime_admission_binding''
              \<or> bound ''runtime_layout_bootstrap''))
          ''live_start_runtime_binding_phase_invalid'',
        invalid_if
          (before APPLY_STARTED \<and> (bound ''apply_recovery'' \<or> bound ''closed_apply_recovery_commitment''))
          ''live_start_apply_recovery_phase_invalid'',
        invalid_if
          (\<not> before APPLY_STARTED
           \<and> \<not> (bound ''apply_invocation_sha256'' \<and> bound ''runtime_admission_binding''
                  \<and> bound ''runtime_layout_bootstrap''))
          ''live_start_runtime_admission_binding_missing''])"

definition output_bindings_agree :: "dict \<Rightarrow> unit res" where
  "output_bindings_agree value =
     (let run_id = dget value ''run_id'';
          operation = dget value ''output_operation_admission_binding'';
          child = dget value ''output_child_binding'';
          publication = dget value ''publication_binding'';
          admission = dget value ''runtime_admission_binding'';
          layout = dget value ''runtime_layout_bootstrap'';
          same = (\<lambda>v f w g. py_eq (field v f) (field w g)) in
      checks
       [invalid_if (is_map operation \<and> \<not> py_eq (field operation ''run_id'') run_id)
          ''live_start_output_operation_outer_binding_invalid'',
        invalid_if (is_map child \<and> \<not> py_eq (field child ''run_id'') run_id)
          ''live_start_output_child_outer_binding_invalid'',
        invalid_if
          (is_map publication \<and> is_map child
           \<and> \<not> (same publication ''output_child_path'' child ''output_child_path''
                  \<and> same publication ''output_child_identity'' child ''output_child_identity''
                  \<and> same publication ''output_child_binding_sha256'' child ''content_sha256''))
          ''live_start_publication_output_child_binding_invalid'',
        invalid_if (is_map admission \<and> \<not> (is_map operation \<and> is_map child \<and> is_map publication))
          ''live_start_runtime_outer_binding_invalid'',
        invalid_if
          (is_map admission
           \<and> \<not> (same admission ''output_operation_admission_path'' operation ''admission_path''
                  \<and> same admission ''output_operation_admission_identity'' operation ''admission_identity''
                  \<and> same admission ''output_operation_admission_sha256'' operation ''admission_sha256''
                  \<and> same admission ''output_child_binding_sha256'' child ''content_sha256''
                  \<and> same admission ''output_child_path'' child ''output_child_path''
                  \<and> same admission ''output_child_identity'' child ''output_child_identity''
                  \<and> same admission ''publication_revision'' publication ''revision''
                  \<and> same admission ''publication_content_root_sha256'' publication ''content_root_sha256''))
          ''live_start_runtime_outer_binding_invalid'',
        invalid_if (is_map layout \<and> \<not> py_eq (field layout ''run_id'') run_id)
          ''live_start_runtime_layout_outer_binding_invalid''])"

definition recovery_names_session :: "dict \<Rightarrow> pyval \<Rightarrow> bool" where
  \<comment> \<open>the bindings that the open and the closed recovery share\<close>
  "recovery_names_session value recovery =
     (let admission = dget value ''runtime_admission_binding'';
          layout = dget value ''runtime_layout_bootstrap'' in
      py_eq (field recovery ''run_id'') (dget value ''run_id'')
      \<and> py_eq (field recovery ''apply_invocation_sha256'') (dget value ''apply_invocation_sha256'')
      \<and> is_map admission
      \<and> list_all (\<lambda>f. py_eq (field recovery (''runtime_'' @ f)) (field admission f))
          [''admission_path'', ''admission_parent_identity'', ''admission_identity'', ''admission_sha256'']
      \<and> is_map layout
      \<and> list_all (\<lambda>f. py_eq (field recovery f) (field layout f))
          [''apply_attempt_id'', ''runtime_root'', ''runtime_root_identity''])"

definition RECOVERY_PREFIXES :: "(string \<times> string) list" where
  \<comment> \<open>the retained record of a result and the record of the recovery that it repeats\<close>
  "RECOVERY_PREFIXES =
     [(''retained_attempt_record'', ''predecessor_attempt_record''),
      (''retained_journal'', ''predecessor_journal''),
      (''retained_target_owner_journal'', ''predecessor_target_owner_journal'')]"

definition suffixed :: "(string \<times> string) list \<Rightarrow> (string \<times> string) list" where
  "suffixed prefixes =
     [(a @ ''_'' @ suffix, b @ ''_'' @ suffix). (a, b) \<leftarrow> prefixes, suffix \<leftarrow> [''path'', ''identity'', ''sha256'']]"

definition closed_recovery_result :: "pyval \<Rightarrow> pyval \<Rightarrow> bool" where
  \<comment> \<open>the result repeats the closed recovery (\<open>expected_intent_values\<close>)\<close>
  "closed_recovery_result closed intent =
     (list_all (\<lambda>f. py_eq (field intent f) (field closed f))
        [''apply_attempt_id'', ''package_root_sha256'', ''last_apply_receipt_sha256'',
         ''runtime_state_sha256'', ''deck_config_ini_sha256'', ''runtime_match_status'',
         ''runtime_match_sha256'']
      \<and> py_eq (field intent ''physical_disposition'') (field closed ''stable_physical_disposition'')
      \<and> py_eq (field intent ''retained_candidate_identity'')
          (if field closed ''stable_physical_disposition'' = PStr ''NOT_COMMITTED''
           then field closed ''predecessor_candidate_identity'' else PNone)
      \<and> list_all (\<lambda>(f, g). py_eq (field intent f) (field closed g)) (suffixed RECOVERY_PREFIXES))"

definition recovery_matrix :: "dict \<Rightarrow> unit res" where
  "recovery_matrix value =
     (let recovery = dget value ''apply_recovery'';
          closed = dget value ''closed_apply_recovery_commitment'';
          intent = dget value ''result_intent''; retirement = dget value ''terminal_retirement'' in
      checks
       [invalid_if (is_map recovery \<and> \<not> recovery_names_session value recovery)
          ''live_start_apply_recovery_outer_binding_invalid'',
        if closed \<noteq> PNone then
          checks
           [invalid_if
              (\<not> is_map closed \<or> recovery \<noteq> PNone \<or> \<not> is_map intent \<or> retirement \<noteq> PNone
               \<or> field closed ''recovery_stage'' \<noteq> PStr ''CLOSED''
               \<or> \<not> recovery_names_session value closed)
              ''live_start_closed_recovery_commitment_outer_binding_invalid'',
            invalid_unless (closed_recovery_result closed intent)
              ''live_start_closed_recovery_result_binding_invalid'']
        else if recovery \<noteq> PNone \<and> intent \<noteq> PNone then
          Inl (SessionValidationError ''live_start_apply_recovery_result_coexistence_invalid'')
        else
          invalid_if
            (is_map intent \<and> field intent ''apply_attempt_id'' \<noteq> PNone \<and> retirement = PNone)
            ''live_start_closed_recovery_commitment_missing''])"

definition retirement_names_result :: "dict \<Rightarrow> bool" where
  "retirement_names_result value =
     (let intent = dget value ''result_intent''; retirement = dget value ''terminal_retirement'' in
      py_eq (field retirement ''run_id'') (dget value ''run_id'')
      \<and> is_map intent
      \<and> py_eq (field retirement ''result_intent_sha256'') (field intent ''content_sha256'')
      \<and> py_eq (field retirement ''apply_attempt_id'') (field intent ''apply_attempt_id'')
      \<and> list_all (\<lambda>f. py_eq (field retirement f) (field intent f))
          (RUNTIME_ADMISSION_INTENT @ RETAINED_FIELDS @ [''retained_candidate_identity'']))"

definition resolution_names_result :: "dict \<Rightarrow> bool" where
  "resolution_names_result value =
     (let intent = dget value ''result_intent''; retirement = dget value ''terminal_retirement'';
          resolution = field retirement ''terminal_resolution_evidence'' in
      py_eq (field resolution ''run_id'') (dget value ''run_id'')
      \<and> py_eq (field resolution ''apply_attempt_id'') (field retirement ''apply_attempt_id'')
      \<and> py_eq (field resolution ''package_root_sha256'') (field intent ''package_root_sha256'')
      \<and> \<not> (field resolution ''resolved_physical_disposition'' = PStr ''NOT_COMMITTED''
             \<and> \<not> py_eq (field resolution ''predecessor_candidate_identity'')
                    (field retirement ''retained_candidate_identity''))
      \<and> list_all (\<lambda>(f, g). py_eq (field resolution g) (field retirement f)) (suffixed RECOVERY_PREFIXES))"

definition result_matrix :: "dict \<Rightarrow> unit res" where
  "result_matrix value =
     (let run_id = dget value ''run_id''; layout = dget value ''runtime_layout_bootstrap'';
          intent = dget value ''result_intent''; acknowledgement = dget value ''attempt_acknowledgement'';
          retirement = dget value ''terminal_retirement'';
          terminal_status = dget value ''terminal_status'' in
      checks
       [invalid_if
          (is_map intent \<and> field intent ''apply_attempt_id'' \<noteq> PNone
           \<and> (\<not> is_map layout
              \<or> \<not> py_eq (field intent ''apply_attempt_id'') (field layout ''apply_attempt_id'')))
          ''live_start_result_attempt_binding_invalid'',
        invalid_if
          (is_map acknowledgement
           \<and> (\<not> py_eq (field acknowledgement ''run_id'') run_id \<or> \<not> is_map intent
              \<or> \<not> py_eq (field acknowledgement ''apply_attempt_id'') (field intent ''apply_attempt_id'')))
          ''live_start_acknowledgement_outer_binding_invalid'',
        when_ok (is_map retirement)
          (checks
            [invalid_unless
               (terminal_operation_matches_authority (field retirement ''operation'') terminal_status intent
                  acknowledgement (field retirement ''terminal_resolution_evidence'' \<noteq> PNone))
               ''live_start_terminal_retirement_operation_binding_invalid'',
             invalid_unless (retirement_names_result value)
               ''live_start_terminal_retirement_outer_binding_invalid'',
             invalid_if
               (is_map (field retirement ''terminal_resolution_evidence'')
                \<and> \<not> resolution_names_result value)
               ''live_start_terminal_resolution_outer_binding_invalid'']),
        invalid_if (retirement \<noteq> PNone \<and> terminal_status = PNone)
          ''live_start_terminal_retirement_status_missing''])"

definition validate_top_level_phase_field_matrix :: "dict \<Rightarrow> live_phase \<Rightarrow> unit res" where
  "validate_top_level_phase_field_matrix value p =
     checks
      [pending_outer_matrix value p, phase_fields_matrix value p, output_bindings_agree value,
       recovery_matrix value, result_matrix value]"

section \<open>The whole matrix\<close>

definition validate_session_binding_matrix :: "dict \<Rightarrow> live_phase \<Rightarrow> unit res" where
  "validate_session_binding_matrix value p =
     (let admission = dget value ''runtime_admission_binding'';
          layout = dget value ''runtime_layout_bootstrap'';
          intent = dget value ''result_intent'' in
      checks
       [validate_top_level_phase_field_matrix value p,
        invalid_if
          (phase_index PUBLICATION_COMMITTED \<le> phase_index p \<and> dget value ''publication_binding'' = PNone)
          ''live_start_publication_binding_missing'',
        if phase_index APPLY_STARTED \<le> phase_index p then
          checks
           [invalid_if
              (admission = PNone \<or> layout = PNone \<or> dget value ''apply_invocation_sha256'' = PNone)
              ''live_start_runtime_admission_binding_missing'',
            invalid_unless (field layout ''stage'' = PStr ''COMPLETE'') ''live_start_runtime_layout_incomplete'']
        else
          invalid_if (admission \<noteq> PNone \<and> dget value ''pending_transition'' = PNone)
            ''live_start_runtime_admission_phase_invalid'',
        invalid_if
          (dget value ''attempt_acknowledgement'' \<noteq> PNone
           \<and> (\<not> is_map intent
              \<or> \<not> one_of (field intent ''terminal_status'') [''LIVE_AND_MATCHED'', ''ALREADY_LIVE'']))
          ''live_start_acknowledgement_status_invalid'',
        invalid_if (dget value ''terminal_status'' \<noteq> PNone \<and> intent = PNone)
          ''live_start_terminal_result_intent_missing'',
        invalid_if (dget value ''terminal_status'' \<noteq> PNone \<and> dget value ''pending_transition'' \<noteq> PNone)
          ''live_start_terminal_pending_transition_invalid'',
        when_ok (intent \<noteq> PNone) (validate_terminal_status_matrix value p)])"

definition EMBEDDED_DOCUMENTS :: "string list" where
  "EMBEDDED_DOCUMENTS =
     [''pending_transition'', ''output_operation_admission_binding'', ''output_child_binding'',
      ''runtime_layout_bootstrap'', ''result_intent'', ''attempt_acknowledgement'', ''terminal_retirement'']"

definition forget :: "'a res \<Rightarrow> unit res" where
  \<comment> \<open>a validator that is called for its exceptions only\<close>
  "forget r = rbind r (\<lambda>_. Inr ())"

definition validate_session_nested_documents :: "session_env \<Rightarrow> dict \<Rightarrow> live_phase \<Rightarrow> unit res" where
  "validate_session_nested_documents env value p =
     (let pending = dget value ''pending_transition'';
          quality = py_eq (dget value ''schema_version'') (PInt 2);
          work = dget value ''prepublication_work_binding'';
          admission = dget value ''runtime_admission_binding'';
          publication = dget value ''publication_binding'';
          closed = dget value ''closed_apply_recovery_commitment'' in
      checks
       ([invalid_if (is_map pending \<and> one_of (field pending ''operation'') QUALITY_OPERATIONS \<and> \<not> quality)
           ''live_start_quality_operation_version_invalid'',
         when_ok (is_map pending \<and> field pending ''successor_artifact_bindings'' \<noteq> PNone)
           (validate_artifact_bindings (field pending ''successor_artifact_bindings'') quality
             (p = DISCOVERY_REQUIRED))]
        @ map (\<lambda>name. when_ok (dget value name \<noteq> PNone)
             (forget (validate_document env name (dget value name)))) EMBEDDED_DOCUMENTS
        @ [when_ok (work \<noteq> PNone)
             (checks
               [invalid_unless
                  (is_map work
                   \<and> (same_keys (items work) PREPUBLICATION_WORK_BINDING_FIELDS
                      \<or> same_keys (items work) (PREPUBLICATION_WORK_BINDING_FIELDS @ [''cleanup_completion''])))
                  ''live_start_prepublication_work_binding_fields_invalid'',
                validate_prepublication_work_binding env (items work),
                invalid_if
                  (dhas (items work) ''cleanup_completion''
                   \<and> phase_index p < phase_index PUBLICATION_COMMITTED)
                  ''live_start_cleanup_completion_phase_invalid'']),
           when_ok (admission \<noteq> PNone)
             (checks
               [invalid_unless (is_map admission \<and> same_keys (items admission) RUNTIME_ADMISSION_BINDING_FIELDS)
                  ''live_start_runtime_admission_binding_fields_invalid'',
                validate_runtime_admission_binding env (items admission)]),
           when_ok (publication \<noteq> PNone)
             (checks
               [invalid_unless (is_map publication \<and> same_keys (items publication) PUBLICATION_BINDING_FIELDS)
                  ''live_start_publication_binding_fields_invalid'',
                validate_publication_binding env (items publication)]),
           when_ok (dget value ''apply_invocation_sha256'' \<noteq> PNone)
             (require_sha256 (dget value ''apply_invocation_sha256'') ''apply_invocation_sha256''),
           when_ok (dget value ''apply_recovery'' \<noteq> PNone)
             (forget (validate_recovery env (dget value ''apply_recovery''))),
           when_ok (closed \<noteq> PNone)
             (rbind (validate_recovery env closed) (\<lambda>v.
               invalid_unless (field v ''recovery_stage'' = PStr ''CLOSED'')
                 ''live_start_closed_recovery_commitment_stage_invalid'')),
           validate_session_binding_matrix value p]))"

definition session_checks :: "session_env \<Rightarrow> dict \<Rightarrow> live_phase \<Rightarrow> unit res" where
  \<comment> \<open>the checks of \<open>_load_session_bytes\<close> over the nested documents\<close>
  "session_checks env value p =
     (let quality = py_eq (dget value ''schema_version'') (PInt 2);
          discovery = (quality \<and> dget value ''phase'' = PStr ''DISCOVERY_REQUIRED'') in
      checks
       [validate_artifact_bindings (dget value ''artifact_bindings'') quality discovery,
        when_ok quality (validate_quality_research_binding value),
        validate_session_nested_documents env value p,
        validate_phase_artifact_bindings value p])"

end
