(* ===== verification/SessionLifecycle.thy ===== *)
theory SessionLifecycle
  imports SessionProgress SessionMatrix
begin

text \<open>
  What an accepted live-start session promises: the artifacts and bindings of its phase, that
  an open recovery excludes a result, and that a session reports a success, a preview or a
  harmless failure only with the evidence for it. An accepted session is one that
  \<open>load_session\<close> returns when the nested checks are those of theory \<open>SessionMatrix\<close>; every
  successor of an update is one.
\<close>

section \<open>The parts of an accepted session\<close>

lemma checks_append_Inr [simp]: "checks (cs @ ds) = Inr u \<longleftrightarrow> checks cs = Inr () \<and> checks ds = Inr ()"
  by (auto simp: checks_Inr_iff)

lemma load_session_nested:
  assumes "load_session env ok value = Inr t"
  shows "ok value (phase t) = Inr ()" and "session_value t = value"
    and "dget value ''phase'' = PStr (phase_text (phase t))"
  using assms by (auto simp: load_session_def Let_def)

lemma accepted_parts:
  assumes "load_session env (session_checks env) value = Inr t"
  shows "validate_artifact_bindings (dget value ''artifact_bindings'')
      (py_eq (dget value ''schema_version'') (PInt 2))
      (py_eq (dget value ''schema_version'') (PInt 2) \<and> phase t = DISCOVERY_REQUIRED) = Inr ()"
    and "validate_session_nested_documents env value (phase t) = Inr ()"
    and "validate_phase_artifact_bindings value (phase t) = Inr ()"
proof -
  have "dget value ''phase'' = PStr ''DISCOVERY_REQUIRED'' \<longleftrightarrow> phase t = DISCOVERY_REQUIRED"
    using load_session_nested(3) [OF assms] by (cases "phase t") simp_all
  then show "validate_artifact_bindings (dget value ''artifact_bindings'')
      (py_eq (dget value ''schema_version'') (PInt 2))
      (py_eq (dget value ''schema_version'') (PInt 2) \<and> phase t = DISCOVERY_REQUIRED) = Inr ()"
    and "validate_session_nested_documents env value (phase t) = Inr ()"
    and "validate_phase_artifact_bindings value (phase t) = Inr ()"
    using load_session_nested(1) [OF assms] by (auto simp: session_checks_def Let_def)
qed

lemma accepted_matrix:
  assumes "load_session env (session_checks env) value = Inr t"
  shows "validate_session_binding_matrix value (phase t) = Inr ()"
  using accepted_parts(2) [OF assms] by (simp add: validate_session_nested_documents_def Let_def)

lemma accepted_fields:
  assumes "load_session env (session_checks env) value = Inr t"
  shows "phase_fields_matrix value (phase t) = Inr ()" and "output_bindings_agree value = Inr ()"
    and "recovery_matrix value = Inr ()" and "result_matrix value = Inr ()"
    and "pending_outer_matrix value (phase t) = Inr ()"
  using accepted_matrix [OF assms]
  by (simp_all add: validate_session_binding_matrix_def validate_top_level_phase_field_matrix_def Let_def)

lemma accepted_terminal:
  assumes "load_session env (session_checks env) value = Inr t"
    and "dget value ''terminal_status'' = PStr status"
  shows "is_map (dget value ''result_intent'')" and "dget value ''pending_transition'' = PNone"
    and "field (dget value ''result_intent'') ''terminal_status'' = PStr status"
    and "validate_terminal_status_matrix value (phase t) = Inr ()"
    and "terminal_bindings value (phase t) = Inr ()"
proof -
  have "dget value ''result_intent'' \<noteq> PNone" and "dget value ''pending_transition'' = PNone"
    and m: "validate_terminal_status_matrix value (phase t) = Inr ()"
    using accepted_matrix [OF assms(1)] assms(2)
    by (auto simp: validate_session_binding_matrix_def Let_def)
  then show "dget value ''pending_transition'' = PNone" and "validate_terminal_status_matrix value (phase t) = Inr ()"
    by blast+
  from m show b: "terminal_bindings value (phase t) = Inr ()"
    by (simp add: validate_terminal_status_matrix_def Let_def)
  then show "is_map (dget value ''result_intent'')"
    by (simp add: terminal_bindings_def Let_def)
  from b assms(2) show "field (dget value ''result_intent'') ''terminal_status'' = PStr status"
    by (auto simp: terminal_bindings_def Let_def)
qed

lemma phase_fields_parts:
  assumes "phase_fields_matrix value p = Inr ()"
  shows "phase_index p < phase_index PUBLICATION_COMMITTED \<Longrightarrow> dget value ''publication_binding'' = PNone"
    and "phase_index PUBLICATION_COMMITTED \<le> phase_index p \<Longrightarrow>
      dget value ''publication_binding'' \<noteq> PNone \<and> dget value ''output_child_binding'' \<noteq> PNone
      \<and> dget value ''output_operation_admission_binding'' \<noteq> PNone"
    and "phase_index APPLY_STARTED \<le> phase_index p \<Longrightarrow>
      dget value ''apply_invocation_sha256'' \<noteq> PNone \<and> dget value ''runtime_admission_binding'' \<noteq> PNone"
    and "phase_index p < phase_index APPLY_STARTED \<Longrightarrow>
      dget value ''apply_recovery'' = PNone \<and> dget value ''closed_apply_recovery_commitment'' = PNone"
  using assms by (simp_all add: phase_fields_matrix_def Let_def)

section \<open>Phases and bindings\<close>

text \<open>
  C16. An accepted session has what its phase promises. After the discovery every mandatory
  artifact of the phase is bound to a digest. The publication is bound exactly from its commit on,
  and from then on the output operation and the output child are bound too. From the start of the
  apply on the invocation, the runtime admission and a complete runtime layout are bound (a
  pending apply may bind them before); before it there is no recovery of an apply.
\<close>
theorem accepted_session_bindings:
  assumes "load_session env (session_checks env) value = Inr t" and "phase t \<noteq> DISCOVERY_REQUIRED"
  shows "(\<forall>a \<in> set (mandatory_artifacts value (phase t)). dhas (items (dget value ''artifact_bindings'')) a)
    \<and> (dget value ''publication_binding'' \<noteq> PNone
         \<longleftrightarrow> phase_index PUBLICATION_COMMITTED \<le> phase_index (phase t))
    \<and> (phase_index PUBLICATION_COMMITTED \<le> phase_index (phase t) \<longrightarrow>
         dget value ''output_operation_admission_binding'' \<noteq> PNone \<and> dget value ''output_child_binding'' \<noteq> PNone)
    \<and> (phase_index APPLY_STARTED \<le> phase_index (phase t) \<longrightarrow>
         dget value ''apply_invocation_sha256'' \<noteq> PNone \<and> dget value ''runtime_admission_binding'' \<noteq> PNone
         \<and> field (dget value ''runtime_layout_bootstrap'') ''stage'' = PStr ''COMPLETE'')
    \<and> (phase_index (phase t) < phase_index APPLY_STARTED \<longrightarrow>
         dget value ''apply_recovery'' = PNone \<and> dget value ''closed_apply_recovery_commitment'' = PNone)"
proof -
  have "\<forall>a \<in> set (mandatory_artifacts value (phase t)). dhas (items (dget value ''artifact_bindings'')) a"
    using accepted_parts(3) [OF assms(1)] assms(2)
    by (simp add: validate_phase_artifact_bindings_def Let_def list_all_iff dhas_dkeys)
  moreover have "phase_index APPLY_STARTED \<le> phase_index (phase t) \<longrightarrow>
      field (dget value ''runtime_layout_bootstrap'') ''stage'' = PStr ''COMPLETE''"
    using accepted_matrix [OF assms(1)]
    by (auto simp: validate_session_binding_matrix_def Let_def split: if_splits)
  moreover note f = phase_fields_parts [OF accepted_fields(1) [OF assms(1)]]
  ultimately show ?thesis using f(2,3,4) not_less by (metis f(1))
qed

section \<open>Recovery and result\<close>

text \<open>
  C17. The recovery of an apply and its result exclude each other: while an apply recovery is
  open the accepted session has no result, no acknowledgement, no terminal status and no closed
  recovery. The recovery, open or closed, names the session itself: its run, its invocation,
  and the runtime admission that the session holds.
\<close>
theorem accepted_session_recovery:
  assumes "load_session env (session_checks env) value = Inr t"
  shows "(dget value ''apply_recovery'' \<noteq> PNone \<longrightarrow>
        dget value ''result_intent'' = PNone \<and> dget value ''terminal_status'' = PNone
        \<and> dget value ''attempt_acknowledgement'' = PNone
        \<and> dget value ''closed_apply_recovery_commitment'' = PNone)
    \<and> (\<forall>recovery \<in> {dget value ''apply_recovery'', dget value ''closed_apply_recovery_commitment''}.
        is_map recovery \<longrightarrow> recovery_names_session value recovery)"
proof -
  note rec = accepted_fields(3) [OF assms, unfolded recovery_matrix_def Let_def]
  have no_result: "dget value ''result_intent'' = PNone \<and> dget value ''closed_apply_recovery_commitment'' = PNone"
    if "dget value ''apply_recovery'' \<noteq> PNone"
    using rec that by (auto split: if_splits)
  have "dget value ''terminal_status'' = PNone \<and> dget value ''attempt_acknowledgement'' = PNone"
    if "dget value ''result_intent'' = PNone"
    using accepted_matrix [OF assms] that
    by (auto simp: validate_session_binding_matrix_def Let_def)
  with no_result rec show ?thesis by (auto split: if_splits)
qed

section \<open>The status of a finished session\<close>

text \<open>
  C18. A session that reports \<open>LIVE_AND_MATCHED\<close> or \<open>ALREADY_LIVE\<close> is live and matched as far
  as its evidence goes: it is in the phase \<open>RUNTIME_MATCHED\<close>, has no pending transition and no
  open recovery, holds the acknowledgement, the invocation, the runtime admission and the
  publication, its result is the one of this run, and the result records a committed disposition,
  a matched runtime and the digest of the match.
\<close>
theorem success_status_is_earned:
  assumes "load_session env (session_checks env) value = Inr t"
    and "dget value ''terminal_status'' \<in> {PStr ''LIVE_AND_MATCHED'', PStr ''ALREADY_LIVE''}"
  shows "phase t = RUNTIME_MATCHED \<and> dget value ''pending_transition'' = PNone
    \<and> dget value ''apply_recovery'' = PNone \<and> dget value ''attempt_acknowledgement'' \<noteq> PNone
    \<and> dget value ''apply_invocation_sha256'' \<noteq> PNone
    \<and> dget value ''runtime_admission_binding'' \<noteq> PNone \<and> dget value ''publication_binding'' \<noteq> PNone
    \<and> py_eq (field (dget value ''result_intent'') ''run_id'') (dget value ''run_id'')
    \<and> field (dget value ''result_intent'') ''physical_disposition'' = PStr ''COMMITTED''
    \<and> field (dget value ''result_intent'') ''runtime_match_status'' = PStr ''matched''
    \<and> is_sha256_text (field (dget value ''result_intent'') ''runtime_match_sha256'')"
proof -
  obtain status where st: "dget value ''terminal_status'' = PStr status"
    "status = ''LIVE_AND_MATCHED'' \<or> status = ''ALREADY_LIVE''"
    using assms(2) by auto
  note parts = accepted_terminal [OF assms(1) st(1)]
  have ok: "success_terminal_ok value (phase t)"
    "is_sha256_text (field (dget value ''result_intent'') ''runtime_match_sha256'')"
    using parts(3,4) st(2)
    by (auto simp: validate_terminal_status_matrix_def Let_def one_of_def require_sha256_def)
  moreover have "py_eq (field (dget value ''result_intent'') ''run_id'') (dget value ''run_id'')"
    "dget value ''apply_recovery'' = PNone"
    using parts(5) by (simp_all add: terminal_bindings_def Let_def)
  ultimately show ?thesis using parts(2) by (simp add: success_terminal_ok_def Let_def)
qed

text \<open>
  C19. A preview, and a failure before the start of the apply, leave no trace of a runtime
  write: the accepted session has no invocation, no runtime admission, no pending transition and
  no recovery, and its result has neither an apply status nor a physical disposition. A preview
  is reported only when a preview was requested, with its publication committed.
\<close>
theorem harmless_status_leaves_runtime:
  assumes "load_session env (session_checks env) value = Inr t"
    and "dget value ''terminal_status'' = PStr ''PREVIEW_READY''
      \<or> dget value ''terminal_status'' = PStr ''FAILED_PRESERVED''
        \<and> phase_index (phase t) < phase_index APPLY_STARTED"
  shows "dget value ''apply_invocation_sha256'' = PNone \<and> dget value ''runtime_admission_binding'' = PNone
    \<and> dget value ''pending_transition'' = PNone \<and> dget value ''apply_recovery'' = PNone
    \<and> field (dget value ''result_intent'') ''raw_apply_status'' = PNone
    \<and> field (dget value ''result_intent'') ''physical_disposition'' = PNone
    \<and> (dget value ''terminal_status'' = PStr ''PREVIEW_READY'' \<longrightarrow>
         dget value ''preview_requested'' = PBool True \<and> phase t = PUBLICATION_COMMITTED)"
proof -
  obtain status where st: "dget value ''terminal_status'' = PStr status"
    using assms(2) by auto
  note parts = accepted_terminal [OF assms(1) st]
  have rec: "dget value ''apply_recovery'' = PNone"
    using parts(5) by (simp add: terminal_bindings_def Let_def)
  consider "status = ''PREVIEW_READY''" | "status = ''FAILED_PRESERVED''" "phase_index (phase t) < 8"
    using assms(2) st by auto
  then show ?thesis
  proof cases
    case 1
    with parts(3,4) have "preview_terminal_ok value (phase t)"
      by (simp add: validate_terminal_status_matrix_def Let_def)
    with rec parts(2) show ?thesis by (simp add: preview_terminal_ok_def Let_def)
  next
    case 2
    with parts(3,4) have "failure_terminal_ok value (phase t)"
      by (simp add: validate_terminal_status_matrix_def Let_def one_of_def)
    moreover have "phase t \<noteq> APPLY_STARTED" using 2(2) by auto
    ultimately show ?thesis
      using rec parts(2) st 2(1) by (auto simp: failure_terminal_ok_def Let_def split: if_splits)
  qed
qed

text \<open>
  C20. The evidence of a finished session authorises at most one way to retire it: if two
  terminal operations both match the same status, result and acknowledgement, they are equal
  unless the two calls disagree about a terminal resolution; and without a resolution a
  session that is not verified is retired only after a committed mismatch.
\<close>
theorem retirement_operation_unique:
  assumes "terminal_operation_matches_authority op1 status intent ack r1"
    and "terminal_operation_matches_authority op2 status intent ack r2"
  shows "(r1 = r2 \<longrightarrow> op1 = op2)
    \<and> (r1 \<longleftrightarrow> op1 = PStr ''release_resolved_terminal'')
    \<and> (status = PStr ''APPLIED_BUT_NOT_VERIFIED'' \<and> \<not> r1 \<longrightarrow>
         op1 = PStr ''release_committed_mismatch'' \<and> field intent ''runtime_match_status'' = PStr ''mismatch'')"
  using assms unfolding terminal_operation_matches_authority_def Let_def
  by (auto simp: one_of_def split: if_splits)

section \<open>A finished session\<close>

definition demo_identity :: pyval where
  "demo_identity = PList [PInt 1, PInt 2, PInt 3]"

definition demo_sha :: pyval where
  "demo_sha = PStr demo_digest"

definition demo_revision :: pyval where
  "demo_revision = PStr (''revisions/sha256-'' @ replicate 64 CHR ''0'')"

definition demo_run_id :: pyval where
  "demo_run_id = PStr (replicate 32 CHR ''a'')"

definition demo_work :: pyval where
  "demo_work = PDict
       [(''work_parent_path'', PStr ''/work''), (''work_parent_identity'', demo_identity),
        (''work_root'', PStr ''/work/root''), (''work_root_identity'', demo_identity),
        (''work_tree_sha256'', demo_sha), (''cleanup_manifest_sha256'', demo_sha),
        (''cleanup_entry_count'', PInt 5)]"

definition demo_operation :: pyval where
  "demo_operation = PDict
       [(''run_id'', demo_run_id), (''admission_path'', PStr ''/op''), (''admission_identity'', demo_identity),
        (''admission_sha256'', demo_sha)]"

definition demo_child :: pyval where
  "demo_child = PDict
       [(''run_id'', demo_run_id), (''output_child_path'', PStr ''/out''),
        (''output_child_identity'', demo_identity), (''content_sha256'', demo_sha)]"

definition demo_publication :: pyval where
  "demo_publication = PDict
       [(''output_child_path'', PStr ''/out''), (''output_child_identity'', demo_identity),
        (''output_child_binding_sha256'', demo_sha), (''revision'', demo_revision),
        (''content_root_sha256'', demo_sha), (''prior_current_identity'', PNone)]"

definition demo_admission :: pyval where
  "demo_admission = PDict
       [(''admission_path'', PStr ''/adm''), (''admission_parent_identity'', demo_identity),
        (''admission_identity'', demo_identity), (''admission_sha256'', demo_sha),
        (''output_operation_admission_path'', PStr ''/op''),
        (''output_operation_admission_identity'', demo_identity),
        (''output_operation_admission_sha256'', demo_sha), (''output_child_binding_sha256'', demo_sha),
        (''output_child_path'', PStr ''/out''), (''output_child_identity'', demo_identity),
        (''publication_revision'', demo_revision), (''publication_content_root_sha256'', demo_sha)]"

definition demo_layout :: pyval where
  "demo_layout = PDict
       [(''run_id'', demo_run_id), (''stage'', PStr ''COMPLETE''), (''apply_attempt_id'', PStr ''attempt''),
        (''runtime_root'', PStr ''/rt''), (''runtime_root_identity'', demo_identity)]"

definition demo_closed :: pyval where
  "demo_closed = PDict
       [(''recovery_stage'', PStr ''CLOSED''), (''run_id'', demo_run_id),
        (''apply_invocation_sha256'', demo_sha), (''apply_attempt_id'', PStr ''attempt''),
        (''runtime_root'', PStr ''/rt''), (''runtime_root_identity'', demo_identity),
        (''runtime_admission_path'', PStr ''/adm''), (''runtime_admission_parent_identity'', demo_identity),
        (''runtime_admission_identity'', demo_identity), (''runtime_admission_sha256'', demo_sha),
        (''package_root_sha256'', demo_sha), (''last_apply_receipt_sha256'', demo_sha),
        (''runtime_state_sha256'', demo_sha), (''deck_config_ini_sha256'', demo_sha),
        (''runtime_match_status'', PStr ''matched''), (''runtime_match_sha256'', demo_sha),
        (''stable_physical_disposition'', PStr ''COMMITTED'')]"

definition demo_acknowledgement :: pyval where
  "demo_acknowledgement = PDict
       [(''run_id'', demo_run_id), (''apply_attempt_id'', PStr ''attempt'')]"

definition demo_result :: dict where
  "demo_result =
    [(''run_id'', demo_run_id), (''deck_name'', PStr ''ShadowPriest''), (''candidate_revision'', PInt 1),
     (''publication_revision'', demo_revision), (''publication_content_root_sha256'', demo_sha),
     (''review_confidence'', PStr ''high''), (''configured_cards'', PInt 30),
     (''deliberately_unconfigured_cards'', PInt 0)]"

definition demo_live_result :: dict where
  "demo_live_result = demo_result @
    [(''terminal_status'', PStr ''LIVE_AND_MATCHED''), (''raw_apply_status'', PStr ''applied''),
     (''physical_disposition'', PStr ''COMMITTED''), (''runtime_match_status'', PStr ''matched''),
     (''retained_safe_state'', PStr ''ACTIVE_RUNTIME_MATCHED''), (''apply_attempt_id'', PStr ''attempt''),
     (''runtime_admission_path'', PStr ''/adm''), (''runtime_admission_parent_identity'', demo_identity),
     (''runtime_admission_identity'', demo_identity), (''runtime_admission_sha256'', demo_sha),
     (''package_root_sha256'', demo_sha), (''last_apply_receipt_sha256'', demo_sha),
     (''runtime_state_sha256'', demo_sha), (''deck_config_ini_sha256'', demo_sha),
     (''runtime_match_sha256'', demo_sha)]"

definition demo_failed_result :: dict where
  "demo_failed_result =
    [(''run_id'', demo_run_id), (''deck_name'', PStr ''ShadowPriest''), (''candidate_revision'', PInt 1),
     (''terminal_status'', PStr ''FAILED_PRESERVED''), (''runtime_match_status'', PStr ''not_run''),
     (''retained_safe_state'', PStr ''NO_PUBLICATION_OR_RUNTIME_WRITE'')]"

definition demo_artifacts :: "live_phase \<Rightarrow> pyval" where
  "demo_artifacts p = PDict (map (\<lambda>a. (a, demo_sha)) (dget_or PHASE_MANDATORY_ARTIFACTS p [] @ RESULT_PATHS))"

definition demo_live_value :: dict where
  "demo_live_value =
    [(''schema_version'', PInt 1), (''run_id'', demo_run_id), (''deck_name'', PStr ''ShadowPriest''),
     (''deck_code_sha256'', demo_sha), (''preview_requested'', PBool False),
     (''phase'', PStr ''RUNTIME_MATCHED''), (''candidate_revision'', PInt 1), (''revisions_used'', PInt 0),
     (''input_snapshot_manifest_sha256'', demo_sha), (''artifact_bindings'', demo_artifacts RUNTIME_MATCHED),
     (''pending_transition'', PNone), (''prepublication_work_binding'', demo_work),
     (''output_operation_admission_binding'', demo_operation), (''output_child_binding'', demo_child),
     (''publication_binding'', demo_publication), (''apply_invocation_sha256'', demo_sha),
     (''runtime_admission_binding'', demo_admission), (''runtime_layout_bootstrap'', demo_layout),
     (''apply_recovery'', PNone), (''closed_apply_recovery_commitment'', demo_closed),
     (''result_intent'', PDict demo_live_result), (''attempt_acknowledgement'', demo_acknowledgement),
     (''terminal_retirement'', PNone), (''terminal_status'', PStr ''LIVE_AND_MATCHED''),
     (''content_sha256'', demo_sha)]"

definition demo_failed_value :: dict where
  "demo_failed_value =
    [(''schema_version'', PInt 1), (''run_id'', demo_run_id), (''deck_name'', PStr ''ShadowPriest''),
     (''deck_code_sha256'', demo_sha), (''preview_requested'', PBool False),
     (''phase'', PStr ''CANDIDATE_DRAFTED''), (''candidate_revision'', PInt 1), (''revisions_used'', PInt 0),
     (''input_snapshot_manifest_sha256'', demo_sha), (''artifact_bindings'', demo_artifacts CANDIDATE_DRAFTED),
     (''pending_transition'', PNone), (''prepublication_work_binding'', PNone),
     (''output_operation_admission_binding'', PNone), (''output_child_binding'', PNone),
     (''publication_binding'', PNone), (''apply_invocation_sha256'', PNone),
     (''runtime_admission_binding'', PNone), (''runtime_layout_bootstrap'', PNone),
     (''apply_recovery'', PNone), (''closed_apply_recovery_commitment'', PNone),
     (''result_intent'', PDict demo_failed_result), (''attempt_acknowledgement'', PNone),
     (''terminal_retirement'', PNone), (''terminal_status'', PStr ''FAILED_PRESERVED''),
     (''content_sha256'', demo_sha)]"

lemma load_session_accept:
  assumes "load_session env (\<lambda>v p. Inr ()) value = Inr t" and "ok value (phase t) = Inr ()"
  shows "load_session env ok value = Inr t"
  using assms by (auto simp: load_session_def Let_def)

lemma load_accepted:
  assumes "case load_session env (\<lambda>v p. Inr ()) value of Inr t \<Rightarrow> phase t = p | Inl e \<Rightarrow> False"
    and "session_checks env value p = Inr ()"
  shows "\<exists>t. load_session env (session_checks env) value = Inr t \<and> phase t = p"
proof (cases "load_session env (\<lambda>v p. Inr ()) value")
  case (Inr t)
  with assms(1) have "phase t = p" by simp
  with load_session_accept [OF Inr, of "session_checks env"] assms(2) show ?thesis by auto
qed (use assms(1) in simp)

lemma session_checks_accept:
  assumes "dget value ''schema_version'' = PInt 1"
    and "validate_artifact_bindings (dget value ''artifact_bindings'') False False = Inr ()"
    and "validate_session_nested_documents env value p = Inr ()"
    and "validate_phase_artifact_bindings value p = Inr ()"
  shows "session_checks env value p = Inr ()"
  using assms by (simp add: session_checks_def Let_def)

lemma demo_live_accepted:
  "\<exists>t. load_session demo_env (session_checks demo_env) demo_live_value = Inr t \<and> phase t = RUNTIME_MATCHED"
proof -
  have "case load_session demo_env (\<lambda>v p. Inr ()) demo_live_value of
      Inr t \<Rightarrow> phase t = RUNTIME_MATCHED | Inl e \<Rightarrow> False"
    by code_simp
  moreover have "session_checks demo_env demo_live_value RUNTIME_MATCHED = Inr ()"
  proof (rule session_checks_accept)
    show "dget demo_live_value ''schema_version'' = PInt 1" by code_simp
    show "validate_artifact_bindings (dget demo_live_value ''artifact_bindings'') False False = Inr ()"
      by code_simp
    show "validate_session_nested_documents demo_env demo_live_value RUNTIME_MATCHED = Inr ()"
      by code_simp
    show "validate_phase_artifact_bindings demo_live_value RUNTIME_MATCHED = Inr ()" by code_simp
  qed
  ultimately show ?thesis by (rule load_accepted)
qed

lemma demo_failed_accepted:
  "\<exists>t. load_session demo_env (session_checks demo_env) demo_failed_value = Inr t \<and> phase t = CANDIDATE_DRAFTED"
proof -
  have "case load_session demo_env (\<lambda>v p. Inr ()) demo_failed_value of
      Inr t \<Rightarrow> phase t = CANDIDATE_DRAFTED | Inl e \<Rightarrow> False"
    by code_simp
  moreover have "session_checks demo_env demo_failed_value CANDIDATE_DRAFTED = Inr ()"
    by code_simp
  ultimately show ?thesis by (rule load_accepted)
qed

theorem accepted_session_bindings_witness:
  "field (dget demo_live_value ''runtime_layout_bootstrap'') ''stage'' = PStr ''COMPLETE''"
proof -
  obtain t where t: "load_session demo_env (session_checks demo_env) demo_live_value = Inr t"
    "phase t = RUNTIME_MATCHED"
    using demo_live_accepted by blast
  then have "phase t \<noteq> DISCOVERY_REQUIRED" by simp
  from accepted_session_bindings [OF t(1) this] t(2) show ?thesis by simp
qed

theorem accepted_session_recovery_witness:
  "recovery_names_session demo_live_value (dget demo_live_value ''closed_apply_recovery_commitment'')"
proof -
  obtain t where t: "load_session demo_env (session_checks demo_env) demo_live_value = Inr t"
    using demo_live_accepted by blast
  have "is_map (dget demo_live_value ''closed_apply_recovery_commitment'')" by code_simp
  with accepted_session_recovery [OF t] show ?thesis by blast
qed

theorem success_status_is_earned_witness:
  "is_sha256_text (field (dget demo_live_value ''result_intent'') ''runtime_match_sha256'')"
proof -
  obtain t where t: "load_session demo_env (session_checks demo_env) demo_live_value = Inr t"
    using demo_live_accepted by blast
  have "dget demo_live_value ''terminal_status'' = PStr ''LIVE_AND_MATCHED''" by code_simp
  with success_status_is_earned [OF t] show ?thesis by blast
qed

theorem harmless_status_leaves_runtime_witness:
  "field (dget demo_failed_value ''result_intent'') ''physical_disposition'' = PNone
     \<and> dget demo_failed_value ''apply_invocation_sha256'' = PNone"
proof -
  obtain t where t: "load_session demo_env (session_checks demo_env) demo_failed_value = Inr t"
    "phase t = CANDIDATE_DRAFTED"
    using demo_failed_accepted by blast
  have "dget demo_failed_value ''terminal_status'' = PStr ''FAILED_PRESERVED''" by code_simp
  with harmless_status_leaves_runtime [OF t(1)] t(2) show ?thesis by simp
qed

theorem retirement_operation_unique_witness:
  "\<forall>op. PStr ''ack_success'' = op \<longleftrightarrow>
     terminal_operation_matches_authority op (PStr ''LIVE_AND_MATCHED'') (PDict demo_live_result)
       (PDict []) False"
proof -
  have "terminal_operation_matches_authority (PStr ''ack_success'') (PStr ''LIVE_AND_MATCHED'')
      (PDict demo_live_result) (PDict []) False"
    by code_simp
  with retirement_operation_unique [OF this] show ?thesis by blast
qed

end
