(* ===== verification/JsonCodec.thy ===== *)
theory JsonCodec
  imports PyText
begin

text \<open>
  The part of Python's \<open>json\<close> module and of UTF-8 that the program uses:
  \<open>json.dumps(value, ensure_ascii=False, indent=2, sort_keys=True)\<close>, and \<open>json.loads\<close> with a hook
  that refuses duplicate keys (\<open>_unique_json_object\<close> and its namesakes). A number with a fraction
  or an exponent and a code point above 255 are outside the model and make \<open>json_loads\<close> raise.
  The last sections state the contract of a codec as a locale, which the model provides.
\<close>

section \<open>UTF-8 on the code points of the model\<close>

definition utf8_char :: "char \<Rightarrow> string" where
  "utf8_char c = (let n = code c in
     if n < 128 then [c] else [char_of (192 + n div 64), char_of (128 + n mod 64)])"

definition utf8_encode :: "string \<Rightarrow> string" where
  "utf8_encode s = concat (map utf8_char s)"

fun utf8_decode :: "string \<Rightarrow> string res" where
  \<comment> \<open>bytes to text\<close>
  "utf8_decode [] = Inr []"
| "utf8_decode (b # bs) =
     (if code b < 128 then rbind (utf8_decode bs) (\<lambda>s. Inr (b # s))
      else if code b = 194 \<or> code b = 195 then
        (case bs of
           [] \<Rightarrow> Inl (ValueError ''utf8'')
         | c # cs \<Rightarrow>
             if 128 \<le> code c \<and> code c < 192 then
               rbind (utf8_decode cs) (\<lambda>s. Inr (char_of ((code b - 192) * 64 + (code c - 128)) # s))
             else Inl (ValueError ''utf8''))
      else Inl (ValueError ''utf8''))"

lemma code_less_256: "code c < 256"
  by (simp add: code_def)

lemma code_char_of [simp]: "n < 256 \<Longrightarrow> code (char_of n) = n"
  by (simp add: code_def)

lemma char_of_code [simp]: "char_of (code c) = c"
  by (simp add: code_def)

lemma utf8_decode_char: "utf8_decode (utf8_char c @ bs) = rbind (utf8_decode bs) (\<lambda>s. Inr (c # s))"
proof (cases "code c < 128")
  case False
  then have "code c div 64 = 2 \<or> code c div 64 = 3" using code_less_256 [of c] by auto
  then consider "code c div 64 = 2" "128 + code c mod 64 = code c"
    | "code c div 64 = 3" "192 + code c mod 64 = code c"
    using div_mult_mod_eq [of "code c" 64] by fastforce
  then show ?thesis
  proof cases
    case 1
    then have "char_of (128 + code c mod 64) = c" by simp
    moreover have "code c < 192" using 1(2) mod_less_divisor [of 64 "code c"] by linarith
    ultimately show ?thesis using False 1(1) by (simp add: utf8_char_def Let_def)
  next
    case 2
    then have "char_of (192 + code c mod 64) = c" by simp
    with False 2(1) show ?thesis by (simp add: utf8_char_def Let_def)
  qed
qed (simp add: utf8_char_def Let_def)

lemma utf8_roundtrip: "utf8_decode (utf8_encode s) = Inr s"
proof (induction s)
  case (Cons c s)
  then show ?case by (simp add: utf8_encode_def utf8_decode_char)
qed (simp add: utf8_encode_def)

section \<open>Printing\<close>

definition json_char :: "char \<Rightarrow> string" where
  "json_char c = (let n = code c in
     if c = CHR 0x22 \<or> c = CHR 0x5C then [CHR 0x5C, c]
     else if n = 8 then [CHR 0x5C, CHR ''b'']
     else if n = 9 then [CHR 0x5C, CHR ''t'']
     else if n = 10 then [CHR 0x5C, CHR ''n'']
     else if n = 12 then [CHR 0x5C, CHR ''f'']
     else if n = 13 then [CHR 0x5C, CHR ''r'']
     else if n < 32 then [CHR 0x5C, CHR ''u'', CHR ''0'', CHR ''0'', hex_digit (n div 16), hex_digit (n mod 16)]
     else [c])"

definition json_string :: "string \<Rightarrow> string" where
  "json_string s = [CHR 0x22] @ concat (map json_char s) @ [CHR 0x22]"

definition newline :: "nat \<Rightarrow> string" where
  \<comment> \<open>a line break and the indentation of level \<open>n\<close>\<close>
  "newline n = CHR 0x0A # replicate (2 * n) CHR '' ''"

fun json_dump :: "nat \<Rightarrow> pyval \<Rightarrow> string"
and json_dump_list :: "nat \<Rightarrow> pyval list \<Rightarrow> string list"
and json_dump_items :: "nat \<Rightarrow> dict \<Rightarrow> (string \<times> string) list" where
  "json_dump n PNone = ''null''"
| "json_dump n (PBool b) = (if b then ''true'' else ''false'')"
| "json_dump n (PInt i) = int_text i"
| "json_dump n (PStr s) = json_string s"
| "json_dump n (PList xs) =
     (if xs = [] then ''[]''
      else ''['' @ newline (Suc n) @ join ('','' @ newline (Suc n)) (json_dump_list (Suc n) xs)
           @ newline n @ '']'')"
| "json_dump n (PTuple xs) =
     (if xs = [] then ''[]''
      else ''['' @ newline (Suc n) @ join ('','' @ newline (Suc n)) (json_dump_list (Suc n) xs)
           @ newline n @ '']'')"
| "json_dump n (PDict d) =
     (if d = [] then ''{}''
      else ''{'' @ newline (Suc n)
           @ join ('','' @ newline (Suc n))
               (map (\<lambda>(k, t). json_string k @ '': '' @ t) (sort_key fst (json_dump_items (Suc n) d)))
           @ newline n @ ''}'')"
| "json_dump_list n [] = []"
| "json_dump_list n (v # vs) = json_dump n v # json_dump_list n vs"
| "json_dump_items n [] = []"
| "json_dump_items n ((k, v) # d) = (k, json_dump n v) # json_dump_items n d"

definition json_dumps :: "pyval \<Rightarrow> string" where
  "json_dumps v = json_dump 0 v"

section \<open>Parsing\<close>

definition json_error :: "'a res" where
  "json_error = Inl (ValueError ''json'')"

definition json_space :: "char \<Rightarrow> bool" where
  "json_space c = (c \<in> {CHR '' '', CHR 0x09, CHR 0x0A, CHR 0x0D})"

definition skip_ws :: "string \<Rightarrow> string" where
  "skip_ws s = dropWhile json_space s"

definition hex_value :: "char \<Rightarrow> nat option" where
  "hex_value c = (let n = code c in
     if 48 \<le> n \<and> n \<le> 57 then Some (n - 48)
     else if 97 \<le> n \<and> n \<le> 102 then Some (n - 87)
     else if 65 \<le> n \<and> n \<le> 70 then Some (n - 55)
     else None)"

definition simple_escape :: "char \<Rightarrow> char option" where
  "simple_escape c =
     map_of [(CHR 0x22, CHR 0x22), (CHR 0x5C, CHR 0x5C), (CHR ''/'', CHR ''/''), (CHR ''b'', CHR 0x08),
             (CHR ''f'', CHR 0x0C), (CHR ''n'', CHR 0x0A), (CHR ''r'', CHR 0x0D), (CHR ''t'', CHR 0x09)] c"

fun json_chars :: "string \<Rightarrow> (string \<times> string) res" where
  \<comment> \<open>the rest of a string literal, after the opening quote\<close>
  "json_chars [] = json_error"
| "json_chars (c # s) =
     (if c = CHR 0x22 then Inr ([], s)
      else if c = CHR 0x5C then
        (case s of
           [] \<Rightarrow> json_error
         | e # s' \<Rightarrow>
             if e = CHR ''u'' then
               (case s' of
                  h1 # h2 # h3 # h4 # s'' \<Rightarrow>
                    (case (hex_value h1, hex_value h2, hex_value h3, hex_value h4) of
                       (Some a, Some b, Some u, Some v) \<Rightarrow>
                         if a = 0 \<and> b = 0 then
                           rbind (json_chars s'') (\<lambda>(t, r). Inr (char_of (16 * u + v) # t, r))
                         else json_error
                     | _ \<Rightarrow> json_error)
                | _ \<Rightarrow> json_error)
             else
               (case simple_escape e of
                  None \<Rightarrow> json_error
                | Some x \<Rightarrow> rbind (json_chars s') (\<lambda>(t, r). Inr (x # t, r))))
      else if code c < 32 then json_error
      else rbind (json_chars s) (\<lambda>(t, r). Inr (c # t, r)))"

definition digits_value :: "string \<Rightarrow> nat" where
  "digits_value ds = foldl (\<lambda>n c. 10 * n + (code c - 48)) 0 ds"

definition json_scan :: "string \<Rightarrow> string" where
  \<comment> \<open>the longest match of \<open>0|[1-9][0-9]*\<close>\<close>
  "json_scan s = (if starts_with ''0'' s then ''0'' else takeWhile is_digit s)"

definition json_number :: "string \<Rightarrow> (pyval \<times> string) res" where
  \<comment> \<open>\<open>-?(0|[1-9][0-9]*)\<close>; a fraction or an exponent would make it a float\<close>
  "json_number s =
     (let negative = starts_with ''-'' s;
          s1 = (if negative then tl s else s);
          ds = json_scan s1;
          r = drop (length ds) s1 in
      if ds = [] \<or> (r \<noteq> [] \<and> hd r \<in> set ''.eE'') then json_error
      else Inr (PInt (if negative then - int (digits_value ds) else int (digits_value ds)), r))"

fun json_value :: "nat \<Rightarrow> string \<Rightarrow> (pyval \<times> string) res"
and json_elements :: "nat \<Rightarrow> string \<Rightarrow> (pyval list \<times> string) res"
and json_members :: "nat \<Rightarrow> string \<Rightarrow> (dict \<times> string) res" where
  "json_value 0 s = json_error"
| "json_value (Suc n) s =
     (case s of
        [] \<Rightarrow> json_error
      | c # r \<Rightarrow>
          if c = CHR 0x22 then rbind (json_chars r) (\<lambda>(t, r). Inr (PStr t, r))
          else if c = CHR ''{'' then
            (let r = skip_ws r in
             if starts_with ''}'' r then Inr (PDict [], tl r)
             else rbind (json_members n r) (\<lambda>(d, r). if wf_dict d then Inr (PDict d, r) else json_error))
          else if c = CHR ''['' then
            (let r = skip_ws r in
             if starts_with '']'' r then Inr (PList [], tl r)
             else rbind (json_elements n r) (\<lambda>(xs, r). Inr (PList xs, r)))
          else if starts_with ''null'' s then Inr (PNone, drop 4 s)
          else if starts_with ''true'' s then Inr (PBool True, drop 4 s)
          else if starts_with ''false'' s then Inr (PBool False, drop 5 s)
          else json_number s)"
| "json_elements 0 s = json_error"
| "json_elements (Suc n) s =
     rbind (json_value n s) (\<lambda>(v, r).
       let r = skip_ws r in
       if starts_with '']'' r then Inr ([v], tl r)
       else if starts_with '','' r then
         rbind (json_elements n (skip_ws (tl r))) (\<lambda>(vs, r). Inr (v # vs, r))
       else json_error)"
| "json_members 0 s = json_error"
| "json_members (Suc n) s =
     (if \<not> starts_with [CHR 0x22] s then json_error
      else rbind (json_chars (tl s)) (\<lambda>(k, r).
        let r = skip_ws r in
        if \<not> starts_with '':'' r then json_error
        else rbind (json_value n (skip_ws (tl r))) (\<lambda>(v, r).
          let r = skip_ws r in
          if starts_with ''}'' r then Inr ([(k, v)], tl r)
          else if starts_with '','' r then
            rbind (json_members n (skip_ws (tl r))) (\<lambda>(d, r). Inr ((k, v) # d, r))
          else json_error)))"

definition json_loads :: "string \<Rightarrow> pyval res" where
  \<comment> \<open>every call consumes a character or passes to a part of its text, so twice the length is fuel enough\<close>
  "json_loads s =
     rbind (json_value (2 * length s + 2) (skip_ws s)) (\<lambda>(v, r). if skip_ws r = [] then Inr v else json_error)"

section \<open>The codec reads what it prints\<close>

fun json_canon :: "pyval \<Rightarrow> pyval"
and json_canon_list :: "pyval list \<Rightarrow> pyval list"
and json_canon_items :: "dict \<Rightarrow> dict" where
  \<comment> \<open>the value that is read back: tuples are lists, keys are in order\<close>
  "json_canon (PList xs) = PList (json_canon_list xs)"
| "json_canon (PTuple xs) = PList (json_canon_list xs)"
| "json_canon (PDict d) = PDict (sort_key fst (json_canon_items d))"
| "json_canon PNone = PNone"
| "json_canon (PBool b) = PBool b"
| "json_canon (PInt n) = PInt n"
| "json_canon (PStr s) = PStr s"
| "json_canon_list [] = []"
| "json_canon_list (v # vs) = json_canon v # json_canon_list vs"
| "json_canon_items [] = []"
| "json_canon_items ((k, v) # d) = (k, json_canon v) # json_canon_items d"

lemma json_maps:
  "json_dump_list n xs = map (json_dump n) xs"
  "json_dump_items n d = map (\<lambda>(k, v). (k, json_dump n v)) d"
  "json_canon_list xs = map json_canon xs"
  "json_canon_items d = map (\<lambda>(k, v). (k, json_canon v)) d"
  by (induction xs) (simp_all, (induction d; auto)+)

lemma insort_key_map: "insort_key fst (k, f v) (map (\<lambda>(k, v). (k, f v)) d)
    = map (\<lambda>(k, v). (k, f v)) (insort_key fst (k, v) d)"
  by (induction d) auto

lemma sort_items_map:
  "sort_key fst (map (\<lambda>(k, v). (k, f v)) d) = map (\<lambda>(k, v). (k, f v)) (sort_key fst d)"
  by (induction d) (auto simp: insort_key_map)

subsection \<open>Strings\<close>

lemma hex_value_digit: "n < 16 \<Longrightarrow> hex_value (hex_digit n) = Some n"
  by (simp add: hex_value_def hex_digit_def Let_def)

lemma hex_value_0 [simp]: "hex_value (CHR ''0'') = Some 0"
  by (simp add: hex_value_def code_def)

lemma char_of_control:
  "char_of (8 :: nat) = CHR 0x08" "char_of (9 :: nat) = CHR 0x09" "char_of (10 :: nat) = CHR 0x0A"
  "char_of (12 :: nat) = CHR 0x0C" "char_of (13 :: nat) = CHR 0x0D" "char_of (48 :: nat) = CHR ''0''"
  by code_simp+

lemma control_chars:
  "code c = 8 \<Longrightarrow> c = CHR 0x08" "code c = 9 \<Longrightarrow> c = CHR 0x09" "code c = 10 \<Longrightarrow> c = CHR 0x0A"
  "code c = 12 \<Longrightarrow> c = CHR 0x0C" "code c = 13 \<Longrightarrow> c = CHR 0x0D"
  by (metis char_of_code char_of_control)+

lemma json_chars_char: "json_chars (json_char c @ s) = rbind (json_chars s) (\<lambda>(t, r). Inr (c # t, r))"
proof -
  have hex: "hex_value (hex_digit (code c div 16)) = Some (code c div 16)"
    "hex_value (hex_digit (code c mod 16)) = Some (code c mod 16)"
    using code_less_256 [of c] by (simp_all add: hex_value_digit)
  have "char_of (16 * (code c div 16) + code c mod 16) = c" by simp
  then show ?thesis
    using hex control_chars [of c] by (simp add: json_char_def Let_def simple_escape_def)
qed

lemma json_chars_string: "json_chars (concat (map json_char s) @ CHR 0x22 # r) = Inr (s, r)"
  by (induction s) (simp_all add: json_chars_char del: json_chars.simps(2), simp)

subsection \<open>Numbers\<close>

lemma digits_value_snoc: "digits_value (ds @ [c]) = 10 * digits_value ds + (code c - 48)"
  by (simp add: digits_value_def)

lemma digits_value_nat_digits: "digits_value (nat_digits n) = n"
proof (induction n rule: nat_digits.induct)
  case (1 n)
  show ?case
  proof (cases "n < 10")
    case True
    then show ?thesis by (simp add: nat_digits.simps [of n] digits_value_def)
  next
    case False
    then show ?thesis using 1 by (simp add: nat_digits.simps [of n] digits_value_snoc)
  qed
qed

lemma is_digit_char_of: "n < (10 :: nat) \<Longrightarrow> is_digit (char_of (48 + n))"
  by (simp add: is_digit_def Let_def)

lemma nat_digits_are_digits: "list_all is_digit (nat_digits n)"
  by (induction n rule: nat_digits.induct) (subst nat_digits.simps, simp add: is_digit_char_of)

lemma nat_digits_hd: "nat_digits n \<noteq> [] \<and> (hd (nat_digits n) = CHR ''0'' \<longrightarrow> n = 0)"
proof (induction n rule: nat_digits.induct)
  case (1 n)
  have "char_of (48 + n) = CHR ''0'' \<Longrightarrow> n < 10 \<Longrightarrow> n = 0"
    by (drule arg_cong [of _ _ code]) (simp add: code_def)
  with 1 show ?case by (subst (1 2) nat_digits.simps) auto
qed

definition no_number :: "string \<Rightarrow> bool" where
  \<comment> \<open>the text does not continue a number\<close>
  "no_number r = (r = [] \<or> \<not> is_digit (hd r) \<and> hd r \<notin> set ''.eE'')"

lemma takeWhile_digits: "list_all p ds \<Longrightarrow> r = [] \<or> \<not> p (hd r) \<Longrightarrow> takeWhile p (ds @ r) = ds"
  by (induction ds) (auto simp: takeWhile_eq_Nil_iff)

lemma starts_with_char: "starts_with [c] s \<longleftrightarrow> s \<noteq> [] \<and> hd s = c"
  by (cases s) (auto simp: starts_with_def)

lemma digit_not_minus: "is_digit c \<Longrightarrow> c \<noteq> CHR ''-''"
  by (auto simp: is_digit_def code_def Let_def)

lemma json_number_digits:
  assumes "no_number r"
  shows "json_number (nat_digits n @ r) = Inr (PInt (int n), r)"
    and "json_number (CHR ''-'' # nat_digits n @ r) = Inr (PInt (- int n), r)"
proof -
  obtain c ds where cds: "nat_digits n = c # ds" using nat_digits_hd [of n] by (cases "nat_digits n") auto
  have dig: "is_digit c" "list_all is_digit ds" using nat_digits_are_digits [of n] cds by simp_all
  have scan: "json_scan (nat_digits n @ r) = nat_digits n"
  proof (cases "c = CHR ''0''")
    case True
    then have "n = 0" using nat_digits_hd [of n] cds by simp
    then have "nat_digits n = ''0''" by (subst nat_digits.simps) (simp add: char_of_control)
    then show ?thesis by (simp add: starts_with_char json_scan_def)
  next
    case False
    then show ?thesis
      using takeWhile_digits [OF nat_digits_are_digits, of r n] assms cds dig(1)
      by (auto simp: json_scan_def starts_with_char no_number_def)
  qed
  have rest: "\<not> (r \<noteq> [] \<and> hd r \<in> set ''.eE'')" using assms by (auto simp: no_number_def)
  have ne: "nat_digits n \<noteq> []" using cds by simp
  have minus: "\<not> starts_with ''-'' (nat_digits n @ r)"
    using cds digit_not_minus [OF dig(1)] by (simp add: starts_with_char)
  show "json_number (nat_digits n @ r) = Inr (PInt (int n), r)"
    using rest by (auto simp: json_number_def Let_def minus scan ne digits_value_nat_digits)
  show "json_number (CHR ''-'' # nat_digits n @ r) = Inr (PInt (- int n), r)"
    using rest by (auto simp: json_number_def Let_def starts_with_char scan ne digits_value_nat_digits)
qed

lemma json_number_int: "no_number r \<Longrightarrow> json_number (int_text i @ r) = Inr (PInt i, r)"
  by (simp add: int_text_def json_number_digits)

subsection \<open>Values\<close>

lemma skip_ws_newline: "s = [] \<or> \<not> json_space (hd s) \<Longrightarrow> skip_ws (newline n @ s) = s"
proof -
  assume s: "s = [] \<or> \<not> json_space (hd s)"
  have "list_all json_space (newline n)" by (simp add: newline_def json_space_def list_all_iff)
  with s show ?thesis
    by (auto simp: skip_ws_def dropWhile_append list_all_iff dropWhile_eq_self_iff)
qed

lemma skip_ws_char: "\<not> json_space c \<Longrightarrow> skip_ws (c # s) = c # s"
  by (simp add: skip_ws_def)

lemma no_number_newline: "no_number (newline n @ s)" and no_number_comma: "no_number (CHR '','' # s)"
  by (simp_all add: no_number_def newline_def is_digit_def code_def)

definition json_start :: "string \<Rightarrow> bool" where
  "json_start t = (t \<noteq> [] \<and> \<not> json_space (hd t) \<and> hd t \<notin> set '']}'')"

lemma json_start_append: "json_start t \<Longrightarrow> json_start (t @ u)"
  by (cases t) (simp_all add: json_start_def)

lemma digit_start: "is_digit c \<Longrightarrow> \<not> json_space c \<and> c \<notin> set '']}''"
  by (auto simp: is_digit_def code_def json_space_def Let_def)

lemma json_dump_start: "json_start (json_dump n v)"
proof (cases v)
  case (PInt i)
  have "json_start (nat_digits k)" for k
    using nat_digits_hd [of k] nat_digits_are_digits [of k] digit_start
    by (cases "nat_digits k") (auto simp: json_start_def)
  with PInt show ?thesis by (auto simp: int_text_def json_start_def json_space_def)
qed (auto simp: json_start_def json_space_def json_string_def)

definition reads_back :: "pyval \<Rightarrow> bool" where
  "reads_back v = (\<forall>n r f. no_number r \<longrightarrow> 2 * length (json_dump n v @ r) < f \<longrightarrow>
     json_value f (json_dump n v @ r) = Inr (json_canon v, r))"

lemma reads_backD:
  "reads_back v \<Longrightarrow> no_number r \<Longrightarrow> 2 * length (json_dump n v @ r) < f \<Longrightarrow>
     json_value f (json_dump n v @ r) = Inr (json_canon v, r)"
  by (simp add: reads_back_def)

lemma json_elements_dump:
  assumes "\<forall>v\<in>set xs. reads_back v" and "xs \<noteq> []"
    and "2 * length (join ('','' @ newline n) (map (json_dump n) xs) @ newline m @ CHR '']'' # r) + 1 < f"
  shows "json_elements f (join ('','' @ newline n) (map (json_dump n) xs) @ newline m @ CHR '']'' # r)
    = Inr (map json_canon xs, r)"
  using assms
proof (induction xs arbitrary: f)
  case (Cons v vs)
  obtain g where f: "f = Suc g" using Cons.prems(3) by (cases f) auto
  have v: "reads_back v" using Cons.prems(1) by simp
  show ?case
  proof (cases "vs = []")
    case True
    have "json_value g (json_dump n v @ newline m @ CHR '']'' # r) = Inr (json_canon v, newline m @ CHR '']'' # r)"
      using Cons.prems(3) True f by (intro reads_backD [OF v no_number_newline]) simp
    then show ?thesis
      by (simp add: f True skip_ws_newline json_space_def starts_with_char)
  next
    case False
    let ?J = "join ('','' @ newline n) (map (json_dump n) vs) @ newline m @ CHR '']'' # r"
    have eq: "join ('','' @ newline n) (map (json_dump n) (v # vs)) @ newline m @ CHR '']'' # r
        = json_dump n v @ CHR '','' # newline n @ ?J"
      using False by (simp add: join_Cons)
    have len: "2 * length (json_dump n v @ CHR '','' # newline n @ ?J) + 1 < Suc g"
      using Cons.prems(3) by (simp only: eq f)
    have val: "json_value g (json_dump n v @ CHR '','' # newline n @ ?J)
        = Inr (json_canon v, CHR '','' # newline n @ ?J)"
      using len by (intro reads_backD [OF v no_number_comma]) simp
    have "json_start ?J"
      using False json_dump_start json_start_append by (cases vs) (auto simp: join_Cons)
    then have skip: "skip_ws (newline n @ ?J) = ?J"
      by (intro skip_ws_newline) (simp add: json_start_def)
    have IH: "json_elements g ?J = Inr (map json_canon vs, r)"
      using Cons.prems(1) False len by (intro Cons.IH) auto
    show ?thesis
      unfolding eq f
      using val skip IH by (simp add: skip_ws_char json_space_def starts_with_char)
  qed
qed simp

definition member_text :: "nat \<Rightarrow> string \<times> pyval \<Rightarrow> string" where
  "member_text n = (\<lambda>(k, v). json_string k @ '': '' @ json_dump n v)"

lemma json_chars_key: "json_chars (tl (json_string k @ r)) = Inr (k, r)"
  by (simp add: json_string_def json_chars_string)

lemma json_string_quote: "starts_with [CHR 0x22] (json_string k @ r)"
  by (simp add: json_string_def starts_with_char)

lemma json_members_dump:
  assumes "\<forall>kv\<in>set d. reads_back (snd kv)" and "d \<noteq> []"
    and "2 * length (join ('','' @ newline n) (map (member_text n) d) @ newline m @ CHR ''}'' # r) + 1 < f"
  shows "json_members f (join ('','' @ newline n) (map (member_text n) d) @ newline m @ CHR ''}'' # r)
    = Inr (map (\<lambda>(k, v). (k, json_canon v)) d, r)"
  using assms
proof (induction d arbitrary: f)
  case (Cons kv d)
  obtain k v where kv: "kv = (k, v)" by force
  obtain g where f: "f = Suc g" using Cons.prems(3) by (cases f) auto
  have v: "reads_back v" using Cons.prems(1) kv by simp
  have space: "skip_ws (CHR '' '' # json_dump n v @ u) = json_dump n v @ u" for u
    using json_start_append [OF json_dump_start [of n v], of u]
    by (cases "json_dump n v @ u") (simp_all add: skip_ws_def json_space_def json_start_def)
  have key: "json_members (Suc g) (json_string k @ '': '' @ json_dump n v @ u)
      = rbind (json_value g (json_dump n v @ u)) (\<lambda>(v, r).
          let r = skip_ws r in
          if starts_with ''}'' r then Inr ([(k, v)], tl r)
          else if starts_with '','' r then
            rbind (json_members g (skip_ws (tl r))) (\<lambda>(d, r). Inr ((k, v) # d, r))
          else json_error)" for u
    using space [of u] json_string_quote [of k] json_chars_key [of k]
    by (simp add: skip_ws_char json_space_def starts_with_char)
  show ?case
  proof (cases "d = []")
    case True
    have "json_value g (json_dump n v @ newline m @ CHR ''}'' # r) = Inr (json_canon v, newline m @ CHR ''}'' # r)"
      using Cons.prems(3) True f kv
      by (intro reads_backD [OF v no_number_newline]) (simp add: member_text_def)
    then show ?thesis
      using key [of "newline m @ CHR ''}'' # r"]
      by (simp add: f kv True member_text_def skip_ws_newline json_space_def starts_with_char)
  next
    case False
    let ?J = "join ('','' @ newline n) (map (member_text n) d) @ newline m @ CHR ''}'' # r"
    have eq: "join ('','' @ newline n) (map (member_text n) (kv # d)) @ newline m @ CHR ''}'' # r
        = json_string k @ '': '' @ json_dump n v @ CHR '','' # newline n @ ?J"
      using False by (simp add: join_Cons kv member_text_def)
    have len: "2 * length (json_string k @ '': '' @ json_dump n v @ CHR '','' # newline n @ ?J) + 1 < Suc g"
      using Cons.prems(3) by (simp only: eq f)
    have val: "json_value g (json_dump n v @ CHR '','' # newline n @ ?J)
        = Inr (json_canon v, CHR '','' # newline n @ ?J)"
      using len by (intro reads_backD [OF v no_number_comma]) simp
    have "?J \<noteq> [] \<and> hd ?J = CHR 0x22"
      using False by (cases d) (auto simp: join_Cons member_text_def json_string_def split: prod.splits)
    then have skip: "skip_ws (newline n @ ?J) = ?J"
      by (intro skip_ws_newline) (simp add: json_space_def)
    have IH: "json_members g ?J = Inr (map (\<lambda>(k, v). (k, json_canon v)) d, r)"
      using Cons.prems(1) False len by (intro Cons.IH) auto
    show ?thesis
      unfolding eq f key
      using val skip IH by (simp add: skip_ws_char json_space_def starts_with_char kv)
  qed
qed simp

lemma sorted_members:
  "map (\<lambda>(k, t). json_string k @ '': '' @ t) (sort_key fst (json_dump_items n d))
     = map (member_text n) (sort_key fst d)"
  by (simp add: json_maps sort_items_map member_text_def case_prod_beta comp_def)

lemma json_dump_dict:
  "d \<noteq> [] \<Longrightarrow> json_dump n (PDict d) = ''{'' @ newline (Suc n)
     @ join ('','' @ newline (Suc n)) (map (member_text (Suc n)) (sort_key fst d)) @ newline n @ ''}''"
  by (simp only: json_dump.simps sorted_members if_False)

lemma starts_with_single: "starts_with [c] (x # s) \<longleftrightarrow> x = c"
  by (simp add: starts_with_char)

lemma reads_back_list:
  assumes "\<forall>v\<in>set xs. reads_back v" and "no_number r" and "2 * length (json_dump n (PList xs) @ r) < f"
  shows "json_value f (json_dump n (PList xs) @ r) = Inr (PList (map json_canon xs), r)"
proof -
  obtain g where f: "f = Suc g" using assms(3) by (cases f) auto
  show ?thesis
  proof (cases "xs = []")
    case True
    then show ?thesis by (simp add: f skip_ws_char json_space_def starts_with_single)
  next
    case False
    let ?J = "join ('','' @ newline (Suc n)) (map (json_dump (Suc n)) xs) @ newline n @ CHR '']'' # r"
    have start: "json_start ?J"
      using False json_dump_start json_start_append by (cases xs) (auto simp: join_Cons)
    have skip: "skip_ws (newline (Suc n) @ ?J) = ?J"
      using start by (intro skip_ws_newline) (simp add: json_start_def)
    have closed: "\<not> starts_with '']'' ?J" using start by (simp add: starts_with_char json_start_def)
    have "json_elements g ?J = Inr (map json_canon xs, r)"
      using assms(1,3) False by (intro json_elements_dump) (auto simp: f json_maps)
    then show ?thesis
      using False skip closed by (simp add: f json_maps)
  qed
qed

lemma reads_back_dict:
  assumes "\<forall>kv\<in>set d. reads_back (snd kv)" and "wf_dict d" and "no_number r"
    and "2 * length (json_dump n (PDict d) @ r) < f"
  shows "json_value f (json_dump n (PDict d) @ r)
    = Inr (PDict (map (\<lambda>(k, v). (k, json_canon v)) (sort_key fst d)), r)"
proof -
  obtain g where f: "f = Suc g" using assms(4) by (cases f) auto
  show ?thesis
  proof (cases "d = []")
    case True
    then show ?thesis by (simp add: f skip_ws_char json_space_def starts_with_single)
  next
    case False
    let ?d = "sort_key fst d"
    let ?J = "join ('','' @ newline (Suc n)) (map (member_text (Suc n)) ?d) @ newline n @ CHR ''}'' # r"
    have ne: "?d \<noteq> []" using False by (metis set_empty set_sort)
    have hd: "?J \<noteq> [] \<and> hd ?J = CHR 0x22"
      using ne by (cases ?d) (auto simp: join_Cons member_text_def json_string_def split: prod.splits)
    have skip: "skip_ws (newline (Suc n) @ ?J) = ?J"
      using hd by (intro skip_ws_newline) (simp add: json_space_def)
    have closed: "\<not> starts_with ''}'' ?J" using hd by (simp add: starts_with_char)
    have "json_members g ?J = Inr (map (\<lambda>(k, v). (k, json_canon v)) ?d, r)"
      using assms(1,4) ne False by (intro json_members_dump) (auto simp: f json_dump_dict simp del: json_dump.simps(7))
    moreover have "wf_dict (map (\<lambda>(k, v). (k, json_canon v)) ?d)"
      using assms(2) by (simp add: wf_dict_def case_prod_beta comp_def)
        (metis distinct_map distinct_sort set_sort)
    ultimately show ?thesis
      using False skip closed by (simp add: f json_dump_dict del: json_dump.simps(7))
  qed
qed

lemma reads_backI:
  assumes "\<And>n r g. no_number r \<Longrightarrow> 2 * length (json_dump n v @ r) < Suc g \<Longrightarrow>
     json_value (Suc g) (json_dump n v @ r) = Inr (json_canon v, r)"
  shows "reads_back v"
  unfolding reads_back_def
proof (intro allI impI)
  fix n r f assume "no_number r" and len: "2 * length (json_dump n v @ r) < f"
  moreover obtain g where "f = Suc g" using len by (cases f) auto
  ultimately show "json_value f (json_dump n v @ r) = Inr (json_canon v, r)" using assms by simp
qed

lemma reads_back_int: "reads_back (PInt i)"
proof (rule reads_backI)
  fix n r g assume r: "no_number r"
  obtain c t where ct: "int_text i @ r = c # t" and c: "c = CHR ''-'' \<or> is_digit c"
  proof (cases "i < 0")
    case True
    then show ?thesis using that by (simp add: int_text_def)
  next
    case False
    then show ?thesis
      using that nat_digits_hd [of "nat i"] nat_digits_are_digits [of "nat i"]
      by (cases "nat_digits (nat i)") (auto simp: int_text_def)
  qed
  have "c \<notin> set (CHR 0x22 # ''{[ntf'')" using c by (auto simp: is_digit_def code_def Let_def)
  then have "json_value (Suc g) (int_text i @ r) = json_number (int_text i @ r)"
    unfolding ct by (simp add: starts_with_def)
  then show "json_value (Suc g) (json_dump n (PInt i) @ r) = Inr (json_canon (PInt i), r)"
    using r by (simp add: json_number_int)
qed

lemma reads_back: "wf_val v \<Longrightarrow> reads_back v"
proof (induction v rule: pyval.induct)
  case PNone
  show ?case by (rule reads_backI) (simp add: starts_with_def)
next
  case (PBool b)
  show ?case by (rule reads_backI) (simp add: starts_with_def)
next
  case (PInt i)
  show ?case by (rule reads_back_int)
next
  case (PStr s)
  show ?case by (rule reads_backI) (simp add: json_string_def json_chars_string)
next
  case (PList xs)
  then have "\<forall>v\<in>set xs. reads_back v" by (simp add: wf_vals_iff)
  then show ?case using reads_back_list by (simp add: reads_back_def json_maps del: json_dump.simps)
next
  case (PTuple xs)
  then have "\<forall>v\<in>set xs. reads_back v" by (simp add: wf_vals_iff)
  then show ?case using reads_back_list [of xs] by (simp add: reads_back_def json_maps)
next
  case (PDict d)
  then have "\<forall>kv\<in>set d. reads_back (snd kv)" by (auto simp: wf_items_iff)
  then show ?case
    using PDict.prems reads_back_dict
    by (simp add: reads_back_def json_maps sort_items_map del: json_dump.simps)
qed

lemma json_loads_dumps:
  assumes "wf_val v"
  shows "json_loads (json_dumps v) = Inr (json_canon v)"
    and "json_loads (json_dumps v @ [CHR 0x0A]) = Inr (json_canon v)"
proof -
  have skip: "skip_ws (json_dump 0 v @ r) = json_dump 0 v @ r" for r
    using json_start_append [OF json_dump_start, of 0 v r]
    by (cases "json_dump 0 v @ r") (simp_all add: json_start_def skip_ws_char)
  have read: "no_number r \<Longrightarrow> 2 * length (json_dump 0 v @ r) < f \<Longrightarrow>
      json_value f (json_dump 0 v @ r) = Inr (json_canon v, r)" for r f
    by (rule reads_backD [OF reads_back [OF assms]])
  show "json_loads (json_dumps v) = Inr (json_canon v)"
    using read [of "[]"] skip [of "[]"]
    by (simp add: json_loads_def json_dumps_def no_number_def skip_ws_def del: json_value.simps)
  show "json_loads (json_dumps v @ [CHR 0x0A]) = Inr (json_canon v)"
    using read [of "[CHR 0x0A]"] skip [of "[CHR 0x0A]"]
    by (simp add: json_loads_def json_dumps_def no_number_def skip_ws_def is_digit_def json_space_def
        code_def del: json_value.simps)
qed

section \<open>Documents\<close>

text \<open>
  A document is a record with a canonical file: its payload as indented JSON with a final line
  break, in UTF-8. Reading it parses the payload and accepts only the canonical bytes. The
  contract of a document is that its payload parses back; what is proved from it holds for every
  kind of document of the program that has this form.
\<close>

definition document_bytes :: "('a \<Rightarrow> pyval) \<Rightarrow> 'a \<Rightarrow> string" where
  "document_bytes payload x = utf8_encode (json_dumps (payload x) @ [CHR 0x0A])"

definition read_document :: "('a \<Rightarrow> pyval) \<Rightarrow> (pyval \<Rightarrow> 'a res) \<Rightarrow> string \<Rightarrow> 'a res" where
  "read_document payload parse content =
     rbind (utf8_decode content) (\<lambda>t.
     rbind (json_loads t) (\<lambda>v.
     rbind (parse v) (\<lambda>x.
     if content = document_bytes payload x then Inr x else Inl (ValueError ''noncanonical''))))"

locale json_document =
  fixes payload :: "'a \<Rightarrow> pyval" and parse :: "pyval \<Rightarrow> 'a res" and valid :: "'a \<Rightarrow> bool"
  assumes payload_wf: "valid x \<Longrightarrow> wf_val (payload x)"
    and parse_payload: "valid x \<Longrightarrow> parse (json_canon (payload x)) = Inr x"
    and parse_valid: "parse v = Inr x \<Longrightarrow> valid x"
begin

lemma read_bytes: "valid x \<Longrightarrow> read_document payload parse (document_bytes payload x) = Inr x"
  by (simp add: read_document_def document_bytes_def utf8_roundtrip json_loads_dumps payload_wf parse_payload)

lemma read_Inr: "read_document payload parse b = Inr x \<longleftrightarrow> valid x \<and> b = document_bytes payload x"
proof
  assume "read_document payload parse b = Inr x"
  then show "valid x \<and> b = document_bytes payload x"
    by (auto simp: read_document_def intro: parse_valid split: if_splits)
next
  assume "valid x \<and> b = document_bytes payload x"
  then show "read_document payload parse b = Inr x" using read_bytes by blast
qed

lemma bytes_inj: "valid x \<Longrightarrow> valid y \<Longrightarrow> document_bytes payload x = document_bytes payload y \<Longrightarrow> x = y"
  by (metis read_bytes sum.inject(2))

end

lemma map_of_sort_key: "wf_dict d \<Longrightarrow> map_of (sort_key fst d) = map_of d"
proof -
  assume wf: "wf_dict d"
  then have "wf_dict (sort_key fst d)"
    by (metis distinct_map distinct_sort set_sort wf_dict_def)
  with wf show ?thesis
    by (auto simp: wf_dict_def fun_eq_iff intro!: map_of_inject_set [THEN iffD2, THEN fun_cong])
qed

lemma map_of_json_canon:
  "wf_dict d \<Longrightarrow> map_of (sort_key fst (json_canon_items d)) k = map_option json_canon (map_of d k)"
proof -
  assume wf: "wf_dict d"
  have keys: "map fst (json_canon_items d) = map fst d" by (induction d) auto
  then have "wf_dict (json_canon_items d)" using wf by (simp add: wf_dict_def)
  then have "map_of (sort_key fst (json_canon_items d)) k = map_of (json_canon_items d) k"
    by (simp add: map_of_sort_key)
  also have "\<dots> = map_option json_canon (map_of d k)"
    by (induction d) (auto split: if_splits)
  finally show ?thesis .
qed

lemma dget_json_canon:
  "wf_dict d \<Longrightarrow> dget (sort_key fst (json_canon_items d)) k = json_canon (dget d k)"
  by (auto simp: dget_def map_of_json_canon split: option.splits)

lemma getitem_json_canon:
  "wf_dict d \<Longrightarrow> map_of d k = Some v \<Longrightarrow> getitem (sort_key fst (json_canon_items d)) k = Inr (json_canon v)"
  by (simp add: getitem_Inr_iff map_of_json_canon)

lemma same_keys_json_canon:
  "same_keys (sort_key fst (json_canon_items d)) ks \<longleftrightarrow> same_keys d ks"
proof -
  have "map fst (json_canon_items d) = map fst d" by (induction d) auto
  then have "fst ` set (json_canon_items d) = fst ` set d" by (metis list.set_map)
  then show ?thesis by (simp add: same_keys_iff)
qed

end
