(* ===== verification/ConditionFormat.thy ===== *)
theory ConditionFormat
  imports JsonCodec
begin

text \<open>
  Runtime conditions (\<open>src/src/hsconfig/condition_format.py\<close>): lowering a condition of a claim to
  the text that a rule may contain, the check of that text, and the domains from which two
  conditions are shown to exclude each other. The regular expressions are written out as
  recognisers that return what follows the match; every one of them is deterministic, because
  after each optional run of blanks, digits or name characters comes a character outside of it.
\<close>

section \<open>Recognisers\<close>

definition lit :: "string \<Rightarrow> string \<Rightarrow> string option" where
  "lit p t = (if starts_with p t then Some (drop (length p) t) else None)"

definition ws :: "string \<Rightarrow> string" where
  \<comment> \<open>\<open>\\s*\<close>\<close>
  "ws t = dropWhile is_space t"

definition many1 :: "(char \<Rightarrow> bool) \<Rightarrow> string \<Rightarrow> (string \<times> string) option" where
  \<comment> \<open>one or more characters of a class, and the rest\<close>
  "many1 p t = (if takeWhile p t = [] then None else Some (takeWhile p t, dropWhile p t))"

definition at_end :: "string \<Rightarrow> bool" where
  \<comment> \<open>\<open>$\<close> also matches before a final line feed\<close>
  "at_end t = (t = [] \<or> t = [CHR 0x0A])"

definition bind :: "'a option \<Rightarrow> ('a \<Rightarrow> 'b option) \<Rightarrow> 'b option" where
  "bind m f = (case m of None \<Rightarrow> None | Some x \<Rightarrow> f x)"

definition above_zero :: "string \<Rightarrow> string option" where
  \<comment> \<open>\<open>\\s*>\\s*0\<close>\<close>
  "above_zero t = bind (lit ''>'' (ws t)) (\<lambda>t. lit ''0'' (ws t))"

definition ALLOWED_HERO_CLASSES :: "string list" where
  "ALLOWED_HERO_CLASSES =
     [''demonhunter'', ''deathknight'', ''druid'', ''hunter'', ''mage'', ''paladin'', ''priest'', ''rogue'',
      ''shaman'', ''warlock'', ''warrior'']"

fun class_among :: "string list \<Rightarrow> string \<Rightarrow> (string \<times> string) option" where
  "class_among [] t = None"
| "class_among (c # cs) t = (case lit c t of Some r \<Rightarrow> Some (c, r) | None \<Rightarrow> class_among cs t)"

definition class_pattern :: "string \<Rightarrow> (string \<times> string) option" where
  \<comment> \<open>\<open>CLASS_PATTERN\<close>: no class name is the beginning of another\<close>
  "class_pattern t = class_among ALLOWED_HERO_CLASSES t"

fun more_classes :: "nat \<Rightarrow> string list \<Rightarrow> string \<Rightarrow> string list \<times> string" where
  \<comment> \<open>\<open>(?:\\s*\\|\\s*CLASS_PATTERN)*\<close>; the number bounds the repetitions\<close>
  "more_classes 0 cs t = (cs, t)"
| "more_classes (Suc n) cs t =
     (case bind (lit ''|'' (ws t)) (\<lambda>t. class_pattern (ws t)) of
        None \<Rightarrow> (cs, t)
      | Some (c, r) \<Rightarrow> more_classes n (cs @ [c]) r)"

definition class_list_pattern :: "string \<Rightarrow> (string list \<times> string) option" where
  \<comment> \<open>\<open>CLASS_LIST_PATTERN\<close>, with the items of the matched text\<close>
  "class_list_pattern t = bind (class_pattern t) (\<lambda>(c, r). Some (more_classes (length t) [c] r))"

definition hand_count_pattern :: "string \<Rightarrow> (string \<times> string) option" where
  \<comment> \<open>\<open>my_hand\\(count\\(\\)\\)\\s*==\\s*(\\d+)\<close>\<close>
  "hand_count_pattern t =
     bind (lit ''my_hand(count())'' t) (\<lambda>t. bind (lit ''=='' (ws t)) (\<lambda>t. many1 is_digit (ws t)))"

definition card_pattern :: "string \<Rightarrow> string \<Rightarrow> string option" where
  \<comment> \<open>\<open>ZONE\\(count\\(\\),cardid=CARD_ID_PATTERN\\)\\s*>\\s*0\<close>\<close>
  "card_pattern zone t =
     bind (lit (zone @ ''(count(),cardid='') t) (\<lambda>t.
     bind (many1 is_word t) (\<lambda>(card, t). bind (lit '')'' t) above_zero))"

definition class_atom_pattern :: "string \<Rightarrow> (string \<times> string) option" where
  \<comment> \<open>\<open>opp_hero\\(count\\(\\),(CLASS_PATTERN)=true\\)\\s*>\\s*0\<close>\<close>
  "class_atom_pattern t =
     bind (lit ''opp_hero(count(),'' t) (\<lambda>t.
     bind (class_pattern t) (\<lambda>(c, t).
     bind (lit ''=true)'' t) (\<lambda>t. bind (above_zero t) (\<lambda>t. Some (c, t)))))"

definition classes_atom_pattern :: "string \<Rightarrow> (string list \<times> string) option" where
  \<comment> \<open>\<open>opp_hero\\(count\\(\\),\\s*hero_class\\s*=\\s*(CLASS_LIST_PATTERN)\\s*\\)\\s*>\\s*0\<close>\<close>
  "classes_atom_pattern t =
     bind (lit ''opp_hero(count(),'' t) (\<lambda>t.
     bind (lit ''hero_class'' (ws t)) (\<lambda>t.
     bind (lit ''='' (ws t)) (\<lambda>t.
     bind (class_list_pattern (ws t)) (\<lambda>(cs, t).
     bind (lit '')'' (ws t)) (\<lambda>t. bind (above_zero t) (\<lambda>t. Some (cs, t)))))))"

definition target_pattern :: "string \<Rightarrow> string option" where
  "target_pattern t = bind (lit ''my_target(count(),hero=true)'' t) above_zero"

definition matches :: "string option \<Rightarrow> bool" where
  "matches m = (case m of None \<Rightarrow> False | Some r \<Rightarrow> at_end r)"

definition is_atom_safe :: "string \<Rightarrow> bool" where
  "is_atom_safe t =
     list_ex matches
       [lit ''*'' t, lit ''coin'' t, lit ''nocoin'' t, map_option snd (hand_count_pattern t),
        card_pattern ''my_hand'' t, map_option snd (class_atom_pattern t),
        map_option snd (classes_atom_pattern t), target_pattern t,
        card_pattern ''my_minion'' t, card_pattern ''my_discover'' t]"

section \<open>Checking a condition\<close>

definition joiner :: "string \<Rightarrow> string option" where
  \<comment> \<open>\<open>\\s+(?:AND|OR)\\s+\<close> at the beginning of the text\<close>
  "joiner t =
     bind (many1 is_space t) (\<lambda>(_, t).
     bind (case lit ''AND'' t of None \<Rightarrow> lit ''OR'' t | Some r \<Rightarrow> Some r) (\<lambda>t.
     bind (many1 is_space t) (\<lambda>(_, t). Some t)))"

lemma lit_length: "lit p t = Some r \<Longrightarrow> length r \<le> length t"
  by (auto simp: lit_def split: if_splits)

lemma many1_length: "many1 p t = Some (x, r) \<Longrightarrow> length r < length t"
  by (cases t) (auto simp: many1_def length_dropWhile_le less_Suc_eq_le split: if_splits)

lemma bind_Some: "bind m f = Some y \<longleftrightarrow> (\<exists>x. m = Some x \<and> f x = Some y)"
  by (cases m) (auto simp: bind_def)

lemma joiner_length: "joiner t = Some r \<Longrightarrow> length r < length t"
proof -
  assume "joiner t = Some r"
  then obtain u t1 t2 v where "many1 is_space t = Some (u, t1)"
    and "(case lit ''AND'' t1 of None \<Rightarrow> lit ''OR'' t1 | Some r \<Rightarrow> Some r) = Some t2"
    and "many1 is_space t2 = Some (v, r)"
    by (auto simp: joiner_def bind_Some)
  then have "length t1 < length t" "length t2 \<le> length t1" "length r < length t2"
    by (auto dest: many1_length lit_length split: option.splits)
  then show ?thesis by simp
qed

function split_atoms :: "string \<Rightarrow> string \<Rightarrow> string list" where
  \<comment> \<open>\<open>re.split(r"\\s+(?:AND|OR)\\s+", condition)\<close>, with the atom read so far\<close>
  "split_atoms acc [] = [acc]"
| "split_atoms acc (c # cs) =
     (case joiner (c # cs) of Some r \<Rightarrow> acc # split_atoms [] r | None \<Rightarrow> split_atoms (acc @ [c]) cs)"
  by pat_completeness auto
termination
  by (relation "measure (\<lambda>(acc, t). length t)") (auto dest: joiner_length)

definition is_runtime_safe :: "string \<Rightarrow> bool" where
  "is_runtime_safe condition =
     (let t = squeeze condition in
      if contains '' AND '' t \<or> contains '' OR '' t then list_all is_atom_safe (split_atoms [] t)
      else is_atom_safe t)"

section \<open>Lowering\<close>

definition UNSUPPORTED :: string where "UNSUPPORTED = ''unsupported_condition''"

definition REPORT_ONLY_CONDITION_KEYS :: "string list" where
  "REPORT_ONLY_CONDITION_KEYS = [''phase'', ''posture'']"

definition STRUCTURED_RUNTIME_CONDITION_KEYS :: "string list" where
  "STRUCTURED_RUNTIME_CONDITION_KEYS =
     [''coin'', ''nocoin'', ''opponent_class'', ''opponent_classes'', ''hand_contains'', ''hand_contains_any'',
      ''combo_partner'']"

definition card_id_atom :: "pyval \<Rightarrow> string option" where
  "card_id_atom v =
     (case v of
        PStr s \<Rightarrow> (let atom = ''my_hand(count(),cardid='' @ s @ '') > 0'' in if is_atom_safe atom then Some atom else None)
      | _ \<Rightarrow> None)"

fun all_some :: "'a option list \<Rightarrow> 'a list option" where
  "all_some [] = Some []"
| "all_some (x # xs) = bind x (\<lambda>y. map_option ((#) y) (all_some xs))"

definition card_id_atoms :: "pyval \<Rightarrow> string list option" where
  "card_id_atoms v =
     bind (case v of PStr s \<Rightarrow> Some [v] | PList xs \<Rightarrow> Some xs | PTuple xs \<Rightarrow> Some xs | _ \<Rightarrow> None)
       (\<lambda>cards. if cards = [] then None else all_some (map card_id_atom cards))"

definition normalize_hero_class :: "pyval \<Rightarrow> string option" where
  "normalize_hero_class v =
     (case v of
        PStr s \<Rightarrow> if matches (map_option snd (class_pattern (lower s))) then Some (lower s) else None
      | _ \<Rightarrow> None)"

definition normalize_opponent_classes :: "pyval \<Rightarrow> string list option" where
  "normalize_opponent_classes v =
     bind (case v of PList xs \<Rightarrow> Some xs | PTuple xs \<Rightarrow> Some xs | _ \<Rightarrow> None)
       (\<lambda>cs. if cs = [] then None else all_some (map normalize_hero_class cs))"

definition optional_atoms :: "bool \<Rightarrow> string list option \<Rightarrow> string list option" where
  \<comment> \<open>\<open>if present: ...\<close>, where a conversion that gives \<open>None\<close> ends the function\<close>
  "optional_atoms present found = (if present then found else Some [])"

definition structured_atoms :: "dict \<Rightarrow> string list option" where
  \<comment> \<open>\<open>_atoms_from_structured_condition\<close>; \<open>None\<close> stands for \<open>([], "unsupported_condition")\<close>\<close>
  "structured_atoms d =
     bind (all_some
       [optional_atoms (dget d ''coin'' = PBool True) (Some [''coin'']),
        optional_atoms (dget d ''nocoin'' = PBool True) (Some [''nocoin'']),
        optional_atoms (truthy (dget d ''opponent_class''))
          (map_option (\<lambda>c. [''opp_hero(count(),'' @ c @ ''=true) > 0'']) (normalize_hero_class (dget d ''opponent_class''))),
        optional_atoms (dhas d ''opponent_classes'')
          (map_option (\<lambda>cs. [''opp_hero(count(), hero_class='' @ join '' | '' cs @ '' ) > 0''])
             (normalize_opponent_classes (dget d ''opponent_classes''))),
        optional_atoms (dhas d ''hand_contains'') (map_option (\<lambda>a. [a]) (card_id_atom (dget d ''hand_contains''))),
        optional_atoms (dhas d ''combo_partner'') (map_option (\<lambda>a. [a]) (card_id_atom (dget d ''combo_partner''))),
        optional_atoms (dhas d ''hand_contains_any'') (card_id_atoms (dget d ''hand_contains_any''))])
       (\<lambda>parts. let atoms = concat parts in if list_all is_atom_safe atoms then Some atoms else None)"

definition lower_structured :: "dict \<Rightarrow> string \<times> string option" where
  \<comment> \<open>the branch of \<open>_lower\<close> for a dict without the key \<open>runtime_condition\<close>\<close>
  "lower_structured d =
     (let keys = dkeys d;
          structured = filter (\<lambda>k. k \<in> set STRUCTURED_RUNTIME_CONDITION_KEYS) keys in
      if list_all (\<lambda>k. k \<in> set REPORT_ONLY_CONDITION_KEYS) keys then (''*'', None)
      else if \<not> list_all (\<lambda>k. k \<in> set REPORT_ONLY_CONDITION_KEYS \<union> set STRUCTURED_RUNTIME_CONDITION_KEYS) keys then
        (''*'', Some UNSUPPORTED)
      else if dhas d ''hand_contains_any'' \<and> length structured > 1 then (''*'', Some UNSUPPORTED)
      else
        (case structured_atoms d of
           None \<Rightarrow> (''*'', Some UNSUPPORTED)
         | Some atoms \<Rightarrow>
             if atoms = [] then (''*'', Some UNSUPPORTED)
             else (join (if dhas d ''hand_contains_any'' then '' OR '' else '' AND '') atoms, None)))"

fun lower_condition :: "pyval \<Rightarrow> string \<times> string option"
  and lower_runtime_item :: "(string \<times> pyval) list \<Rightarrow> string \<times> string option" where
  \<comment> \<open>\<open>_lower\<close>; the second function descends into the value of \<open>runtime_condition\<close>\<close>
  "lower_condition PNone = (''*'', None)"
| "lower_condition (PStr s) =
     (let cleaned = squeeze s in (if cleaned = [] then ''*'' else cleaned, None))"
| "lower_condition (PDict d) =
     (if d = [] then (''*'', None)
      else if dhas d ''runtime_condition'' then
        (if list_all (\<lambda>k. k = ''runtime_condition'') (dkeys d) then lower_runtime_item d
         else (''*'', Some UNSUPPORTED))
      else lower_structured d)"
| "lower_condition (PBool b) = (''*'', Some UNSUPPORTED)"
| "lower_condition (PInt i) = (''*'', Some UNSUPPORTED)"
| "lower_condition (PList xs) = (''*'', Some UNSUPPORTED)"
| "lower_condition (PTuple xs) = (''*'', Some UNSUPPORTED)"
| "lower_runtime_item [] = (''*'', None)"
| "lower_runtime_item ((k, v) # d) = lower_condition v"

record lowered_condition =
  lowered_value :: string
  lowered_status :: string
  lowered_reason :: "string option"

definition classify_runtime_condition :: "pyval \<Rightarrow> lowered_condition" where
  "classify_runtime_condition v =
     (case lower_condition v of
        (lowered, Some reason) \<Rightarrow>
          \<lparr>lowered_value = lowered, lowered_status = ''unsupported'', lowered_reason = Some reason\<rparr>
      | (lowered, None) \<Rightarrow>
          if is_runtime_safe lowered then
            \<lparr>lowered_value = lowered, lowered_status = ''runtime_safe'', lowered_reason = None\<rparr>
          else \<lparr>lowered_value = ''*'', lowered_status = ''unsupported'', lowered_reason = Some UNSUPPORTED\<rparr>)"

definition lower_runtime_condition :: "pyval \<Rightarrow> string \<times> string option" where
  "lower_runtime_condition v =
     (let c = classify_runtime_condition v in
      if lowered_status c = ''runtime_safe'' then (lowered_value c, None) else (lowered_value c, lowered_reason c))"

section \<open>Domains\<close>

function split_text :: "string \<Rightarrow> string \<Rightarrow> string \<Rightarrow> string list" where
  \<comment> \<open>\<open>text.split(sep)\<close> for a separator of several characters, with the part read so far\<close>
  "split_text sep acc [] = [acc]"
| "split_text sep acc (c # cs) =
     (if sep \<noteq> [] \<and> starts_with sep (c # cs) then acc # split_text sep [] (drop (length sep) (c # cs))
      else split_text sep (acc @ [c]) cs)"
  by pat_completeness auto
termination
  by (relation "measure (\<lambda>(sep, acc, t). length t)") auto

definition full_match :: "('a \<times> string) option \<Rightarrow> 'a option" where
  "full_match m = bind m (\<lambda>(x, r). if r = [] then Some x else None)"

definition atom_domain :: "string \<Rightarrow> (string \<times> string list) option" where
  \<comment> \<open>the body of the loop of \<open>required_condition_domains\<close>; a set is a list of its elements\<close>
  "atom_domain atom =
     (if atom = ''coin'' \<or> atom = ''nocoin'' then Some (''coin'', [atom])
      else (case full_match (hand_count_pattern atom) of
              Some n \<Rightarrow> Some (''hand_count'', [nat_digits (digits_value n)])
            | None \<Rightarrow>
                (case full_match (class_atom_pattern atom) of
                   Some c \<Rightarrow> Some (''opponent_class'', [c])
                 | None \<Rightarrow> map_option (\<lambda>cs. (''opponent_class'', cs)) (full_match (classes_atom_pattern atom)))))"

type_synonym domains = "(string \<times> string list) list"

definition meet :: "string list \<Rightarrow> string list \<Rightarrow> string list" where
  "meet xs ys = filter (\<lambda>x. x \<in> set ys) xs"

definition add_domain :: "domains \<Rightarrow> string \<Rightarrow> domains" where
  "add_domain ds atom =
     (case atom_domain atom of
        None \<Rightarrow> ds
      | Some (key, allowed) \<Rightarrow> dput key (meet (dget_or ds key allowed) allowed) ds)"

definition required_condition_domains :: "string \<Rightarrow> domains" where
  "required_condition_domains condition =
     (if contains '' OR '' condition then [] else foldl add_domain [] (split_text '' AND '' [] condition))"

definition runtime_condition_is_provably_impossible :: "string \<Rightarrow> bool" where
  "runtime_condition_is_provably_impossible condition =
     list_ex (\<lambda>(key, allowed). allowed = []) (required_condition_domains condition)"

definition runtime_conditions_are_provably_disjoint :: "string \<Rightarrow> string \<Rightarrow> bool" where
  "runtime_conditions_are_provably_disjoint left right =
     (let l = required_condition_domains left; r = required_condition_domains right in
      list_ex (\<lambda>key. dhas r key \<and> meet (dget_or l key []) (dget_or r key []) = []) (dkeys l))"

section \<open>Whitespace\<close>

definition word :: "string \<Rightarrow> bool" where
  "word w = (w \<noteq> [] \<and> list_all (\<lambda>c. \<not> is_space c) w)"

lemma words_acc_words:
  "list_all (\<lambda>c. \<not> is_space c) acc \<Longrightarrow> list_all word (words_acc is_space acc t)"
  by (induction is_space acc t rule: words_acc.induct) (auto simp: word_def)

lemma words_acc_word: "list_all (\<lambda>c. \<not> is_space c) w \<Longrightarrow>
    words_acc is_space acc (w @ t) = words_acc is_space (acc @ w) t"
  by (induction w arbitrary: acc) auto

lemma split_ws_join: "list_all word vs \<Longrightarrow> split_ws (join '' '' vs) = vs"
proof (induction vs)
  case (Cons w vs)
  have blank: "is_space CHR '' ''" by (simp add: is_space_def code_def)
  from Cons have w: "w \<noteq> []" "list_all (\<lambda>c. \<not> is_space c) w" by (auto simp: word_def)
  from Cons show ?case
    using words_acc_word [OF w(2), of "[]" "[]"] words_acc_word [OF w(2), of "[]" "'' '' @ join '' '' vs"] w(1) blank
    by (auto simp: split_ws_def join_Cons)
qed (simp add: split_ws_def)

lemma join_clean: "list_all word vs \<Longrightarrow> clean is_space (join '' '' vs)"
proof (induction vs)
  case (Cons w vs)
  then show ?case
    by (cases vs) (auto simp: clean_def join_Cons word_def list_all_iff)
qed (simp add: clean_def)

lemma squeeze_idem [simp]: "squeeze (squeeze t) = squeeze t"
proof -
  have words: "list_all word (split_ws (strip t))" unfolding split_ws_def by (rule words_acc_words) simp
  have "strip (squeeze t) = squeeze t"
    using join_clean [OF words] by (simp add: squeeze_def strip_def strip_by_clean_iff)
  then show ?thesis by (simp add: squeeze_def split_ws_join [OF words])
qed

lemma is_runtime_safe_squeeze: "is_runtime_safe (squeeze t) = is_runtime_safe t"
  by (simp add: is_runtime_safe_def)

lemma not_safe_Nil: "\<not> is_runtime_safe t" if "squeeze t = []"
  using that by (simp add: is_runtime_safe_def is_atom_safe_def) code_simp

section \<open>What the domains say\<close>

lemma set_meet [simp]: "set (meet xs ys) = set xs \<inter> set ys"
  by (auto simp: meet_def)

lemma meet_empty: "meet xs ys = [] \<longleftrightarrow> set xs \<inter> set ys = {}"
  by (metis set_empty set_meet)

definition allows :: "(string \<Rightarrow> string) \<Rightarrow> domains \<Rightarrow> bool" where
  \<comment> \<open>the facts lie in the domains\<close>
  "allows observe ds = list_all (\<lambda>(key, allowed). observe key \<in> set allowed) ds"

lemma allows_get: "allows observe ds \<Longrightarrow> map_of ds k = Some allowed \<Longrightarrow> observe k \<in> set allowed"
  by (auto simp: allows_def list_all_iff dest: map_of_SomeD)

lemma allows_iff: "wf_dict ds \<Longrightarrow> allows observe ds \<longleftrightarrow> (\<forall>k allowed. map_of ds k = Some allowed \<longrightarrow> observe k \<in> set allowed)"
  by (auto simp: allows_def list_all_iff wf_dict_def)

lemma wf_add_domain: "wf_dict ds \<Longrightarrow> wf_dict (add_domain ds a)"
  by (auto simp: add_domain_def split: option.splits)

lemma allows_add_domain:
  assumes "wf_dict ds"
  shows "allows observe (add_domain ds a) \<longleftrightarrow>
    allows observe ds \<and> (case atom_domain a of None \<Rightarrow> True | Some (k, allowed) \<Rightarrow> observe k \<in> set allowed)"
proof (cases "atom_domain a")
  case (Some ka)
  obtain k allowed where ka: "ka = (k, allowed)" by force
  show ?thesis
    using assms Some ka
    by (auto simp: add_domain_def allows_iff dget_or_def split: option.splits if_splits)
qed (simp add: add_domain_def)

lemma allows_fold:
  "wf_dict ds \<Longrightarrow> allows observe (foldl add_domain ds atoms) \<longleftrightarrow>
     allows observe ds \<and> list_all (\<lambda>a. case atom_domain a of None \<Rightarrow> True | Some (k, allowed) \<Rightarrow> observe k \<in> set allowed) atoms"
  by (induction atoms arbitrary: ds) (auto simp: allows_add_domain wf_add_domain)

lemma wf_fold: "wf_dict ds \<Longrightarrow> wf_dict (foldl add_domain ds atoms)"
  by (induction atoms arbitrary: ds) (simp_all add: wf_add_domain)

lemma wf_domains: "wf_dict (required_condition_domains c)"
  by (auto simp: required_condition_domains_def intro!: wf_fold) (simp_all add: wf_dict_def)

lemma impossible_iff:
  "runtime_condition_is_provably_impossible c \<longleftrightarrow>
     (\<exists>k. map_of (required_condition_domains c) k = Some [])"
  using wf_domains [of c]
  by (auto simp: runtime_condition_is_provably_impossible_def list_ex_iff wf_dict_def dest: map_of_SomeD)

lemma disjoint_iff:
  "runtime_conditions_are_provably_disjoint l r \<longleftrightarrow>
     (\<exists>k xs ys. map_of (required_condition_domains l) k = Some xs
        \<and> map_of (required_condition_domains r) k = Some ys \<and> set xs \<inter> set ys = {})"
proof -
  let ?l = "required_condition_domains l" and ?r = "required_condition_domains r"
  have key: "k \<in> set (dkeys ds) \<longleftrightarrow> (\<exists>xs. map_of ds k = Some xs)" for k and ds :: domains
    by (metis dkeys_set map_of_eq_None_iff not_None_eq)
  have "runtime_conditions_are_provably_disjoint l r \<longleftrightarrow>
      (\<exists>k. k \<in> set (dkeys ?l) \<and> dhas ?r k \<and> set (dget_or ?l k []) \<inter> set (dget_or ?r k []) = {})"
    by (auto simp: runtime_conditions_are_provably_disjoint_def Let_def list_ex_iff meet_empty simp del: dkeys_set)
  also have "\<dots> \<longleftrightarrow> (\<exists>k xs ys. map_of ?l k = Some xs \<and> map_of ?r k = Some ys \<and> set xs \<inter> set ys = {})"
    unfolding key dhas_dkeys by (rule ex_cong1) (auto simp: dget_or_def)
  finally show ?thesis .
qed

locale condition_semantics =
  fixes holds_atom :: "'g \<Rightarrow> string \<Rightarrow> bool"
    and observe :: "'g \<Rightarrow> string \<Rightarrow> string"
  assumes atom_exact: "atom_domain a = Some (k, allowed) \<Longrightarrow> holds_atom g a \<longleftrightarrow> observe g k \<in> set allowed"
begin

definition conjunction_holds :: "'g \<Rightarrow> string \<Rightarrow> bool" where
  "conjunction_holds g c = list_all (holds_atom g) (split_text '' AND '' [] c)"

lemma conjunction_allows:
  assumes "conjunction_holds g c"
  shows "allows (observe g) (required_condition_domains c)"
  using assms
  by (auto simp: required_condition_domains_def conjunction_holds_def allows_fold wf_dict_def list_all_iff atom_exact
      split: option.splits) (simp_all add: allows_def)

lemma conjunction_exact:
  assumes "\<not> contains '' OR '' c" and "list_all (\<lambda>a. atom_domain a \<noteq> None) (split_text '' AND '' [] c)"
  shows "conjunction_holds g c \<longleftrightarrow> allows (observe g) (required_condition_domains c)"
proof -
  have "holds_atom g a \<longleftrightarrow> (case atom_domain a of None \<Rightarrow> True | Some (k, allowed) \<Rightarrow> observe g k \<in> set allowed)"
    if "a \<in> set (split_text '' AND '' [] c)" for a
    using that assms(2) by (cases "atom_domain a") (auto simp: list_all_iff atom_exact)
  then have "conjunction_holds g c \<longleftrightarrow> list_all (\<lambda>a. case atom_domain a of None \<Rightarrow> True
      | Some (k, allowed) \<Rightarrow> observe g k \<in> set allowed) (split_text '' AND '' [] c)"
    by (simp add: conjunction_holds_def list_all_iff)
  also have "\<dots> \<longleftrightarrow> allows (observe g) (required_condition_domains c)"
    using assms(1) by (simp add: required_condition_domains_def allows_fold wf_dict_def) (simp add: allows_def)
  finally show ?thesis .
qed

lemma impossible_sound:
  assumes "runtime_condition_is_provably_impossible c"
  shows "\<not> conjunction_holds g c"
proof
  assume "conjunction_holds g c"
  note allowed = conjunction_allows [OF this]
  from assms obtain k where "map_of (required_condition_domains c) k = Some []" by (auto simp: impossible_iff)
  from allows_get [OF allowed this] show False by simp
qed

lemma disjoint_sound:
  assumes "runtime_conditions_are_provably_disjoint l r"
  shows "\<not> (conjunction_holds g l \<and> conjunction_holds g r)"
proof
  assume "conjunction_holds g l \<and> conjunction_holds g r"
  then have l: "allows (observe g) (required_condition_domains l)"
    and r: "allows (observe g) (required_condition_domains r)"
    by (auto intro: conjunction_allows)
  from assms obtain k xs ys where "map_of (required_condition_domains l) k = Some xs"
    "map_of (required_condition_domains r) k = Some ys" "set xs \<inter> set ys = {}"
    by (auto simp: disjoint_iff)
  with allows_get [OF l, of k xs] allows_get [OF r, of k ys] show False by auto
qed

end

record game_facts =
  has_coin :: bool
  hand_size :: nat
  opponent :: string
  other_facts :: "string \<Rightarrow> bool"

definition atom_holds :: "game_facts \<Rightarrow> string \<Rightarrow> bool" where
  \<comment> \<open>the meaning of an atom in a game; the atoms without a domain may mean anything\<close>
  "atom_holds g a =
     (if a = ''coin'' then has_coin g
      else if a = ''nocoin'' then \<not> has_coin g
      else (case full_match (hand_count_pattern a) of
              Some n \<Rightarrow> hand_size g = digits_value n
            | None \<Rightarrow>
                (case full_match (class_atom_pattern a) of
                   Some c \<Rightarrow> opponent g = c
                 | None \<Rightarrow> (case full_match (classes_atom_pattern a) of
                              Some cs \<Rightarrow> opponent g \<in> set cs
                            | None \<Rightarrow> other_facts g a))))"

definition game_fact :: "game_facts \<Rightarrow> string \<Rightarrow> string" where
  "game_fact g k =
     (if k = ''coin'' then (if has_coin g then ''coin'' else ''nocoin'')
      else if k = ''hand_count'' then nat_digits (hand_size g) else opponent g)"

lemma nat_digits_inject [simp]: "nat_digits m = nat_digits n \<longleftrightarrow> m = n"
  by (metis digits_value_nat_digits)

lemma atom_holds_domain:
  assumes "atom_domain a = Some (k, allowed)"
  shows "atom_holds g a \<longleftrightarrow> game_fact g k \<in> set allowed"
proof (cases "a = ''coin'' \<or> a = ''nocoin''")
  case True
  with assms have "k = ''coin''" "allowed = [a]" by (simp_all add: atom_domain_def)
  with True show ?thesis by (auto simp: atom_holds_def game_fact_def)
next
  case False
  show ?thesis
  proof (cases "full_match (hand_count_pattern a)")
    case (Some n)
    with False assms have "k = ''hand_count''" "allowed = [nat_digits (digits_value n)]"
      by (simp_all add: atom_domain_def)
    with False Some show ?thesis by (simp add: atom_holds_def game_fact_def)
  next
    case None
    with False assms have "k = ''opponent_class''" by (auto simp: atom_domain_def split: option.splits)
    then have k: "game_fact g k = opponent g" by (simp add: game_fact_def)
    from None False assms show ?thesis
      unfolding k by (auto simp: atom_domain_def atom_holds_def split: option.splits)
  qed
qed

interpretation game: condition_semantics atom_holds game_fact
  by unfold_locales (rule atom_holds_domain)

definition condition_holds :: "game_facts \<Rightarrow> string \<Rightarrow> bool" where
  \<comment> \<open>a condition with \<open>OR\<close> may mean anything, so that nothing is assumed of mixed operators\<close>
  "condition_holds g c =
     (if contains '' OR '' c then other_facts g c else list_all (atom_holds g) (split_text '' AND '' [] c))"

definition recognised :: "string \<Rightarrow> bool" where
  "recognised c = (\<not> contains '' OR '' c \<and> list_all (\<lambda>a. atom_domain a \<noteq> None) (split_text '' AND '' [] c))"

lemma condition_holds_conj: "\<not> contains '' OR '' c \<Longrightarrow> condition_holds g c = game.conjunction_holds g c"
  by (simp add: condition_holds_def game.conjunction_holds_def)

lemma no_domains: "contains '' OR '' c \<Longrightarrow> required_condition_domains c = []"
  by (simp add: required_condition_domains_def)

definition key_values :: "string \<Rightarrow> string set" where
  \<comment> \<open>the values that a domain of a key can hold\<close>
  "key_values k =
     (if k = ''coin'' then {''coin'', ''nocoin''} else if k = ''hand_count'' then range nat_digits
      else if k = ''opponent_class'' then UNIV else {})"

definition key_known :: "string \<Rightarrow> bool" where
  "key_known k = (k \<in> {''coin'', ''hand_count'', ''opponent_class''})"

lemma atom_domain_typed: "atom_domain a = Some (k, xs) \<Longrightarrow> key_known k \<and> set xs \<subseteq> key_values k"
  by (auto simp: atom_domain_def key_known_def key_values_def split: if_splits option.splits)

definition typed_domains :: "domains \<Rightarrow> bool" where
  "typed_domains ds = (\<forall>k xs. map_of ds k = Some xs \<longrightarrow> key_known k \<and> set xs \<subseteq> key_values k)"

lemma typed_add: "typed_domains ds \<Longrightarrow> typed_domains (add_domain ds a)"
  by (auto simp: add_domain_def typed_domains_def split: option.splits if_splits dest!: atom_domain_typed)

lemma typed_fold: "typed_domains ds \<Longrightarrow> typed_domains (foldl add_domain ds atoms)"
  by (induction atoms arbitrary: ds) (auto intro: typed_add)

lemma typed_required: "typed_domains (required_condition_domains c)"
  by (auto simp: required_condition_domains_def intro!: typed_fold) (simp_all add: typed_domains_def)

lemma joint_value:
  assumes "\<not> runtime_condition_is_provably_impossible l" and "\<not> runtime_condition_is_provably_impossible r"
    and "\<not> runtime_conditions_are_provably_disjoint l r" and "key_known k"
  shows "\<exists>v \<in> key_values k. (\<forall>xs. map_of (required_condition_domains l) k = Some xs \<longrightarrow> v \<in> set xs)
    \<and> (\<forall>xs. map_of (required_condition_domains r) k = Some xs \<longrightarrow> v \<in> set xs)"
proof -
  have typed: "map_of (required_condition_domains c) k = Some xs \<Longrightarrow> set xs \<subseteq> key_values k" for c xs
    using typed_required [of c] by (auto simp: typed_domains_def)
  have some: "key_values k \<noteq> {}" using assms(4) by (auto simp: key_known_def key_values_def)
  have ne: "map_of (required_condition_domains l) k = Some xs \<Longrightarrow> set xs \<noteq> {}"
    "map_of (required_condition_domains r) k = Some xs \<Longrightarrow> set xs \<noteq> {}" for xs
    using assms(1,2) by (auto simp: impossible_iff)
  have meet: "map_of (required_condition_domains l) k = Some xs \<Longrightarrow> map_of (required_condition_domains r) k = Some ys
      \<Longrightarrow> set xs \<inter> set ys \<noteq> {}" for xs ys
    using assms(3) by (auto simp: disjoint_iff)
  show ?thesis
  proof (cases "map_of (required_condition_domains l) k"; cases "map_of (required_condition_domains r) k")
    assume "map_of (required_condition_domains l) k = None" "map_of (required_condition_domains r) k = None"
    then show ?thesis using some by auto
  next
    fix xs assume "map_of (required_condition_domains l) k = None" "map_of (required_condition_domains r) k = Some xs"
    then show ?thesis using ne(2) [of xs] typed [of r xs] by (intro bexI [of _ "hd xs"]) auto
  next
    fix xs assume "map_of (required_condition_domains l) k = Some xs" "map_of (required_condition_domains r) k = None"
    then show ?thesis using ne(1) [of xs] typed [of l xs] by (intro bexI [of _ "hd xs"]) auto
  next
    fix xs ys assume "map_of (required_condition_domains l) k = Some xs" "map_of (required_condition_domains r) k = Some ys"
    then show ?thesis using meet [of xs ys] typed [of l xs] by auto
  qed
qed

lemma joint_game:
  assumes "\<not> runtime_condition_is_provably_impossible l" and "\<not> runtime_condition_is_provably_impossible r"
    and "\<not> runtime_conditions_are_provably_disjoint l r"
  shows "\<exists>g. allows (game_fact g) (required_condition_domains l) \<and> allows (game_fact g) (required_condition_domains r)"
proof -
  let ?in = "\<lambda>k v. (\<forall>xs. map_of (required_condition_domains l) k = Some xs \<longrightarrow> v \<in> set xs)
    \<and> (\<forall>xs. map_of (required_condition_domains r) k = Some xs \<longrightarrow> v \<in> set xs)"
  obtain c where c: "c = ''coin'' \<or> c = ''nocoin''" "?in ''coin'' c"
    using joint_value [OF assms, of "''coin''"] by (auto simp: key_known_def key_values_def)
  obtain n where n: "?in ''hand_count'' (nat_digits n)"
    using joint_value [OF assms, of "''hand_count''"] by (auto simp: key_known_def key_values_def)
  obtain w where w: "?in ''opponent_class'' w"
    using joint_value [OF assms, of "''opponent_class''"] by (auto simp: key_known_def key_values_def)
  define g where "g = \<lparr>has_coin = (c = ''coin''), hand_size = n, opponent = w, other_facts = \<lambda>_. False\<rparr>"
  have fact: "game_fact g ''coin'' = c" "game_fact g ''hand_count'' = nat_digits n" "game_fact g ''opponent_class'' = w"
    using c(1) by (auto simp: game_fact_def g_def)
  have "?in k (game_fact g k)" if "key_known k" for k
    using that c(2) n w fact by (auto simp: key_known_def)
  moreover have "map_of (required_condition_domains cond) k = Some xs \<Longrightarrow> key_known k" for cond k xs
    using typed_required [of cond] by (auto simp: typed_domains_def)
  ultimately show ?thesis by (intro exI [of _ g]) (auto simp: allows_iff [OF wf_domains])
qed

section \<open>Properties\<close>

text \<open>
  C34. The tests for conditions that exclude each other are sound: no game satisfies a condition
  that is called impossible, or both of two conditions that are called disjoint. A condition with
  an \<open>OR\<close> and an atom that the tests do not know may mean anything.
\<close>
theorem exclusion_sound:
  "(runtime_condition_is_provably_impossible l \<longrightarrow> \<not> condition_holds g l)
   \<and> (runtime_conditions_are_provably_disjoint l r \<longrightarrow> \<not> (condition_holds g l \<and> condition_holds g r))"
proof (intro conjI impI)
  assume i: "runtime_condition_is_provably_impossible l"
  then have "\<not> contains '' OR '' l" by (auto simp: impossible_iff no_domains)
  with game.impossible_sound [OF i] show "\<not> condition_holds g l" by (simp add: condition_holds_conj)
next
  assume d: "runtime_conditions_are_provably_disjoint l r"
  then have "\<not> contains '' OR '' l" "\<not> contains '' OR '' r" by (auto simp: disjoint_iff no_domains)
  with game.disjoint_sound [OF d] show "\<not> (condition_holds g l \<and> condition_holds g r)"
    by (simp add: condition_holds_conj)
qed

text \<open>
  C35. On conjunctions of atoms that the tests know they are exact: there is a game in which both
  conditions hold exactly if neither is called impossible and they are not called disjoint.
\<close>
theorem exclusion_exact:
  assumes "recognised l" and "recognised r"
  shows "(\<exists>g. condition_holds g l \<and> condition_holds g r) \<longleftrightarrow>
    \<not> runtime_condition_is_provably_impossible l \<and> \<not> runtime_condition_is_provably_impossible r
    \<and> \<not> runtime_conditions_are_provably_disjoint l r"
proof -
  have holds: "condition_holds g c \<longleftrightarrow> allows (game_fact g) (required_condition_domains c)" if "recognised c" for g c
    using that game.conjunction_exact [of c g] by (simp add: condition_holds_conj recognised_def)
  have conj: "condition_holds g c \<longleftrightarrow> game.conjunction_holds g c" if "recognised c" for g c
    using that by (simp add: condition_holds_conj recognised_def)
  show ?thesis
    using joint_game [of l r] game.impossible_sound [of l] game.impossible_sound [of r] game.disjoint_sound [of l r]
    by (metis assms holds conj)
qed

text \<open>
  C36. A condition that is lowered without a reason is safe, and lowering its text again accepts
  it and gives the same text with single blanks.
\<close>
theorem lowered_condition_safe:
  assumes "lower_runtime_condition v = (t, None)"
  shows "is_runtime_safe t \<and> lower_runtime_condition (PStr t) = (squeeze t, None)"
proof -
  have safe: "is_runtime_safe t"
    using assms
    by (auto simp: lower_runtime_condition_def classify_runtime_condition_def Let_def
        split: prod.splits option.splits if_splits)
  then have "squeeze t \<noteq> []" "is_runtime_safe (squeeze t)" using not_safe_Nil is_runtime_safe_squeeze by blast+
  with safe show ?thesis
    by (simp add: lower_runtime_condition_def classify_runtime_condition_def)
qed

text \<open>
  The text of an accepted condition is not always the one of its check: the class of an
  opponent may end in a line feed, which the check replaces by a blank but the result keeps.
\<close>
theorem accepted_condition_with_line_feed:
  "let v = PDict [(''opponent_classes'', PList [PStr (''mage'' @ [CHR 0x0A])])];
       t = ''opp_hero(count(), hero_class=mage'' @ [CHR 0x0A] @ '' ) > 0'' in
   lower_runtime_condition v = (t, None) \<and> squeeze t \<noteq> t"
  by code_simp

theorem exclusion_exact_witness:
  "(\<exists>g. condition_holds g ''coin AND my_hand(count()) == 07'' \<and> condition_holds g ''my_hand(count()) == 7'')
   \<and> \<not> (\<exists>g. condition_holds g ''coin'' \<and> condition_holds g ''nocoin'')"
proof -
  have r: "recognised ''coin AND my_hand(count()) == 07''" "recognised ''my_hand(count()) == 7''"
    "recognised ''coin''" "recognised ''nocoin''"
    by code_simp+
  have e: "\<not> runtime_condition_is_provably_impossible ''coin AND my_hand(count()) == 07''"
    "\<not> runtime_condition_is_provably_impossible ''my_hand(count()) == 7''"
    "\<not> runtime_conditions_are_provably_disjoint ''coin AND my_hand(count()) == 07'' ''my_hand(count()) == 7''"
    "runtime_conditions_are_provably_disjoint ''coin'' ''nocoin''"
    by code_simp+
  show ?thesis
    using exclusion_exact [OF r(1,2)] exclusion_exact [OF r(3,4)] e by blast
qed

theorem exclusion_sound_witness:
  "\<not> (\<exists>g. condition_holds g ''coin AND my_hand(count()) == 7'' \<and> condition_holds g ''my_hand(count()) == 8'')"
proof -
  have "runtime_conditions_are_provably_disjoint ''coin AND my_hand(count()) == 7'' ''my_hand(count()) == 8''"
    by code_simp
  with exclusion_sound [of "''coin AND my_hand(count()) == 7''" _ "''my_hand(count()) == 8''"] show ?thesis by blast
qed

theorem lowered_condition_safe_witness:
  "is_runtime_safe ''coin AND my_hand(count(),cardid=A_1) > 0''
   \<and> lower_runtime_condition (PStr ''coin AND my_hand(count(),cardid=A_1) > 0'')
       = (squeeze ''coin AND my_hand(count(),cardid=A_1) > 0'', None)"
proof -
  have "lower_runtime_condition (PDict [(''coin'', PBool True), (''hand_contains'', PStr ''A_1'')])
      = (''coin AND my_hand(count(),cardid=A_1) > 0'', None)"
    by code_simp
  then show ?thesis by (rule lowered_condition_safe)
qed

end
