(* ===== verification/RuntimeRows.thy ===== *)
theory RuntimeRows
  imports JsonCodec
begin

text \<open>
  Runtime rows of cards: merging duplicate rows and finding contradicting ones
  (\<open>src/src/hsconfig/runtime_row_identity.py\<close>), and the owner of a runtime entity
  (\<open>src/src/hsconfig/runtime_entity_owner.py\<close>). A row is a dict; the sets that Python code could
  pass as its values are outside of \<open>pyval\<close>.
\<close>

section \<open>Grouping\<close>

definition add_to_group :: "('r \<Rightarrow> 'k) \<Rightarrow> 'r \<Rightarrow> ('k \<times> 'r list) list \<Rightarrow> ('k \<times> 'r list) list" where
  \<comment> \<open>\<open>groups[key(row)].append(row)\<close> on a \<open>defaultdict(list)\<close>\<close>
  "add_to_group key row groups = dput (key row) (dget_or groups (key row) [] @ [row]) groups"

definition group_by :: "('r \<Rightarrow> 'k) \<Rightarrow> 'r list \<Rightarrow> ('k \<times> 'r list) list" where
  "group_by key rows = fold (add_to_group key) rows []"

lemma group_by_snoc: "group_by key (rows @ [r]) = add_to_group key r (group_by key rows)"
  by (simp add: group_by_def)

lemma wf_group_by [simp]: "wf_dict (group_by key rows)"
  by (induction rows rule: rev_induct) (auto simp: group_by_snoc add_to_group_def, simp add: group_by_def wf_dict_def)

lemma map_of_group_by:
  "map_of (group_by key rows) k = (let g = filter (\<lambda>r. key r = k) rows in if g = [] then None else Some g)"
  by (induction rows rule: rev_induct)
    (auto simp: group_by_snoc add_to_group_def dget_or_def Let_def, simp add: group_by_def)

lemma in_group_by: "(k, g) \<in> set (group_by key rows) \<longleftrightarrow> g = filter (\<lambda>r. key r = k) rows \<and> g \<noteq> []"
proof -
  have "(k, g) \<in> set (group_by key rows) \<longleftrightarrow> map_of (group_by key rows) k = Some g"
    using wf_group_by [of key rows] by (simp add: wf_dict_def)
  also have "\<dots> \<longleftrightarrow> g = filter (\<lambda>r. key r = k) rows \<and> g \<noteq> []"
    by (auto simp: map_of_group_by Let_def)
  finally show ?thesis .
qed

lemma keys_group_by: "fst ` set (group_by key rows) = key ` set rows"
proof -
  have "k \<in> fst ` set (group_by key rows) \<longleftrightarrow> k \<in> key ` set rows" for k
    by (auto simp: map_of_group_by Let_def filter_empty_conv image_iff in_group_by simp del: dkeys_set)
      (metis (mono_tags, lifting) fst_conv in_group_by filter_empty_conv)
  then show ?thesis by blast
qed

definition group_size :: "('k \<times> 'r list) list \<Rightarrow> nat" where
  "group_size gs = sum_list (map (\<lambda>(k, g). length g) gs)"

lemma group_size_dput: "group_size (dput k v gs) + length (dget_or gs k []) = group_size gs + length v"
  by (induction gs) (auto simp: group_size_def dget_or_def)

lemma group_size_group_by: "group_size (group_by key rows) = length rows"
proof (induction rows rule: rev_induct)
  case (snoc r rows)
  with group_size_dput [of "key r" "dget_or (group_by key rows) (key r) [] @ [r]" "group_by key rows"] show ?case
    by (simp add: group_by_snoc add_to_group_def)
qed (simp add: group_by_def group_size_def)

fun first_min :: "('r \<Rightarrow> 'k::linorder) \<Rightarrow> 'r \<Rightarrow> 'r list \<Rightarrow> 'r" where
  \<comment> \<open>\<open>min(rows, key=key)\<close>: the first row with the least key\<close>
  "first_min key r [] = r"
| "first_min key r (x # xs) = first_min key (if key x < key r then x else r) xs"

lemma first_min_in: "first_min key r xs \<in> set (r # xs)"
proof (induction xs arbitrary: r)
  case (Cons x xs)
  show ?case using Cons.IH [of "if key x < key r then x else r"] by auto
qed simp

section \<open>Rows\<close>

type_synonym runtime_row_key = "string \<times> string \<times> string"
type_synonym runtime_row_signature = "string \<times> string \<times> string \<times> string"

definition or_any :: "string \<Rightarrow> string" where
  "or_any s = (if s = [] then ''*'' else s)"

definition runtime_row_key :: "pyval \<Rightarrow> pyval \<Rightarrow> dict \<Rightarrow> runtime_row_key" where
  "runtime_row_key card_id behavior_block row =
     (strip (py_str card_id), strip (py_str behavior_block),
      or_any (strip (py_str (dget_or row ''condition'' (PStr ''*'')))))"

definition runtime_row_signature :: "pyval \<Rightarrow> pyval \<Rightarrow> dict \<Rightarrow> runtime_row_signature res" where
  "runtime_row_signature card_id behavior_block row =
     (let (c, b, d) = runtime_row_key card_id behavior_block row in
      rbind (getitem row ''value'') (\<lambda>v. Inr (c, b, d, strip (py_str v))))"

definition normalize_row :: "dict \<Rightarrow> dict res" where
  \<comment> \<open>the body of the first loop of \<open>canonicalize_runtime_rows\<close>\<close>
  "normalize_row row =
     (let (c, b, d) = runtime_row_key (dget_or row ''card_id'' (PStr [])) (dget_or row ''behavior_block'' (PStr [])) row;
          normalized = dput ''condition'' (PStr d) (dput ''behavior_block'' (PStr b) (dput ''card_id'' (PStr c) row)) in
      rbind (getitem normalized ''value'') (\<lambda>v. Inr (dput ''value'' (PStr (strip (py_str v))) normalized)))"

definition row_key :: "dict \<Rightarrow> runtime_row_key" where
  "row_key row = runtime_row_key (dget row ''card_id'') (dget row ''behavior_block'') row"

definition row_value :: "dict \<Rightarrow> string" where
  "row_value row = py_str (dget row ''value'')"

definition row_signature :: "dict \<Rightarrow> runtime_row_signature" where
  \<comment> \<open>the signature of a row that has a value\<close>
  "row_signature row = (let (c, b, d) = row_key row in (c, b, d, strip (row_value row)))"

section \<open>Merged fields\<close>

definition claim_texts :: "pyval list \<Rightarrow> string list" where
  \<comment> \<open>the non-empty stripped texts of the elements\<close>
  "claim_texts vs = filter (\<lambda>s. s \<noteq> []) (map (\<lambda>v. strip (py_str v)) vs)"

definition listed :: "dict \<Rightarrow> string \<Rightarrow> string list" where
  \<comment> \<open>the texts of a field that holds a list or a tuple\<close>
  "listed row k = (let v = dget_or row k (PList []) in if is_seq v then claim_texts (elements v) else [])"

definition listed_or_single :: "dict \<Rightarrow> string \<Rightarrow> string list" where
  \<comment> \<open>the same, with a string standing for the list of it\<close>
  "listed_or_single row k =
     (let v = (case dget_or row k (PList []) of PStr s \<Rightarrow> PList [PStr s] | v \<Rightarrow> v) in
      if is_seq v then claim_texts (elements v) else [])"

definition single :: "dict \<Rightarrow> string \<Rightarrow> string list" where
  "single row k = claim_texts [dget_or row k (PStr [])]"

definition merged_source_claim_ids :: "dict list \<Rightarrow> string list" where
  "merged_source_claim_ids rows =
     sorted_set (concat (map (\<lambda>row.
       let ids = listed row ''source_claim_ids'' in if ids \<noteq> [] then ids else single row ''claim_id'') rows))"

definition merged_source_refs :: "dict list \<Rightarrow> string list" where
  "merged_source_refs rows = sorted_set (concat (map (\<lambda>row. listed_or_single row ''source_refs'') rows))"

definition merged_claim_ids :: "dict list \<Rightarrow> string list" where
  "merged_claim_ids rows = sorted_set (concat (map (\<lambda>row. listed row ''merged_claim_ids'') rows))"

definition all_provenance_claim_ids :: "dict list \<Rightarrow> string list" where
  "all_provenance_claim_ids rows =
     sorted_set (concat (map (\<lambda>row.
       single row ''claim_id'' @ single row ''source_claim_id''
       @ listed_or_single row ''source_claim_ids'' @ listed_or_single row ''merged_claim_ids'') rows))"

section \<open>The representative of a group\<close>

definition ascii_char :: "char \<Rightarrow> string" where
  \<comment> \<open>\<open>ensure_ascii\<close>: everything but the printable ASCII characters is escaped\<close>
  "ascii_char c =
     (let n = code c in
      if n < 127 then json_char c
      else [CHR 0x5C, CHR ''u'', CHR ''0'', CHR ''0'', hex_digit (n div 16), hex_digit (n mod 16)])"

definition ascii_string :: "string \<Rightarrow> string" where
  "ascii_string s = [CHR 0x22] @ concat (map ascii_char s) @ [CHR 0x22]"

fun compact_dump :: "pyval \<Rightarrow> string"
and compact_list :: "pyval list \<Rightarrow> string list"
and compact_items :: "dict \<Rightarrow> (string \<times> string) list" where
  \<comment> \<open>\<open>json.dumps(v, sort_keys=True, separators=(",", ":"))\<close>\<close>
  "compact_dump PNone = ''null''"
| "compact_dump (PBool b) = (if b then ''true'' else ''false'')"
| "compact_dump (PInt i) = int_text i"
| "compact_dump (PStr s) = ascii_string s"
| "compact_dump (PList xs) = ''['' @ join '','' (compact_list xs) @ '']''"
| "compact_dump (PTuple xs) = ''['' @ join '','' (compact_list xs) @ '']''"
| "compact_dump (PDict d) =
     ''{'' @ join '','' (map (\<lambda>(k, t). ascii_string k @ '':'' @ t) (sort_key fst (compact_items d))) @ ''}''"
| "compact_list [] = []"
| "compact_list (v # vs) = compact_dump v # compact_list vs"
| "compact_items [] = []"
| "compact_items ((k, v) # d) = (k, compact_dump v) # compact_items d"

definition representative_sort_key :: "dict \<Rightarrow> string \<times> string \<times> string" where
  "representative_sort_key row =
     (strip (py_str (dget_or row ''rule_id_suffix'' (PStr []))), strip (py_str (dget_or row ''claim_id'' (PStr []))),
      compact_dump (PDict row))"

section \<open>Canonical rows\<close>

record row_conflict =
  conflict_key :: runtime_row_key
  conflict_values :: "string list"
  conflict_source_claim_ids :: "string list"
  conflict_merged_claim_ids :: "string list"

record row_provenance =
  merged_signature :: runtime_row_signature
  provenance_source_claim_ids :: "string list"
  provenance_source_refs :: "string list"
  provenance_merged_claim_ids :: "string list"

record canonical_rows =
  row_list :: "dict list"
  merged_duplicate_count :: nat
  merged_provenance :: "row_provenance list"
  conflicts :: "row_conflict list"

definition text_list :: "string list \<Rightarrow> pyval" where
  "text_list ss = PList (map PStr ss)"

definition merged_row :: "dict list \<Rightarrow> dict \<times> row_provenance" where
  \<comment> \<open>the row that stands for rows with one signature, and the report on them\<close>
  "merged_row signature_rows =
     (let representative = first_min representative_sort_key (hd signature_rows) (tl signature_rows);
          source_claim_ids = merged_source_claim_ids signature_rows;
          source_refs = merged_source_refs signature_rows;
          claim_ids = (if length signature_rows > 1 then all_provenance_claim_ids signature_rows
                       else merged_claim_ids signature_rows);
          canonical = dput ''source_claim_ids'' (text_list source_claim_ids) representative;
          canonical = (if source_refs \<noteq> [] then dput ''source_refs'' (text_list source_refs) canonical else canonical);
          canonical = (if claim_ids \<noteq> [] then dput ''merged_claim_ids'' (text_list claim_ids) canonical else canonical) in
      (canonical,
       \<lparr>merged_signature = row_signature representative, provenance_source_claim_ids = source_claim_ids,
        provenance_source_refs = source_refs, provenance_merged_claim_ids = claim_ids\<rparr>))"

definition group_step :: "runtime_row_key \<times> dict list \<Rightarrow> canonical_rows \<Rightarrow> canonical_rows" where
  \<comment> \<open>the body of the second loop\<close>
  "group_step kg out =
     (let (key, group) = kg;
          group_values = sorted_set (map row_value group);
          signature_groups = group_by row_signature group;
          merged = sum_list (map (\<lambda>(s, signature_rows). length signature_rows - 1) signature_groups);
          out = out\<lparr>merged_duplicate_count := merged_duplicate_count out + merged\<rparr> in
      if length group_values > 1 then
        out\<lparr>conflicts := conflicts out @
          [\<lparr>conflict_key = key, conflict_values = group_values,
            conflict_source_claim_ids = merged_source_claim_ids group,
            conflict_merged_claim_ids = all_provenance_claim_ids group\<rparr>]\<rparr>
      else
        (let signature_rows = snd (hd signature_groups);
             (canonical, provenance) = merged_row signature_rows in
         out\<lparr>row_list := row_list out @ [canonical],
             merged_provenance := merged_provenance out @ (if length signature_rows > 1 then [provenance] else [])\<rparr>))"

definition canonicalize_runtime_rows :: "dict list \<Rightarrow> canonical_rows res" where
  "canonicalize_runtime_rows input =
     rbind (rmap normalize_row input) (\<lambda>normalized.
     let groups = group_by row_key normalized;
         out = fold group_step (sort_key fst groups)
           \<lparr>row_list = [], merged_duplicate_count = 0, merged_provenance = [], conflicts = []\<rparr> in
     Inr (out\<lparr>row_list := sort_key row_signature (row_list out)\<rparr>))"

section \<open>Owners of runtime entities\<close>

definition AUTHORIZED_HERO_POWER_OWNER :: "string \<times> string \<times> string \<times> string" where
  "AUTHORIZED_HERO_POWER_OWNER = (''SW_448'', ''hero_power_before_use'', ''hero_power_transform'', ''EX1_625t'')"

record runtime_entity_owner =
  source_card_id :: string
  runtime_card_id :: string
  link_kind :: string

definition runtime_entity_owner_relation_is_authorized :: "string \<Rightarrow> string \<Rightarrow> string \<Rightarrow> string \<Rightarrow> bool" where
  "runtime_entity_owner_relation_is_authorized source reason link runtime =
     ((source, reason, link, runtime) = AUTHORIZED_HERO_POWER_OWNER)"

definition resolve_runtime_entity_owner :: "string \<Rightarrow> string \<Rightarrow> dict \<Rightarrow> runtime_entity_owner option" where
  "resolve_runtime_entity_owner source reason identity_links =
     (if reason \<noteq> ''hero_power_before_use'' then
        Some \<lparr>source_card_id = source, runtime_card_id = source, link_kind = ''self''\<rparr>
      else if \<not> is_map (dget identity_links source) then None
      else
        (let runtime = dget (items (dget identity_links source)) ''hero_power_transform'' in
         if runtime_entity_owner_relation_is_authorized source reason ''hero_power_transform''
              (py_str (py_or runtime (PStr []))) then
           Some \<lparr>source_card_id = source, runtime_card_id = py_str runtime, link_kind = ''hero_power_transform''\<rparr>
         else None))"

definition meaningful_runtime_owner :: "dict \<Rightarrow> (string \<times> string) option" where
  "meaningful_runtime_owner row =
     (if dget row ''meaningful_runtime_surface'' = PBool False \<or> \<not> truthy (dget row ''behavior_block'') then None
      else
        (let source = strip (py_str (py_or (py_or (dget row ''source_card_id'') (dget row ''card_id'')) (PStr [])));
             runtime = strip (py_str (py_or (py_or (dget row ''runtime_card_id'') (dget row ''card_id'')) (PStr []))) in
         if source = [] \<or> runtime = [] then None else Some (source, runtime)))"

definition partition_runtime_entity_owner_rows :: "dict list \<Rightarrow> dict list \<times> (string \<times> string list) list" where
  \<comment> \<open>the accepted rows, and the runtime ids with more than one source; the set of the sources of
    a runtime id is the list of the owners that were added to it\<close>
  "partition_runtime_entity_owner_rows materialized_rows =
     (let owners = List.map_filter meaningful_runtime_owner materialized_rows;
          source_ids_by_runtime_id = group_by snd owners;
          collisions = filter (\<lambda>(runtime, sources). length sources > 1)
            (map (\<lambda>(runtime, os). (runtime, sorted_set (map fst os))) (sort_key fst source_ids_by_runtime_id));
          accepted = filter (\<lambda>row. case meaningful_runtime_owner row of
              None \<Rightarrow> True | Some (source, runtime) \<Rightarrow> runtime \<notin> set (map fst collisions)) materialized_rows in
      (accepted, collisions))"

section \<open>What a canonical list says\<close>

definition input_key :: "dict \<Rightarrow> runtime_row_key" where
  "input_key r = runtime_row_key (dget_or r ''card_id'' (PStr [])) (dget_or r ''behavior_block'' (PStr [])) r"

definition input_value :: "dict \<Rightarrow> string" where
  "input_value r = strip (py_str (dget r ''value''))"

lemma dget_or_dput [simp]: "dget_or (dput k v d) k' x = (if k' = k then v else dget_or d k' x)"
  by (simp add: dget_or_def)

lemma getitem_dput: "getitem (dput k v d) k' = (if k' = k then Inr v else getitem d k')"
  by (simp add: getitem_def)

lemma strip_star: "strip ''*'' = ''*''"
  by code_simp

lemma strip_or_any [simp]: "strip (or_any (strip s)) = or_any (strip s)" "or_any (or_any s) = or_any s"
  by (simp_all add: or_any_def strip_star)

lemma row_key_dput:
  "k \<noteq> ''card_id'' \<Longrightarrow> k \<noteq> ''behavior_block'' \<Longrightarrow> k \<noteq> ''condition'' \<Longrightarrow> row_key (dput k v r) = row_key r"
  by (auto simp: row_key_def runtime_row_key_def)

lemma input_value_strip [simp]: "strip (input_value r) = input_value r"
  by (simp add: input_value_def)

lemma normalize_row_Inr:
  assumes "normalize_row r = Inr n"
  shows "row_key n = input_key r" and "row_value n = input_value r" and "dhas r ''value''"
    and "strip (row_value n) = row_value n"
proof -
  obtain c b d where key: "input_key r = (c, b, d)" by (cases "input_key r") auto
  let ?n = "dput ''condition'' (PStr d) (dput ''behavior_block'' (PStr b) (dput ''card_id'' (PStr c) r))"
  from assms key obtain v where v: "getitem r ''value'' = Inr v" and n: "n = dput ''value'' (PStr (strip (py_str v))) ?n"
    by (auto simp: normalize_row_def input_key_def getitem_dput)
  have parts: "strip c = c" "strip b = b" "or_any (strip d) = d"
    using key by (auto simp: input_key_def runtime_row_key_def)
  have "row_key n = row_key ?n" unfolding n by (rule row_key_dput) simp_all
  then show "row_key n = input_key r" using parts by (simp add: row_key_def runtime_row_key_def key)
  show "row_value n = input_value r" using v by (simp add: n row_value_def input_value_def getitem_dget)
  show "dhas r ''value''" using v by (simp add: getitem_Inr_iff dhas_def)
  show "strip (row_value n) = row_value n" by (simp add: n row_value_def)
qed

lemma normalized_rows:
  assumes "rmap normalize_row input = Inr ns"
  shows "map (\<lambda>n. (row_key n, row_value n)) ns = map (\<lambda>r. (input_key r, input_value r)) input"
    and "list_all (\<lambda>n. strip (row_value n) = row_value n) ns"
  using assms unfolding rmap_Inr_iff
  by (induction rule: list_all2_induct) (auto simp: normalize_row_Inr)

lemma group_by_same: "rows \<noteq> [] \<Longrightarrow> list_all (\<lambda>r. key r = k) rows \<Longrightarrow> group_by key rows = [(k, rows)]"
proof (induction rows rule: rev_induct)
  case (snoc r rows)
  have first: "group_by key [r] = [(key r, [r])]" by (simp add: group_by_def add_to_group_def dget_or_def)
  from snoc show ?case
    by (cases "rows = []") (auto simp: first group_by_snoc, simp add: add_to_group_def dget_or_def)
qed simp

definition conflicting :: "dict list \<Rightarrow> bool" where
  "conflicting g = (length (sorted_set (map row_value g)) > 1)"

definition group_row :: "dict list \<Rightarrow> dict" where
  "group_row g = fst (merged_row (snd (hd (group_by row_signature g))))"

definition group_merged :: "dict list \<Rightarrow> nat" where
  "group_merged g = sum_list (map (\<lambda>(s, signature_rows). length signature_rows - 1) (group_by row_signature g))"

lemma group_step_fields:
  "row_list (group_step (k, g) out) = row_list out @ (if conflicting g then [] else [group_row g])"
  "merged_duplicate_count (group_step (k, g) out) = merged_duplicate_count out + group_merged g"
  "map (\<lambda>c. (conflict_key c, conflict_values c)) (conflicts (group_step (k, g) out)) =
     map (\<lambda>c. (conflict_key c, conflict_values c)) (conflicts out)
     @ (if conflicting g then [(k, sorted_set (map row_value g))] else [])"
  by (auto simp: group_step_def Let_def conflicting_def group_row_def group_merged_def split: prod.splits)

lemma fold_group_step:
  "row_list (fold group_step gs out) = row_list out @ map (group_row \<circ> snd) (filter (\<lambda>kg. \<not> conflicting (snd kg)) gs)"
  "merged_duplicate_count (fold group_step gs out) =
     merged_duplicate_count out + sum_list (map (group_merged \<circ> snd) gs)"
  "map (\<lambda>c. (conflict_key c, conflict_values c)) (conflicts (fold group_step gs out)) =
     map (\<lambda>c. (conflict_key c, conflict_values c)) (conflicts out)
     @ map (\<lambda>(k, g). (k, sorted_set (map row_value g))) (filter (\<lambda>kg. conflicting (snd kg)) gs)"
  by (induction gs arbitrary: out) (auto simp: group_step_fields)

lemma sorted_set_single: "length (sorted_set xs) \<le> 1 \<longleftrightarrow> (\<forall>x \<in> set xs. \<forall>y \<in> set xs. x = y)"
proof
  assume "length (sorted_set xs) \<le> 1"
  then show "\<forall>x \<in> set xs. \<forall>y \<in> set xs. x = y"
    by (metis One_nat_def empty_iff empty_set le_SucE le_zero_eq length_0_conv length_Suc_conv list.set_intros(1)
        set_ConsD set_sorted_set)
next
  assume same: "\<forall>x \<in> set xs. \<forall>y \<in> set xs. x = y"
  have "length (sorted_set xs) = card (set xs)" by (metis distinct_card distinct_sorted_set set_sorted_set)
  also have "\<dots> \<le> 1" using same by (auto simp: card_le_Suc0_iff_eq)
  finally show "length (sorted_set xs) \<le> 1" .
qed

lemma conflicting_iff: "conflicting g \<longleftrightarrow> (\<exists>r \<in> set g. \<exists>r' \<in> set g. row_value r \<noteq> row_value r')"
proof -
  have "conflicting g \<longleftrightarrow> \<not> length (sorted_set (map row_value g)) \<le> 1" by (simp add: conflicting_def not_le)
  also have "\<dots> \<longleftrightarrow> (\<exists>r \<in> set g. \<exists>r' \<in> set g. row_value r \<noteq> row_value r')"
    unfolding sorted_set_single set_map by blast
  finally show ?thesis .
qed

lemma same_value: "\<not> conflicting g \<Longrightarrow> r \<in> set g \<Longrightarrow> r' \<in> set g \<Longrightarrow> row_value r = row_value r'"
  unfolding conflicting_iff by blast

lemma merged_row_fields:
  "row_key (fst (merged_row (r # rs))) = row_key (first_min representative_sort_key r rs)"
  "row_value (fst (merged_row (r # rs))) = row_value (first_min representative_sort_key r rs)"
proof -
  let ?put = "\<lambda>c k v (m :: dict). if c then dput k v m else m"
  obtain c1 v1 c2 v2 v3 where m: "fst (merged_row (r # rs)) = ?put c2 ''merged_claim_ids'' v2
      (?put c1 ''source_refs'' v1 (dput ''source_claim_ids'' v3 (first_min representative_sort_key r rs)))"
    by (auto simp: merged_row_def Let_def)
  show "row_key (fst (merged_row (r # rs))) = row_key (first_min representative_sort_key r rs)"
    unfolding m by (simp add: row_key_dput)
  show "row_value (fst (merged_row (r # rs))) = row_value (first_min representative_sort_key r rs)"
    unfolding m by (simp add: row_value_def)
qed

lemma group_row_fields:
  assumes "g \<noteq> []" and "list_all (\<lambda>r. row_key r = k) g" and "\<not> conflicting g"
  shows "row_key (group_row g) = k" and "r \<in> set g \<Longrightarrow> row_value (group_row g) = row_value r"
proof -
  obtain r0 g0 where g: "g = r0 # g0" using assms(1) by (cases g) auto
  have "row_signature r = row_signature r0" if "r \<in> set g" for r
  proof -
    have "row_key r = row_key r0" using that assms(2) by (auto simp: list_all_iff g)
    moreover have "row_value r = row_value r0" by (rule same_value [OF assms(3) that]) (simp add: g)
    ultimately show ?thesis by (simp add: row_signature_def)
  qed
  then have "list_all (\<lambda>r. row_signature r = row_signature r0) g" by (simp add: list_all_iff)
  from group_by_same [OF assms(1) this] have grp: "snd (hd (group_by row_signature g)) = r0 # g0" by (simp add: g)
  let ?r = "first_min representative_sort_key r0 g0"
  have r: "?r \<in> set g" unfolding g by (rule first_min_in)
  have put: "row_key (group_row g) = row_key ?r" "row_value (group_row g) = row_value ?r"
    unfolding group_row_def grp by (rule merged_row_fields)+
  show "row_key (group_row g) = k" using put(1) r assms(2) by (simp add: list_all_iff)
  show "row_value (group_row g) = row_value r" if "r \<in> set g"
    unfolding put(2) by (rule same_value [OF assms(3) r that])
qed

lemma group_merged_count:
  "group_merged g + length (sorted_set (map row_signature g)) = length g"
proof -
  let ?gs = "group_by row_signature g"
  have pos: "\<forall>(k, g') \<in> set ?gs. g' \<noteq> []" by (auto simp: in_group_by)
  have "sum_list (map (\<lambda>(s, g'). length g' - 1) gs) + length gs = group_size gs"
    if "\<forall>(k, g') \<in> set gs. g' \<noteq> []" for gs :: "(runtime_row_signature \<times> dict list) list"
    using that
  proof (induction gs)
    case (Cons kg gs)
    then show ?case by (cases kg; cases "snd kg") (auto simp: group_size_def)
  qed (simp add: group_size_def)
  from this [OF pos] have "group_merged g + length ?gs = length g"
    by (simp add: group_merged_def group_size_group_by)
  moreover have "length ?gs = length (sorted_set (map row_signature g))"
  proof -
    have "length ?gs = card (fst ` set ?gs)"
      using wf_group_by [of row_signature g] by (metis distinct_card length_map list.set_map wf_dict_def)
    also have "\<dots> = card (set (sorted_set (map row_signature g)))" by (simp add: keys_group_by)
    also have "\<dots> = length (sorted_set (map row_signature g))" by (rule distinct_card) simp
    finally show ?thesis .
  qed
  ultimately show ?thesis by simp
qed

lemma distinct_map_sort: "distinct (map f (sort_key h xs)) \<longleftrightarrow> distinct (map f xs)"
  by (simp add: distinct_map)

lemma canonicalized:
  assumes "canonicalize_runtime_rows input = Inr out"
  obtains ns gs where "rmap normalize_row input = Inr ns" and "gs = sort_key fst (group_by row_key ns)"
    and "row_list out = sort_key row_signature (map (group_row \<circ> snd) (filter (\<lambda>kg. \<not> conflicting (snd kg)) gs))"
    and "merged_duplicate_count out = sum_list (map (group_merged \<circ> snd) gs)"
    and "map (\<lambda>c. (conflict_key c, conflict_values c)) (conflicts out)
      = map (\<lambda>(k, g). (k, sorted_set (map row_value g))) (filter (\<lambda>kg. conflicting (snd kg)) gs)"
proof -
  from assms obtain ns where ns: "rmap normalize_row input = Inr ns"
    and out: "(let out = fold group_step (sort_key fst (group_by row_key ns))
           \<lparr>row_list = [], merged_duplicate_count = 0, merged_provenance = [], conflicts = []\<rparr> in
         out\<lparr>row_list := sort_key row_signature (row_list out)\<rparr>) = out"
    by (auto simp: canonicalize_runtime_rows_def Let_def)
  show thesis
    by (rule that [OF ns refl]) (simp_all add: out [symmetric] Let_def fold_group_step)
qed

lemma in_sorted_groups:
  assumes "gs = sort_key fst (group_by row_key ns)"
  shows "(k, g) \<in> set gs \<longleftrightarrow> g = filter (\<lambda>r. row_key r = k) ns \<and> g \<noteq> []"
  by (simp add: assms in_group_by)

lemma emitted_group:
  assumes "gs = sort_key fst (group_by row_key ns)" and "(k, g) \<in> set gs" and "\<not> conflicting g"
  shows "row_key (group_row g) = k" and "r \<in> set g \<Longrightarrow> row_value (group_row g) = row_value r"
proof -
  have g: "g = filter (\<lambda>r. row_key r = k) ns" "g \<noteq> []"
    using assms(1,2) in_sorted_groups by blast+
  have keys: "list_all (\<lambda>r. row_key r = k) g" unfolding g(1) by (simp add: list_all_iff)
  show "row_key (group_row g) = k" by (rule group_row_fields(1) [OF g(2) keys assms(3)])
  show "r \<in> set g \<Longrightarrow> row_value (group_row g) = row_value r"
    by (rule group_row_fields(2) [OF g(2) keys assms(3)])
qed

lemma emitted_rows:
  assumes "canonicalize_runtime_rows input = Inr out" and "rmap normalize_row input = Inr ns"
  shows "(\<exists>row \<in> set (row_list out). row_key row = k \<and> row_value row = v) \<longleftrightarrow>
      (\<exists>n \<in> set ns. row_key n = k) \<and> (\<forall>n \<in> set ns. row_key n = k \<longrightarrow> row_value n = v)"
    and "distinct (map row_key (row_list out))"
proof -
  from assms obtain gs where gs: "gs = sort_key fst (group_by row_key ns)"
    and out: "row_list out = sort_key row_signature (map (group_row \<circ> snd) (filter (\<lambda>kg. \<not> conflicting (snd kg)) gs))"
    by (auto elim: canonicalized)
  let ?g = "filter (\<lambda>r. row_key r = k) ns"
  have "(\<exists>row \<in> set (row_list out). row_key row = k \<and> row_value row = v) \<longleftrightarrow>
      (\<exists>(k', g) \<in> set gs. \<not> conflicting g \<and> row_key (group_row g) = k \<and> row_value (group_row g) = v)"
    by (auto simp: out)
  also have "\<dots> \<longleftrightarrow> (k, ?g) \<in> set gs \<and> \<not> conflicting ?g \<and> row_value (group_row ?g) = v"
  proof
    assume "\<exists>(k', g) \<in> set gs. \<not> conflicting g \<and> row_key (group_row g) = k \<and> row_value (group_row g) = v"
    then obtain k' g where g: "(k', g) \<in> set gs" "\<not> conflicting g" "row_key (group_row g) = k" "row_value (group_row g) = v"
      by blast
    then have "k' = k" using emitted_group(1) [OF gs g(1,2)] by simp
    with g in_sorted_groups [OF gs] show "(k, ?g) \<in> set gs \<and> \<not> conflicting ?g \<and> row_value (group_row ?g) = v"
      by metis
  next
    assume "(k, ?g) \<in> set gs \<and> \<not> conflicting ?g \<and> row_value (group_row ?g) = v"
    with emitted_group(1) [OF gs, of k ?g]
    show "\<exists>(k', g) \<in> set gs. \<not> conflicting g \<and> row_key (group_row g) = k \<and> row_value (group_row g) = v"
      by blast
  qed
  also have "\<dots> \<longleftrightarrow> ?g \<noteq> [] \<and> (\<forall>n \<in> set ?g. row_value n = v)"
  proof
    assume "(k, ?g) \<in> set gs \<and> \<not> conflicting ?g \<and> row_value (group_row ?g) = v"
    then show "?g \<noteq> [] \<and> (\<forall>n \<in> set ?g. row_value n = v)"
      using emitted_group(2) [OF gs] in_sorted_groups [OF gs] by metis
  next
    assume g: "?g \<noteq> [] \<and> (\<forall>n \<in> set ?g. row_value n = v)"
    then have kg: "(k, ?g) \<in> set gs" using in_sorted_groups [OF gs] by blast
    from g have c: "\<not> conflicting ?g" unfolding conflicting_iff by metis
    from g have "hd ?g \<in> set ?g" by (metis list.set_sel(1))
    with g emitted_group(2) [OF gs kg c] kg c
    show "(k, ?g) \<in> set gs \<and> \<not> conflicting ?g \<and> row_value (group_row ?g) = v" by metis
  qed
  finally show "(\<exists>row \<in> set (row_list out). row_key row = k \<and> row_value row = v) \<longleftrightarrow>
      (\<exists>n \<in> set ns. row_key n = k) \<and> (\<forall>n \<in> set ns. row_key n = k \<longrightarrow> row_value n = v)"
    by (auto simp: filter_empty_conv)
  have "map row_key (map (group_row \<circ> snd) (filter (\<lambda>kg. \<not> conflicting (snd kg)) gs))
      = map fst (filter (\<lambda>kg. \<not> conflicting (snd kg)) gs)"
    unfolding map_map comp_def
    by (rule map_cong [OF refl]) (metis (no_types, lifting) emitted_group(1) [OF gs] filter_is_subset
      mem_Collect_eq prod.collapse set_filter subsetD)
  moreover have "distinct (map fst gs)"
    using wf_group_by [of row_key ns] by (simp add: gs distinct_map_sort wf_dict_def)
  ultimately show "distinct (map row_key (row_list out))"
    unfolding out distinct_map_sort by (metis distinct_map_filter)
qed

lemma in_map_fst:
  "map f cs = map fst (filter (\<lambda>kg. P (snd kg)) gs) \<Longrightarrow> (\<exists>c \<in> set cs. f c = k) \<longleftrightarrow> (\<exists>g. (k, g) \<in> set gs \<and> P g)"
proof -
  assume m: "map f cs = map fst (filter (\<lambda>kg. P (snd kg)) gs)"
  have "(\<exists>c \<in> set cs. f c = k) \<longleftrightarrow> k \<in> set (map f cs)" by auto
  also have "\<dots> \<longleftrightarrow> (\<exists>g. (k, g) \<in> set gs \<and> P g)" unfolding m by force
  finally show ?thesis .
qed

lemma conflict_groups:
  assumes "canonicalize_runtime_rows input = Inr out" and "rmap normalize_row input = Inr ns"
  shows "(\<exists>c \<in> set (conflicts out). conflict_key c = k) \<longleftrightarrow>
      (\<exists>n \<in> set ns. \<exists>n' \<in> set ns. row_key n = k \<and> row_key n' = k \<and> row_value n \<noteq> row_value n')"
proof -
  from assms obtain gs where gs: "gs = sort_key fst (group_by row_key ns)"
    and out: "map (\<lambda>c. (conflict_key c, conflict_values c)) (conflicts out)
      = map (\<lambda>(k, g). (k, sorted_set (map row_value g))) (filter (\<lambda>kg. conflicting (snd kg)) gs)"
    by (auto elim: canonicalized)
  have "map conflict_key (conflicts out) = map fst (filter (\<lambda>kg. conflicting (snd kg)) gs)"
    using arg_cong [OF out, of "map fst"] by (simp add: comp_def case_prod_beta)
  then have "(\<exists>c \<in> set (conflicts out). conflict_key c = k) \<longleftrightarrow> (\<exists>g. (k, g) \<in> set gs \<and> conflicting g)"
    by (rule in_map_fst)
  also have "\<dots> \<longleftrightarrow> conflicting (filter (\<lambda>r. row_key r = k) ns)"
    unfolding in_sorted_groups [OF gs] conflicting_iff by (metis empty_iff empty_set)
  also have "\<dots> \<longleftrightarrow> (\<exists>n \<in> set ns. \<exists>n' \<in> set ns. row_key n = k \<and> row_key n' = k \<and> row_value n \<noteq> row_value n')"
    unfolding conflicting_iff by auto
  finally show ?thesis .
qed

lemma length_sorted_set: "length (sorted_set xs) = card (set xs)"
  by (metis distinct_card distinct_sorted_set set_sorted_set)

lemma conflict_value_count:
  assumes "list_all (\<lambda>n. strip (row_value n) = row_value n) g" and "list_all (\<lambda>r. row_key r = k) g"
  shows "length (sorted_set (map row_signature g)) = length (sorted_set (map row_value g))"
proof -
  obtain c b d where k: "k = (c, b, d)" by (cases k) auto
  have "row_signature ` set g = (\<lambda>v. (c, b, d, v)) ` row_value ` set g"
    using assms unfolding image_image by (intro image_cong) (auto simp: list_all_iff row_signature_def k)
  then have "card (row_signature ` set g) = card (row_value ` set g)"
    by (simp add: card_image inj_on_def)
  then show ?thesis by (simp add: length_sorted_set)
qed

lemma normalize_row_fails: "normalize_row r = Inl e \<Longrightarrow> \<not> dhas r ''value''"
  by (auto simp: normalize_row_def getitem_dput getitem_def dhas_def Let_def split: prod.splits option.splits)

lemma rmap_Inl: "rmap f xs = Inl e \<Longrightarrow> \<exists>x \<in> set xs. f x = Inl e"
  by (induction xs) (auto simp: rbind_def split: sum.splits)

lemma canonical_count:
  assumes "canonicalize_runtime_rows input = Inr out"
  shows "length (row_list out) + merged_duplicate_count out + sum_list (map (length \<circ> conflict_values) (conflicts out))
    = length input"
proof -
  from assms obtain ns gs where ns: "rmap normalize_row input = Inr ns" and gs: "gs = sort_key fst (group_by row_key ns)"
    and rows: "row_list out = sort_key row_signature (map (group_row \<circ> snd) (filter (\<lambda>kg. \<not> conflicting (snd kg)) gs))"
    and merged: "merged_duplicate_count out = sum_list (map (group_merged \<circ> snd) gs)"
    and conf: "map (\<lambda>c. (conflict_key c, conflict_values c)) (conflicts out)
      = map (\<lambda>(k, g). (k, sorted_set (map row_value g))) (filter (\<lambda>kg. conflicting (snd kg)) gs)"
    by (rule canonicalized)
  have vals: "map conflict_values (conflicts out)
      = map (\<lambda>kg. sorted_set (map row_value (snd kg))) (filter (\<lambda>kg. conflicting (snd kg)) gs)"
    using arg_cong [OF conf, of "map snd"] by (simp add: comp_def case_prod_beta)
  have one: "(if conflicting g then length (sorted_set (map row_value g)) else 1) + group_merged g = length g"
    if "(k, g) \<in> set gs" for k g
  proof -
    have g: "g = filter (\<lambda>r. row_key r = k) ns" "g \<noteq> []" using that in_sorted_groups [OF gs] by blast+
    have "list_all (\<lambda>n. strip (row_value n) = row_value n) g" "list_all (\<lambda>r. row_key r = k) g"
      using normalized_rows(2) [OF ns] by (auto simp: g(1) list_all_iff)
    then have len: "length (sorted_set (map row_value g)) + group_merged g = length g"
      using conflict_value_count group_merged_count [of g] by simp
    have "length (sorted_set (map row_value g)) = 1" if "\<not> conflicting g"
    proof -
      have "set (sorted_set (map row_value g)) \<noteq> {}" using g(2) by simp
      with that show ?thesis by (cases "sorted_set (map row_value g)") (auto simp: conflicting_def)
    qed
    with len show ?thesis by (cases "conflicting g") simp_all
  qed
  have "length (filter (\<lambda>kg. \<not> conflicting (snd kg)) hs) + sum_list (map (group_merged \<circ> snd) hs)
      + sum_list (map (\<lambda>kg. length (sorted_set (map row_value (snd kg)))) (filter (\<lambda>kg. conflicting (snd kg)) hs))
      = group_size hs" if "set hs \<subseteq> set gs" for hs
    using that
  proof (induction hs)
    case (Cons kg hs)
    obtain k g where kg: "kg = (k, g)" by (rule prod.exhaust)
    with Cons one [of k g] show ?case by (cases "conflicting g") (auto simp: group_size_def)
  qed (simp add: group_size_def)
  from this [of gs] have "length (row_list out) + merged_duplicate_count out
      + sum_list (map (length \<circ> conflict_values) (conflicts out)) = group_size gs"
    using arg_cong [OF vals, of "map length"] by (simp add: rows merged comp_def)
  also have "\<dots> = group_size (group_by row_key ns)"
  proof -
    have "sum_list (map f (insort_key fst x xs)) = f x + sum_list (map f xs)" for f :: "_ \<Rightarrow> nat" and x :: "runtime_row_key \<times> dict list" and xs
      by (induction xs) auto
    then have "sum_list (map f (sort_key fst xs)) = sum_list (map f xs)"
      for f :: "_ \<Rightarrow> nat" and xs :: "(runtime_row_key \<times> dict list) list"
      by (induction xs) auto
    then show ?thesis by (simp add: group_size_def gs)
  qed
  also have "\<dots> = length input" using rmap_Inr_length [OF ns] by (simp add: group_size_group_by)
  finally show ?thesis .
qed

lemma partition_parts:
  assumes "partition_runtime_entity_owner_rows xs = (accepted, collisions)"
  shows "collisions = filter (\<lambda>(runtime, sources). length sources > 1)
      (map (\<lambda>(runtime, os). (runtime, sorted_set (map fst os)))
        (sort_key fst (group_by snd (List.map_filter meaningful_runtime_owner xs))))"
    and "accepted = filter (\<lambda>row. case meaningful_runtime_owner row of
        None \<Rightarrow> True | Some (source, runtime) \<Rightarrow> runtime \<notin> set (map fst collisions)) xs"
  using assms unfolding partition_runtime_entity_owner_rows_def Let_def prod.inject by blast+

lemma in_owners: "o' \<in> set (List.map_filter meaningful_runtime_owner xs) \<longleftrightarrow>
    (\<exists>row \<in> set xs. meaningful_runtime_owner row = Some o')"
  by (induction xs) (auto simp: map_filter_simps split: option.splits)

lemma two_in_sorted_set: "length (sorted_set xs) > 1 \<longleftrightarrow> (\<exists>x \<in> set xs. \<exists>y \<in> set xs. x \<noteq> y)"
  using sorted_set_single [of xs] by (metis not_le)

lemma collision_entry:
  assumes "partition_runtime_entity_owner_rows xs = (accepted, collisions)"
  shows "(runtime, sources) \<in> set collisions \<longleftrightarrow>
      sources = sorted_set (map fst (filter (\<lambda>o'. snd o' = runtime) (List.map_filter meaningful_runtime_owner xs)))
      \<and> length sources > 1"
proof -
  let ?os = "List.map_filter meaningful_runtime_owner xs"
  have "(runtime, sources) \<in> set collisions \<longleftrightarrow>
      length sources > 1 \<and> (\<exists>os. (runtime, os) \<in> set (group_by snd ?os) \<and> sources = sorted_set (map fst os))"
    unfolding partition_parts(1) [OF assms] by auto
  also have "\<dots> \<longleftrightarrow> sources = sorted_set (map fst (filter (\<lambda>o'. snd o' = runtime) ?os)) \<and> length sources > 1"
    unfolding in_group_by by (auto simp: sorted_set_def)
  finally show ?thesis .
qed

lemma collision_iff:
  assumes "partition_runtime_entity_owner_rows xs = (accepted, collisions)"
  shows "runtime \<in> set (map fst collisions) \<longleftrightarrow>
    (\<exists>row \<in> set xs. \<exists>row' \<in> set xs. \<exists>s s'. meaningful_runtime_owner row = Some (s, runtime)
       \<and> meaningful_runtime_owner row' = Some (s', runtime) \<and> s \<noteq> s')"
proof -
  let ?os = "filter (\<lambda>o'. snd o' = runtime) (List.map_filter meaningful_runtime_owner xs)"
  have os: "(s, r) \<in> set ?os \<longleftrightarrow> r = runtime \<and> (\<exists>row \<in> set xs. meaningful_runtime_owner row = Some (s, runtime))" for s r
    by (auto simp: in_owners)
  have "runtime \<in> set (map fst collisions) \<longleftrightarrow> (\<exists>sources. (runtime, sources) \<in> set collisions)" by force
  also have "\<dots> \<longleftrightarrow> length (sorted_set (map fst ?os)) > 1" by (simp add: collision_entry [OF assms])
  also have "\<dots> \<longleftrightarrow> (\<exists>s s' r r'. (s, r) \<in> set ?os \<and> (s', r') \<in> set ?os \<and> s \<noteq> s')"
    unfolding two_in_sorted_set by force
  also have "\<dots> \<longleftrightarrow> (\<exists>row \<in> set xs. \<exists>row' \<in> set xs. \<exists>s s'. meaningful_runtime_owner row = Some (s, runtime)
       \<and> meaningful_runtime_owner row' = Some (s', runtime) \<and> s \<noteq> s')"
    unfolding os by blast
  finally show ?thesis .
qed

lemma normalize_row_keeps:
  assumes "normalize_row r = Inr n" and "k \<notin> {''card_id'', ''behavior_block'', ''condition'', ''value''}"
  shows "dget n k = dget r k"
  using assms by (auto simp: normalize_row_def Let_def dget_dput split: prod.splits)

lemma in_rmap: "rmap f xs = Inr ys \<Longrightarrow> y \<in> set ys \<Longrightarrow> \<exists>x \<in> set xs. f x = Inr y"
  by (induction xs arbitrary: ys) (auto simp: rbind_def split: sum.splits)

lemma merged_row_keeps:
  assumes "g \<noteq> []" and "k \<notin> {''source_claim_ids'', ''source_refs'', ''merged_claim_ids''}"
  shows "\<exists>n \<in> set g. \<forall>k. k \<notin> {''source_claim_ids'', ''source_refs'', ''merged_claim_ids''} \<longrightarrow> dget (fst (merged_row g)) k = dget n k"
proof
  show "first_min representative_sort_key (hd g) (tl g) \<in> set g"
    using first_min_in [of representative_sort_key "hd g" "tl g"] assms(1) by simp
  show "\<forall>k. k \<notin> {''source_claim_ids'', ''source_refs'', ''merged_claim_ids''} \<longrightarrow>
      dget (fst (merged_row g)) k = dget (first_min representative_sort_key (hd g) (tl g)) k"
    by (auto simp: merged_row_def Let_def dget_dput)
qed

lemma group_row_keeps:
  assumes "g \<noteq> []"
  shows "\<exists>n \<in> set g. \<forall>k. k \<notin> {''source_claim_ids'', ''source_refs'', ''merged_claim_ids''} \<longrightarrow> dget (group_row g) k = dget n k"
proof -
  let ?gs = "group_by row_signature g"
  have "?gs \<noteq> []" using keys_group_by [of row_signature g] assms by auto
  then have "hd ?gs \<in> set ?gs" by simp
  then have "snd (hd ?gs) = filter (\<lambda>r. row_signature r = fst (hd ?gs)) g" "snd (hd ?gs) \<noteq> []"
    by (metis in_group_by prod.collapse)+
  with merged_row_keeps [of "snd (hd ?gs)" "[]"] show ?thesis by (force simp: group_row_def)
qed

lemma emitted_content:
  assumes "canonicalize_runtime_rows input = Inr out"
  shows "\<forall>row \<in> set (row_list out). \<exists>r \<in> set input. input_key r = row_key row \<and> input_value r = row_value row
      \<and> (\<forall>k. k \<notin> {''card_id'', ''behavior_block'', ''condition'', ''value'', ''source_claim_ids'', ''source_refs'',
            ''merged_claim_ids''} \<longrightarrow> dget row k = dget r k)"
proof
  fix row assume row: "row \<in> set (row_list out)"
  from assms obtain ns gs where ns: "rmap normalize_row input = Inr ns" and gs: "gs = sort_key fst (group_by row_key ns)"
    and out: "row_list out = sort_key row_signature (map (group_row \<circ> snd) (filter (\<lambda>kg. \<not> conflicting (snd kg)) gs))"
    by (auto elim: canonicalized)
  from row obtain k g where g: "(k, g) \<in> set gs" "\<not> conflicting g" "row = group_row g" by (auto simp: out)
  with in_sorted_groups [OF gs] have "g \<noteq> []" "set g \<subseteq> set ns" by auto
  with group_row_keeps obtain n where n: "n \<in> set g" "n \<in> set ns"
    "\<And>k. k \<notin> {''source_claim_ids'', ''source_refs'', ''merged_claim_ids''} \<Longrightarrow> dget row k = dget n k"
    unfolding g(3) by blast
  from in_rmap [OF ns n(2)] obtain r where r: "r \<in> set input" "normalize_row r = Inr n" by blast
  have "row_key n = k" using n(1) g(1) in_sorted_groups [OF gs] by auto
  with emitted_group [OF gs g(1,2)] n(1) g(3) have "row_key row = row_key n" "row_value row = row_value n" by auto
  moreover note normalize_row_Inr(1,2) [OF r(2)] normalize_row_keeps [OF r(2)] n(3) r(1)
  ultimately show "\<exists>r \<in> set input. input_key r = row_key row \<and> input_value r = row_value row
      \<and> (\<forall>k. k \<notin> {''card_id'', ''behavior_block'', ''condition'', ''value'', ''source_claim_ids'', ''source_refs'',
            ''merged_claim_ids''} \<longrightarrow> dget row k = dget r k)"
    by (intro bexI [of _ r]) auto
qed

lemma normalize_row_fields:
  assumes "normalize_row r = Inr n"
  shows "(py_str (dget n ''card_id''), py_str (dget n ''behavior_block''), py_str (dget n ''condition'')) = input_key r"
    and "dget n ''condition'' \<noteq> PNone"
  using assms by (auto simp: normalize_row_def input_key_def Let_def split: prod.splits)

lemma emitted_fields:
  assumes "canonicalize_runtime_rows input = Inr out" and "row \<in> set (row_list out)"
  shows "(py_str (dget row ''card_id''), py_str (dget row ''behavior_block''), py_str (dget_or row ''condition'' (PStr x)))
    = row_key row"
proof -
  obtain ns gs where ns: "rmap normalize_row input = Inr ns" and gs: "gs = sort_key fst (group_by row_key ns)"
    and out: "row_list out = sort_key row_signature (map (group_row \<circ> snd) (filter (\<lambda>kg. \<not> conflicting (snd kg)) gs))"
    using assms(1) by (auto elim: canonicalized)
  from assms(2) obtain k g where g: "(k, g) \<in> set gs" "\<not> conflicting g" "row = group_row g" by (auto simp: out)
  with in_sorted_groups [OF gs] have "g \<noteq> []" "set g \<subseteq> set ns" by auto
  with group_row_keeps obtain n where n: "n \<in> set g" "n \<in> set ns"
    "\<And>k. k \<notin> {''source_claim_ids'', ''source_refs'', ''merged_claim_ids''} \<Longrightarrow> dget row k = dget n k"
    unfolding g(3) by blast
  from in_rmap [OF ns n(2)] obtain r where r: "normalize_row r = Inr n" by blast
  have "row_key n = k" using n(1) g(1) in_sorted_groups [OF gs] by auto
  then have key: "row_key row = input_key r"
    using emitted_group [OF gs g(1,2)] n(1) g(3) normalize_row_Inr(1) [OF r] by auto
  have "dget_or row ''condition'' (PStr x) = dget row ''condition''"
    using normalize_row_fields(2) [OF r] n(3) [of "''condition''"] by (auto simp: dget_def dget_or_def split: option.splits)
  then show ?thesis using normalize_row_fields(1) [OF r] n(3) by (simp add: key)
qed

lemma emitted_value:
  assumes "canonicalize_runtime_rows input = Inr out" and "row \<in> set (row_list out)"
  shows "dhas row ''value''"
proof -
  obtain ns gs where ns: "rmap normalize_row input = Inr ns" and gs: "gs = sort_key fst (group_by row_key ns)"
    and out: "row_list out = sort_key row_signature (map (group_row \<circ> snd) (filter (\<lambda>kg. \<not> conflicting (snd kg)) gs))"
    using assms(1) by (auto elim: canonicalized)
  from assms(2) obtain k g where g: "(k, g) \<in> set gs" "row = group_row g" by (auto simp: out)
  with in_sorted_groups [OF gs] have "g \<noteq> []" "set g \<subseteq> set ns" by auto
  from group_row_keeps [OF this(1)] obtain m where m: "m \<in> set g"
    "\<forall>k. k \<notin> {''source_claim_ids'', ''source_refs'', ''merged_claim_ids''} \<longrightarrow> dget (group_row g) k = dget m k" by blast
  have n: "m \<in> set ns" "dget row ''value'' = dget m ''value''"
    using m(1) \<open>set g \<subseteq> set ns\<close> m(2) [rule_format, of "''value''"] by (auto simp: g(2))
  from in_rmap [OF ns n(1)] obtain r where "normalize_row r = Inr m" by blast
  then have "dget m ''value'' \<noteq> PNone" by (auto simp: normalize_row_def Let_def split: prod.splits)
  with n(2) show ?thesis by (auto simp: dget_def dhas_def split: option.splits)
qed

lemma conflict_content:
  assumes "canonicalize_runtime_rows input = Inr out"
  shows "(\<forall>c \<in> set (conflicts out). set (conflict_values c) = input_value ` {r \<in> set input. input_key r = conflict_key c})
    \<and> distinct (map conflict_key (conflicts out))"
proof -
  from assms obtain ns gs where ns: "rmap normalize_row input = Inr ns" and gs: "gs = sort_key fst (group_by row_key ns)"
    and out: "map (\<lambda>c. (conflict_key c, conflict_values c)) (conflicts out)
      = map (\<lambda>(k, g). (k, sorted_set (map row_value g))) (filter (\<lambda>kg. conflicting (snd kg)) gs)"
    by (auto elim: canonicalized)
  have pairs: "(\<lambda>n. (row_key n, row_value n)) ` set ns = (\<lambda>r. (input_key r, input_value r)) ` set input"
    using arg_cong [OF normalized_rows(1) [OF ns], of set] by simp
  have vals: "row_value ` {n \<in> set ns. row_key n = k} = input_value ` {r \<in> set input. input_key r = k}" for k
  proof -
    have "row_value ` {n \<in> set ns. row_key n = k} = snd ` {p \<in> (\<lambda>n. (row_key n, row_value n)) ` set ns. fst p = k}"
      by force
    also have "\<dots> = input_value ` {r \<in> set input. input_key r = k}" unfolding pairs by force
    finally show ?thesis .
  qed
  have values_of: "set (conflict_values c) = input_value ` {r \<in> set input. input_key r = conflict_key c}" if "c \<in> set (conflicts out)" for c
  proof -
    have "(conflict_key c, conflict_values c) \<in> set (map (\<lambda>c. (conflict_key c, conflict_values c)) (conflicts out))"
      using that by auto
    then obtain g where g: "(conflict_key c, g) \<in> set gs" "conflict_values c = sorted_set (map row_value g)"
      unfolding out by auto
    with in_sorted_groups [OF gs] have "set g = {n \<in> set ns. row_key n = conflict_key c}" by auto
    with g(2) vals show ?thesis by simp
  qed
  have "map conflict_key (conflicts out) = map fst (filter (\<lambda>kg. conflicting (snd kg)) gs)"
    using arg_cong [OF out, of "map fst"] by (simp add: comp_def case_prod_beta)
  moreover have "distinct (map fst gs)"
    using wf_group_by [of row_key ns] by (simp add: gs distinct_map_sort wf_dict_def)
  ultimately have "distinct (map conflict_key (conflicts out))" by (simp only: distinct_map_filter)
  with values_of show ?thesis by blast
qed

lemma row_outcome:
  assumes "canonicalize_runtime_rows input = Inr out" and "r \<in> set input"
  shows "(\<exists>row \<in> set (row_list out). row_key row = input_key r \<and> row_value row = input_value r)
      \<longleftrightarrow> (\<forall>r' \<in> set input. input_key r' = input_key r \<longrightarrow> input_value r' = input_value r)"
    and "(\<exists>c \<in> set (conflicts out). conflict_key c = input_key r \<and> input_value r \<in> set (conflict_values c))
      \<longleftrightarrow> \<not> (\<forall>r' \<in> set input. input_key r' = input_key r \<longrightarrow> input_value r' = input_value r)"
proof -
  obtain ns where ns: "rmap normalize_row input = Inr ns" using assms(1) by (rule canonicalized)
  have pairs: "(\<lambda>n. (row_key n, row_value n)) ` set ns = (\<lambda>r. (input_key r, input_value r)) ` set input"
    using arg_cong [OF normalized_rows(1) [OF ns], of set] by simp
  have transfer: "(\<forall>n \<in> set ns. P (row_key n) (row_value n)) \<longleftrightarrow> (\<forall>r \<in> set input. P (input_key r) (input_value r))" for P
  proof -
    have "(\<forall>n \<in> set ns. P (row_key n) (row_value n)) \<longleftrightarrow> (\<forall>(k, v) \<in> (\<lambda>n. (row_key n, row_value n)) ` set ns. P k v)" by auto
    also have "\<dots> \<longleftrightarrow> (\<forall>r \<in> set input. P (input_key r) (input_value r))" unfolding pairs by auto
    finally show ?thesis .
  qed
  have ex: "\<exists>n \<in> set ns. row_key n = input_key r \<and> row_value n = input_value r"
    using transfer [of "\<lambda>k v. \<not> (k = input_key r \<and> v = input_value r)"] assms(2) by fast
  then have some: "\<exists>n \<in> set ns. row_key n = input_key r" by fast
  have all: "(\<forall>n \<in> set ns. row_key n = input_key r \<longrightarrow> row_value n = input_value r)
      \<longleftrightarrow> (\<forall>r' \<in> set input. input_key r' = input_key r \<longrightarrow> input_value r' = input_value r)"
    by (rule transfer)
  from some emitted_rows(1) [OF assms(1) ns, of "input_key r" "input_value r"] all
  show "(\<exists>row \<in> set (row_list out). row_key row = input_key r \<and> row_value row = input_value r)
      \<longleftrightarrow> (\<forall>r' \<in> set input. input_key r' = input_key r \<longrightarrow> input_value r' = input_value r)" by simp
  have listed: "input_value r \<in> set (conflict_values c)" if "c \<in> set (conflicts out)" "conflict_key c = input_key r" for c
  proof -
    have "set (conflict_values c) = input_value ` {r' \<in> set input. input_key r' = input_key r}"
      using conflict_content [OF assms(1)] that by simp
    with assms(2) show ?thesis by simp
  qed
  have "(\<exists>c \<in> set (conflicts out). conflict_key c = input_key r \<and> input_value r \<in> set (conflict_values c))
      \<longleftrightarrow> (\<exists>c \<in> set (conflicts out). conflict_key c = input_key r)"
    using listed by (auto simp: assms(2))
  also have "\<dots> \<longleftrightarrow> \<not> (\<forall>n \<in> set ns. row_key n = input_key r \<longrightarrow> row_value n = input_value r)"
    using ex unfolding conflict_groups [OF assms(1) ns] by metis
  also have "\<dots> \<longleftrightarrow> \<not> (\<forall>r' \<in> set input. input_key r' = input_key r \<longrightarrow> input_value r' = input_value r)"
    unfolding all ..
  finally show "(\<exists>c \<in> set (conflicts out). conflict_key c = input_key r \<and> input_value r \<in> set (conflict_values c))
      \<longleftrightarrow> \<not> (\<forall>r' \<in> set input. input_key r' = input_key r \<longrightarrow> input_value r' = input_value r)" .
qed

lemma canonical_decisions:
  assumes "canonicalize_runtime_rows input = Inr out"
  shows "distinct (map row_key (row_list out))
    \<and> ((\<exists>row \<in> set (row_list out). row_key row = k \<and> row_value row = v) \<longleftrightarrow>
        (\<exists>r \<in> set input. input_key r = k) \<and> (\<forall>r \<in> set input. input_key r = k \<longrightarrow> input_value r = v))
    \<and> ((\<exists>c \<in> set (conflicts out). conflict_key c = k) \<longleftrightarrow>
        (\<exists>r \<in> set input. \<exists>r' \<in> set input. input_key r = k \<and> input_key r' = k \<and> input_value r \<noteq> input_value r'))"
proof -
  obtain ns where ns: "rmap normalize_row input = Inr ns" using assms by (rule canonicalized)
  let ?pairs = "set (map (\<lambda>r. (input_key r, input_value r)) input)"
  have n: "(\<exists>n \<in> set ns. P (row_key n) (row_value n)) \<longleftrightarrow> (\<exists>(k, v) \<in> ?pairs. P k v)" for P
    unfolding normalized_rows(1) [OF ns, symmetric] by auto
  have i: "(\<exists>r \<in> set input. P (input_key r) (input_value r)) \<longleftrightarrow> (\<exists>(k, v) \<in> ?pairs. P k v)" for P
    by auto
  have ex: "(\<exists>n \<in> set ns. P (row_key n) (row_value n)) \<longleftrightarrow> (\<exists>r \<in> set input. P (input_key r) (input_value r))" for P
    unfolding n i ..
  note agree = ex [of "\<lambda>k' v'. k' = k"] ex [of "\<lambda>k' v'. k' = k \<and> v' \<noteq> v"]
  have pair: "(\<exists>n \<in> set ns. \<exists>n' \<in> set ns. row_key n = k \<and> row_key n' = k \<and> row_value n \<noteq> row_value n')
      \<longleftrightarrow> (\<exists>r \<in> set input. \<exists>r' \<in> set input. input_key r = k \<and> input_key r' = k \<and> input_value r \<noteq> input_value r')"
  proof -
    let ?C = "\<lambda>ps. \<exists>(k1, v1) \<in> ps. \<exists>(k2, v2) \<in> ps. k1 = k \<and> k2 = k \<and> v1 \<noteq> v2"
    have "(\<exists>n \<in> set ns. \<exists>n' \<in> set ns. row_key n = k \<and> row_key n' = k \<and> row_value n \<noteq> row_value n')
        \<longleftrightarrow> ?C (set (map (\<lambda>n. (row_key n, row_value n)) ns))" by simp
    also have "\<dots> \<longleftrightarrow> ?C ?pairs" unfolding normalized_rows(1) [OF ns] ..
    finally show ?thesis by simp
  qed
  show ?thesis
  proof (intro conjI)
    show "distinct (map row_key (row_list out))" by (rule emitted_rows(2) [OF assms ns])
    show "(\<exists>row \<in> set (row_list out). row_key row = k \<and> row_value row = v) \<longleftrightarrow>
        (\<exists>r \<in> set input. input_key r = k) \<and> (\<forall>r \<in> set input. input_key r = k \<longrightarrow> input_value r = v)"
      unfolding emitted_rows(1) [OF assms ns] using agree by blast
  qed (simp only: conflict_groups [OF assms ns] pair)
qed

section \<open>Properties\<close>

text \<open>
  C37. Canonical rows decide what the rows say: there is at most one row for a card, a block and a
  condition; it is emitted with a value exactly if there are rows for it and they all have that
  value; and it is reported as a conflict exactly if two rows for it have different values.
\<close>
theorem canonical_rows_decide:
  assumes "canonicalize_runtime_rows input = Inr out"
  shows "distinct (map row_key (row_list out))
    \<and> ((\<exists>row \<in> set (row_list out). row_key row = k \<and> row_value row = v) \<longleftrightarrow>
        (\<exists>r \<in> set input. input_key r = k) \<and> (\<forall>r \<in> set input. input_key r = k \<longrightarrow> input_value r = v))
    \<and> ((\<exists>c \<in> set (conflicts out). conflict_key c = k) \<longleftrightarrow>
        (\<exists>r \<in> set input. \<exists>r' \<in> set input. input_key r = k \<and> input_key r' = k \<and> input_value r \<noteq> input_value r'))"
  using assms by (rule canonical_decisions)

text \<open>
  C38. Every row is accounted for. A row whose card, block and condition are not contradicted is
  represented by an emitted row with its value, a row that is contradicted by a conflict that lists
  its value, and no row by both. Nothing is invented: an emitted row is one of the rows, up to the
  normalised fields and the merged provenance; a conflict lists exactly the values of the rows for its
  key; and the count of merged duplicates is what is left. Only a row without a value makes the
  function raise.
\<close>
theorem canonical_rows_account:
  "case canonicalize_runtime_rows input of
     Inr out \<Rightarrow>
       (\<forall>r \<in> set input. (\<exists>row \<in> set (row_list out). row_key row = input_key r \<and> row_value row = input_value r)
          \<noteq> (\<exists>c \<in> set (conflicts out). conflict_key c = input_key r \<and> input_value r \<in> set (conflict_values c)))
     \<and> (\<forall>row \<in> set (row_list out). \<exists>r \<in> set input. input_key r = row_key row \<and> input_value r = row_value row
          \<and> (\<forall>k. k \<notin> {''card_id'', ''behavior_block'', ''condition'', ''value'', ''source_claim_ids'', ''source_refs'',
                ''merged_claim_ids''} \<longrightarrow> dget row k = dget r k))
     \<and> (\<forall>c \<in> set (conflicts out). set (conflict_values c) = input_value ` {r \<in> set input. input_key r = conflict_key c})
     \<and> distinct (map conflict_key (conflicts out))
     \<and> length (row_list out) + merged_duplicate_count out
         + sum_list (map (length \<circ> conflict_values) (conflicts out)) = length input
   | Inl e \<Rightarrow> (\<exists>r \<in> set input. \<not> dhas r ''value'')"
proof (cases "canonicalize_runtime_rows input")
  case (Inl e)
  then have "rmap normalize_row input = Inl e"
    by (cases "rmap normalize_row input") (auto simp: canonicalize_runtime_rows_def Let_def)
  from rmap_Inl [OF this] obtain r where "r \<in> set input" "normalize_row r = Inl e" by blast
  with Inl show ?thesis using normalize_row_fails by auto
next
  case (Inr out)
  have "(\<exists>row \<in> set (row_list out). row_key row = input_key r \<and> row_value row = input_value r)
      \<noteq> (\<exists>c \<in> set (conflicts out). conflict_key c = input_key r \<and> input_value r \<in> set (conflict_values c))"
    if "r \<in> set input" for r
    using row_outcome [OF Inr that] by blast
  moreover note canonical_count [OF Inr] emitted_content [OF Inr] conflict_content [OF Inr]
  ultimately show ?thesis unfolding Inr sum.case by blast
qed

text \<open>
  C39. The partition separates the rows with an owner: those that name a card and a runtime id and
  are a meaningful runtime surface. Of these, accepted rows with the same runtime id come from the
  same card, and one is refused exactly if its runtime id is claimed by two cards, which are then
  reported with it. The rows without an owner are not judged: all of them are accepted, also beside
  rows of another card for the same runtime id.
\<close>
theorem accepted_rows_have_one_owner:
  assumes "partition_runtime_entity_owner_rows xs = (accepted, collisions)"
  shows "(\<forall>row \<in> set accepted. \<forall>row' \<in> set accepted. \<forall>s s' r. meaningful_runtime_owner row = Some (s, r)
        \<longrightarrow> meaningful_runtime_owner row' = Some (s', r) \<longrightarrow> s = s')
    \<and> (\<forall>row \<in> set xs. row \<notin> set accepted \<longrightarrow> (\<exists>s s' r row'. row' \<in> set xs \<and> s \<noteq> s'
        \<and> meaningful_runtime_owner row = Some (s, r) \<and> meaningful_runtime_owner row' = Some (s', r)
        \<and> (\<exists>sources. (r, sources) \<in> set collisions \<and> s \<in> set sources \<and> s' \<in> set sources)))
    \<and> (\<forall>row \<in> set xs. \<forall>s s' r. meaningful_runtime_owner row = Some (s, r) \<longrightarrow> s \<noteq> s' \<longrightarrow>
        (\<exists>row' \<in> set xs. meaningful_runtime_owner row' = Some (s', r)) \<longrightarrow> row \<notin> set accepted)
    \<and> (\<forall>row \<in> set xs. meaningful_runtime_owner row = None \<longrightarrow> row \<in> set accepted)
    \<and> set accepted \<subseteq> set xs"
proof (intro conjI ballI allI impI)
  fix row row' s s' r
  assume in_acc: "row \<in> set accepted" "row' \<in> set accepted"
    and owner: "meaningful_runtime_owner row = Some (s, r)" "meaningful_runtime_owner row' = Some (s', r)"
  then have "row \<in> set xs" "row' \<in> set xs" "r \<notin> set (map fst collisions)"
    unfolding partition_parts(2) [OF assms] by simp_all
  with owner collision_iff [OF assms, of r] show "s = s'" by blast
next
  fix row assume row: "row \<in> set xs" "row \<notin> set accepted"
  then obtain s r where owner: "meaningful_runtime_owner row = Some (s, r)" and r: "r \<in> set (map fst collisions)"
    unfolding partition_parts(2) [OF assms] by (auto split: option.splits)
  from r obtain sources where sources: "(r, sources) \<in> set collisions" by auto
  have in_sources: "t \<in> set sources" if "row' \<in> set xs" "meaningful_runtime_owner row' = Some (t, r)" for t row'
  proof -
    have "(t, r) \<in> set (List.map_filter meaningful_runtime_owner xs)" using that by (auto simp: in_owners)
    with sources show ?thesis by (force simp: collision_entry [OF assms])
  qed
  from r collision_iff [OF assms, of r] obtain row1 row2 s1 s2 where two: "row1 \<in> set xs" "row2 \<in> set xs"
    "meaningful_runtime_owner row1 = Some (s1, r)" "meaningful_runtime_owner row2 = Some (s2, r)" "s1 \<noteq> s2" by blast
  obtain row' s' where "row' \<in> set xs" "meaningful_runtime_owner row' = Some (s', r)" "s \<noteq> s'"
    using two by metis
  with owner sources in_sources row(1) show "\<exists>s s' r row'. row' \<in> set xs \<and> s \<noteq> s'
        \<and> meaningful_runtime_owner row = Some (s, r) \<and> meaningful_runtime_owner row' = Some (s', r)
        \<and> (\<exists>sources. (r, sources) \<in> set collisions \<and> s \<in> set sources \<and> s' \<in> set sources)"
    by blast
next
  fix row s s' r
  assume row: "row \<in> set xs" "meaningful_runtime_owner row = Some (s, r)" "s \<noteq> s'"
    "\<exists>row' \<in> set xs. meaningful_runtime_owner row' = Some (s', r)"
  then have "r \<in> set (map fst collisions)" using collision_iff [OF assms, of r] by blast
  with row show "row \<notin> set accepted" unfolding partition_parts(2) [OF assms] by simp
next
  fix row assume "row \<in> set xs" "meaningful_runtime_owner row = None"
  then show "row \<in> set accepted" unfolding partition_parts(2) [OF assms] by simp
next
  show "set accepted \<subseteq> set xs" unfolding partition_parts(2) [OF assms] by auto
qed

definition demo_row :: "string \<Rightarrow> string \<Rightarrow> string \<Rightarrow> dict" where
  "demo_row c condition v = [(''card_id'', PStr c), (''behavior_block'', PStr ''B''), (''condition'', PStr condition),
     (''value'', PStr v), (''claim_id'', PStr ''x'')]"

definition demo_rows :: "dict list" where
  "demo_rows = [demo_row ''A'' ''*'' ''1'', demo_row ''A'' [] ''1'', demo_row ''A'' ''coin'' ''2'', demo_row ''A'' ''coin'' ''3'']"

theorem canonical_rows_decide_witness:
  "\<exists>out. canonicalize_runtime_rows demo_rows = Inr out
     \<and> (\<exists>row \<in> set (row_list out). row_key row = (''A'', ''B'', ''*'') \<and> row_value row = ''1'')
     \<and> (\<exists>c \<in> set (conflicts out). conflict_key c = (''A'', ''B'', ''coin''))"
proof -
  have "case canonicalize_runtime_rows demo_rows of Inr out \<Rightarrow> True | Inl e \<Rightarrow> False" by code_simp
  then obtain out where out: "canonicalize_runtime_rows demo_rows = Inr out" by (auto split: sum.splits)
  have keys: "map (\<lambda>r. (input_key r, input_value r)) demo_rows =
      [((''A'', ''B'', ''*''), ''1''), ((''A'', ''B'', ''*''), ''1''), ((''A'', ''B'', ''coin''), ''2''), ((''A'', ''B'', ''coin''), ''3'')]"
    by code_simp
  have "(\<exists>r \<in> set demo_rows. input_key r = (''A'', ''B'', ''*''))"
    "\<forall>r \<in> set demo_rows. input_key r = (''A'', ''B'', ''*'') \<longrightarrow> input_value r = ''1''"
    "\<exists>r \<in> set demo_rows. \<exists>r' \<in> set demo_rows. input_key r = (''A'', ''B'', ''coin'') \<and> input_key r' = (''A'', ''B'', ''coin'')
       \<and> input_value r \<noteq> input_value r'"
    using keys by (simp_all add: demo_rows_def)
  with out canonical_rows_decide [OF out, of "(''A'', ''B'', ''*'')" "''1''"]
    canonical_rows_decide [OF out, of "(''A'', ''B'', ''coin'')" "''2''"]
  show ?thesis by blast
qed

theorem canonical_rows_account_witness:
  "\<exists>out. canonicalize_runtime_rows demo_rows = Inr out
     \<and> length (row_list out) + merged_duplicate_count out
         + sum_list (map (length \<circ> conflict_values) (conflicts out)) = 4"
proof -
  have "case canonicalize_runtime_rows demo_rows of Inr out \<Rightarrow> True | Inl e \<Rightarrow> False" by code_simp
  then obtain out where out: "canonicalize_runtime_rows demo_rows = Inr out" by (auto split: sum.splits)
  with canonical_rows_account [of demo_rows] show ?thesis by (simp add: demo_rows_def)
qed

definition demo_owner_rows :: "dict list" where
  "demo_owner_rows = [(''runtime_card_id'', PStr ''R'') # demo_row ''A'' ''*'' ''1'',
     (''runtime_card_id'', PStr ''R'') # demo_row ''B'' ''*'' ''1'', demo_row ''C'' ''*'' ''1'']"

theorem accepted_rows_have_one_owner_witness:
  "\<exists>sources. (''R'', sources) \<in> set (snd (partition_runtime_entity_owner_rows demo_owner_rows)) \<and> ''A'' \<in> set sources"
proof -
  obtain accepted collisions where part: "partition_runtime_entity_owner_rows demo_owner_rows = (accepted, collisions)"
    by (rule prod.exhaust)
  have "fst (partition_runtime_entity_owner_rows demo_owner_rows) = [demo_row ''C'' ''*'' ''1'']" by code_simp
  then have acc: "accepted = [demo_row ''C'' ''*'' ''1'']" by (simp add: part)
  let ?row = "(''runtime_card_id'', PStr ''R'') # demo_row ''A'' ''*'' ''1''"
  have "?row \<in> set demo_owner_rows" by (simp add: demo_owner_rows_def)
  moreover have "?row \<notin> set accepted" by (simp add: acc demo_row_def)
  moreover have "meaningful_runtime_owner ?row = Some (''A'', ''R'')" by code_simp
  ultimately show ?thesis
    using accepted_rows_have_one_owner [OF part] part by fastforce
qed

end
