(* ===== verification/CardBehaviors.thy ===== *)
theory CardBehaviors
  imports RuntimeRows
begin

text \<open>
  Compiling the behaviour files of the cards (\<open>src/src/hsconfig/compile_cardid.py\<close>): the cards of
  the contract and of the rows are merged, their behaviour rows are made canonical, and every card
  gets one file whose blocks hold its rules. A file is a record instead of a dict: the name of the
  card, the comment, and the blocks in the order of their first rule.
\<close>

section \<open>Cards\<close>

type_synonym cards = "(string \<times> dict) list"

definition dict_of :: "pyval \<Rightarrow> dict res" where
  \<comment> \<open>\<open>dict(v)\<close>; a list of pairs is no card and outside of the model\<close>
  "dict_of v =
     (case v of
        PDict d \<Rightarrow> Inr d
      | PNone \<Rightarrow> Inl (TypeError ''dict'') | PBool b \<Rightarrow> Inl (TypeError ''dict'') | PInt i \<Rightarrow> Inl (TypeError ''dict'')
      | _ \<Rightarrow> if elements v = [] then Inr [] else Inl (ValueError ''dict''))"

definition iterate :: "pyval \<Rightarrow> pyval list res" where
  "iterate v =
     (case v of
        PNone \<Rightarrow> Inl (TypeError ''iter'') | PBool b \<Rightarrow> Inl (TypeError ''iter'') | PInt i \<Rightarrow> Inl (TypeError ''iter'')
      | _ \<Rightarrow> Inr (elements v))"

definition texts :: "pyval \<Rightarrow> string list res" where
  \<comment> \<open>\<open>[str(x) for x in v]\<close>\<close>
  "texts v = rbind (iterate v) (\<lambda>xs. Inr (map py_str xs))"

definition cards_from_contract :: "dict \<Rightarrow> cards res" where
  "cards_from_contract contract =
     (case dget_or contract ''cards'' (PDict []) of
        PDict cs \<Rightarrow> rmap (\<lambda>(card_id, card). rbind (dict_of card) (\<lambda>d. Inr (card_id, d))) cs
      | v \<Rightarrow>
          rbind (iterate v) (\<lambda>xs.
          rfold (\<lambda>card cs.
              if \<not> is_map card then Inl (TypeError ''card'')
              else
                rbind (getitem (items card) ''card_id'') (\<lambda>card_id. Inr (dput (py_str card_id) (items card) cs)))
            xs []))"

definition new_card :: "pyval \<Rightarrow> dict" where
  "new_card confidence = [(''roles'', PList []), (''source_claim_ids'', PList []), (''confidence'', confidence)]"

definition extend_list :: "string \<Rightarrow> pyval list \<Rightarrow> dict \<Rightarrow> dict" where
  \<comment> \<open>\<open>card[k].extend(vs)\<close> on a list\<close>
  "extend_list k vs c = dput k (PList (elements (dget c k) @ vs)) c"

definition card_from_row :: "dict \<Rightarrow> cards \<Rightarrow> cards res" where
  "card_from_row row cards =
     (if dget row ''surface_family'' \<noteq> PStr ''CARDID.json'' \<and> dget row ''surface'' \<noteq> PStr ''CARDID.json'' then Inr cards
      else
        rbind (if truthy (dget row ''runtime_card_id'') then Inr (dget row ''runtime_card_id'')
               else getitem row ''card_id'') (\<lambda>named.
        let card_id = py_str named;
            card = dget_or cards card_id (new_card (dget_or row ''confidence'' (PStr ''source_backed''))) in
        rbind (texts (dget_or row ''roles'' (PList []))) (\<lambda>roles.
        let card = extend_list ''roles'' (map PStr roles) card;
            card = (if truthy (dget row ''intent'')
                    then extend_list ''roles'' [PStr (py_str (dget row ''intent''))] card else card) in
        rbind (iterate (dget_or row ''source_claim_ids'' (PList []))) (\<lambda>claims.
        let card = extend_list ''source_claim_ids'' claims card;
            card = (if truthy (dget row ''behavior_block'') then extend_list ''behavior_rows'' [PDict row] card else card) in
        Inr (dput card_id card cards)))))"

definition cards_from_rows :: "dict list \<Rightarrow> cards res" where
  "cards_from_rows rows = rfold card_from_row rows []"

definition merge_row_card :: "string \<times> dict \<Rightarrow> cards \<Rightarrow> cards res" where
  "merge_row_card named_card cards =
     (let (card_id, row_card) = named_card;
          card = dget_or cards card_id (new_card (dget_or row_card ''confidence'' (PStr ''source_backed''))) in
      rbind (texts (dget_or card ''roles'' (PList []))) (\<lambda>roles.
      rbind (texts (dget_or row_card ''roles'' (PList []))) (\<lambda>row_roles.
      rbind (texts (dget_or card ''source_claim_ids'' (PList []))) (\<lambda>claims.
      rbind (texts (dget_or row_card ''source_claim_ids'' (PList []))) (\<lambda>row_claims.
      rbind (case dget_or card ''behavior_rows'' (PList []) of
               PList xs \<Rightarrow> Inr xs | _ \<Rightarrow> Inl (AttributeError ''extend'')) (\<lambda>behavior_rows.
      let card = dput ''roles'' (text_list (sorted_set (roles @ row_roles))) card;
          card = dput ''source_claim_ids'' (text_list (sorted_set (claims @ row_claims))) card;
          card = dput ''behavior_rows''
            (PList (behavior_rows @ elements (dget_or row_card ''behavior_rows'' (PList [])))) card;
          card = (if dget card ''confidence'' \<noteq> PStr ''source_backed''
                  then dput ''confidence'' (dget_or row_card ''confidence''
                         (dget_or card ''confidence'' (PStr ''source_backed''))) card
                  else card) in
      Inr (dput card_id card cards)))))))"

definition merge_row_cards :: "cards \<Rightarrow> cards \<Rightarrow> cards res" where
  "merge_row_cards cards row_cards = rfold merge_row_card row_cards cards"

section \<open>Canonical behaviour rows\<close>

definition card_rows :: "string \<times> dict \<Rightarrow> dict list res" where
  \<comment> \<open>the behaviour rows of a card, with its id and a value\<close>
  "card_rows named_card =
     (let (card_id, card) = named_card in
      rbind (iterate (dget_or card ''behavior_rows'' (PList []))) (\<lambda>behavior_rows.
      rmap (\<lambda>behavior_row.
          rbind (dict_of behavior_row) (\<lambda>d.
          let row = dput ''card_id'' (PStr card_id) d in
          Inr (if dhas row ''value'' then row else dput ''value'' (PStr ''6'') row)))
        behavior_rows))"

definition give_row :: "dict \<Rightarrow> cards \<Rightarrow> cards res" where
  \<comment> \<open>\<open>cards[str(row["card_id"])]["behavior_rows"].append(row)\<close>\<close>
  "give_row row cards =
     (let card_id = py_str (dget row ''card_id'') in
      case map_of cards card_id of
        None \<Rightarrow> Inl (KeyError card_id)
      | Some c \<Rightarrow> Inr (dput card_id (extend_list ''behavior_rows'' [PDict row] c) cards))"

definition canonicalize_card_behavior_rows :: "cards \<Rightarrow> (cards \<times> canonical_rows) res" where
  "canonicalize_card_behavior_rows cards =
     rbind (rmap card_rows cards) (\<lambda>rows.
     rbind (canonicalize_runtime_rows (concat rows)) (\<lambda>result.
     rbind (rfold give_row (row_list result)
              (map (\<lambda>(card_id, card). (card_id, dput ''behavior_rows'' (PList []) card)) cards)) (\<lambda>cards.
     Inr (cards, result))))"

section \<open>Files\<close>

record card_rule =
  rule_comment :: string
  rule_condition :: string
  rule_value :: string

record card_config =
  GameCardId :: string
  ConfigComment :: string
  blocks :: "(string \<times> card_rule list) list"

definition behavior_rule :: "string \<Rightarrow> string \<Rightarrow> dict \<Rightarrow> card_rule" where
  "behavior_rule deck_name card_id row =
     (let suffix = py_str (py_or (py_or (dget row ''rule_id_suffix'') (dget row ''intent'')) (PStr ''behavior'')) in
      \<lparr>rule_comment = deck_name @ '': '' @ card_id @ ''_'' @ suffix,
       rule_condition = py_str (dget_or row ''condition'' (PStr ''*'')),
       rule_value = py_str (dget_or row ''value'' (PStr ''6''))\<rparr>)"

definition append_block_row :: "string \<Rightarrow> string \<Rightarrow> dict \<Rightarrow> card_config \<Rightarrow> card_config res" where
  \<comment> \<open>one round of \<open>_append_explicit_behavior_rows\<close>; the entries of the two fixed keys are strings\<close>
  "append_block_row deck_name card_id row config =
     rbind (getitem row ''behavior_block'') (\<lambda>b.
     let block = py_str b in
     if block = ''GameCardId'' \<or> block = ''ConfigComment'' then Inl (TypeError ''block'')
     else Inr (config\<lparr>blocks := dput block (dget_or (blocks config) block [] @ [behavior_rule deck_name card_id row])
                       (blocks config)\<rparr>))"

definition card_file :: "string \<Rightarrow> string \<times> dict \<Rightarrow> (string \<times> card_config) res" where
  "card_file deck_name named_card =
     (let (card_id, card) = named_card in
      rbind (rfold (append_block_row deck_name card_id) (map items (elements (dget_or card ''behavior_rows'' (PList []))))
               \<lparr>GameCardId = card_id,
                ConfigComment = deck_name @ '': generated behavior for '' @ card_id, blocks = []\<rparr>) (\<lambda>config.
      Inr (card_id @ ''.json'', config)))"

record compiled_card_files =
  files :: "(string \<times> card_config) list"
  merged_duplicate_runtime_row_count :: nat
  runtime_row_conflicts :: "row_conflict list"
  runtime_entity_owner_collisions :: "(string \<times> string list) list"

definition compile_cardid_behaviors :: "dict \<Rightarrow> string \<Rightarrow> dict list \<Rightarrow> compiled_card_files res" where
  "compile_cardid_behaviors contract deck_name_argument rows =
     (let deck_name = (if deck_name_argument = [] then py_str (dget_or contract ''deck_name'' (PStr ''Deck''))
                       else deck_name_argument);
          (accepted_rows, owner_collisions) = partition_runtime_entity_owner_rows rows in
      rbind (cards_from_contract contract) (\<lambda>cards.
      rbind (if accepted_rows = [] then Inr cards
             else rbind (cards_from_rows accepted_rows) (merge_row_cards cards)) (\<lambda>cards.
      rbind (canonicalize_card_behavior_rows cards) (\<lambda>(cards, canonical).
      rbind (rmap (card_file deck_name) (sort_key fst cards)) (\<lambda>fs.
      Inr \<lparr>files = fs, merged_duplicate_runtime_row_count = merged_duplicate_count canonical,
           runtime_row_conflicts = conflicts canonical, runtime_entity_owner_collisions = owner_collisions\<rparr>)))))"

section \<open>Which rules a file holds\<close>

lemma rmap_Inr_in: "rmap f xs = Inr ys \<Longrightarrow> y \<in> set ys \<Longrightarrow> \<exists>x \<in> set xs. f x = Inr y"
  by (induction xs arbitrary: ys) auto

definition file_rows :: "string \<Rightarrow> canonical_rows \<Rightarrow> dict list" where
  \<comment> \<open>the canonical rows of a card\<close>
  "file_rows card_id canonical = filter (\<lambda>row. py_str (dget row ''card_id'') = card_id) (row_list canonical)"

lemma give_row_step:
  assumes "rfold give_row (row # rows) cards = Inr cards'"
  obtains c where "map_of cards (py_str (dget row ''card_id'')) = Some c"
    and "rfold give_row rows (dput (py_str (dget row ''card_id'')) (extend_list ''behavior_rows'' [PDict row] c) cards) = Inr cards'"
  using assms by (auto simp: give_row_def Let_def split: option.splits)

lemma give_row_keys: "rfold give_row rows cards = Inr cards' \<Longrightarrow> dkeys cards' = dkeys cards"
proof (induction rows arbitrary: cards)
  case (Cons row rows)
  have "map_of cards k = Some c \<Longrightarrow> dkeys (dput k v cards) = dkeys cards" for k v c
    by (induction cards) (auto simp: dkeys_def split: if_splits)
  with Cons show ?case by (elim give_row_step) metis
qed simp

lemma give_row_found:
  "rfold give_row rows cards = Inr cards' \<Longrightarrow> row \<in> set rows \<Longrightarrow> py_str (dget row ''card_id'') \<in> set (dkeys cards')"
proof (induction rows arbitrary: cards)
  case (Cons r rows)
  let ?k = "py_str (dget r ''card_id'')"
  obtain c where "map_of cards ?k = Some c"
    and rest: "rfold give_row rows (dput ?k (extend_list ''behavior_rows'' [PDict r] c) cards) = Inr cards'"
    using Cons.prems(1) by (rule give_row_step)
  with give_row_keys [OF rest] have "?k \<in> set (dkeys cards')" by (simp add: keys_dput)
  with Cons.IH [OF rest] Cons.prems(2) show ?case by auto
qed simp

lemma give_row_rows:
  "rfold give_row rows cards = Inr cards' \<Longrightarrow> map_of cards' k = Some c' \<Longrightarrow> \<exists>c. map_of cards k = Some c \<and>
      elements (dget c' ''behavior_rows'') = elements (dget c ''behavior_rows'')
        @ map PDict (filter (\<lambda>row. py_str (dget row ''card_id'') = k) rows)"
proof (induction rows arbitrary: cards)
  case (Cons row rows)
  let ?k = "py_str (dget row ''card_id'')"
  obtain c0 where c0: "map_of cards ?k = Some c0"
    and rest: "rfold give_row rows (dput ?k (extend_list ''behavior_rows'' [PDict row] c0) cards) = Inr cards'"
    using Cons.prems(1) by (rule give_row_step)
  from Cons.IH [OF rest Cons.prems(2)] show ?case by (auto simp: extend_list_def c0 split: if_splits)
qed auto

lemma append_block_row_step:
  assumes "append_block_row deck_name card_id row config = Inr config'"
  shows "config' = config\<lparr>blocks := dput (py_str (dget row ''behavior_block''))
     (dget_or (blocks config) (py_str (dget row ''behavior_block'')) [] @ [behavior_rule deck_name card_id row])
     (blocks config)\<rparr>"
  using assms by (auto simp: append_block_row_def Let_def dest!: getitem_dget split: if_splits)

lemma file_blocks:
  "rfold (append_block_row deck_name card_id) rows config = Inr config' \<Longrightarrow>
     GameCardId config' = GameCardId config \<and> (wf_dict (blocks config) \<longrightarrow> wf_dict (blocks config'))
     \<and> dget_or (blocks config') b [] = dget_or (blocks config) b []
      @ map (behavior_rule deck_name card_id) (filter (\<lambda>row. py_str (dget row ''behavior_block'') = b) rows)"
proof (induction rows arbitrary: config)
  case (Cons row rows)
  then obtain config1 where step: "append_block_row deck_name card_id row config = Inr config1"
    and rest: "rfold (append_block_row deck_name card_id) rows config1 = Inr config'" by auto
  show ?case using Cons.IH [OF rest] by (simp add: append_block_row_step [OF step])
qed simp

lemma card_file_parts:
  assumes "card_file deck_name (card_id, c) = Inr (name, config)"
  shows "name = card_id @ ''.json''" and "GameCardId config = card_id" and "wf_dict (blocks config)"
    and "dget_or (blocks config) b [] = map (behavior_rule deck_name card_id)
      (filter (\<lambda>row. py_str (dget row ''behavior_block'') = b)
        (map items (elements (dget_or c ''behavior_rows'' (PList [])))))"
proof -
  from assms have name: "name = card_id @ ''.json''"
    and run: "rfold (append_block_row deck_name card_id) (map items (elements (dget_or c ''behavior_rows'' (PList []))))
      \<lparr>GameCardId = card_id, ConfigComment = deck_name @ '': generated behavior for '' @ card_id, blocks = []\<rparr> = Inr config"
    by (auto simp: card_file_def)
  note parts = file_blocks [OF run]
  show "name = card_id @ ''.json''" by (rule name)
  show "GameCardId config = card_id" "wf_dict (blocks config)" using parts by (simp_all add: wf_dict_def)
  show "dget_or (blocks config) b [] = map (behavior_rule deck_name card_id)
      (filter (\<lambda>row. py_str (dget row ''behavior_block'') = b)
        (map items (elements (dget_or c ''behavior_rows'' (PList [])))))"
    using parts by (simp add: dget_or_def)
qed

lemma rmap_map: "rmap f xs = Inr ys \<Longrightarrow> (\<And>x y. f x = Inr y \<Longrightarrow> g y = h x) \<Longrightarrow> map g ys = map h xs"
  by (induction xs arbitrary: ys) auto

lemma elements_dget_or: "elements (dget_or d k (PList [])) = elements (dget d k)"
  by (auto simp: dget_def dget_or_def split: option.splits)

lemma wf_cards_from_contract:
  assumes "wf_val (PDict contract)" and "cards_from_contract contract = Inr cards"
  shows "wf_dict cards"
proof -
  have fold: "wf_dict cards" if "rfold (\<lambda>card cs.
      if \<not> is_map card then Inl (TypeError ''card'')
      else rbind (getitem (items card) ''card_id'') (\<lambda>card_id. Inr (dput (py_str card_id) (items card) cs))) xs cs = Inr cards"
    and "wf_dict cs" for xs cs
    using that(2) by (rule rfold_invariant [where P = wf_dict, OF that(1)]) (auto split: if_splits)
  show ?thesis
  proof (cases "dget_or contract ''cards'' (PDict [])")
    case (PDict cs)
    have "wf_dict cs"
    proof (cases "map_of contract ''cards''")
      case None
      with PDict show ?thesis by (simp add: dget_or_def wf_dict_def)
    next
      case (Some v)
      have "wf_val v" using assms(1) map_of_SomeD [OF Some] by (force simp: wf_items_iff)
      moreover have "v = PDict cs" using PDict Some by (simp add: dget_or_def)
      ultimately show ?thesis by simp
    qed
    moreover have "map fst cards = map fst cs"
      using assms(2) unfolding cards_from_contract_def PDict pyval.case
      by (rule rmap_map) (auto split: prod.splits)
    ultimately show ?thesis by (simp add: wf_dict_def)
  qed (use assms(2) fold [of _ "[]"] in \<open>auto simp: cards_from_contract_def wf_dict_def\<close>)
qed

lemma wf_merge_row_cards: "merge_row_cards cards row_cards = Inr cards' \<Longrightarrow> wf_dict cards \<Longrightarrow> wf_dict cards'"
  unfolding merge_row_cards_def by (erule rfold_invariant) (auto simp: merge_row_card_def Let_def)

section \<open>Which rows are compiled\<close>

definition runtime_id_of :: "dict \<Rightarrow> string" where
  \<comment> \<open>the card that a row is filed under\<close>
  "runtime_id_of row =
     py_str (if truthy (dget row ''runtime_card_id'') then dget row ''runtime_card_id'' else dget row ''card_id'')"

definition for_cardid :: "dict \<Rightarrow> bool" where
  "for_cardid row = (dget row ''surface_family'' = PStr ''CARDID.json'' \<or> dget row ''surface'' = PStr ''CARDID.json'')"

definition requested_row :: "string \<times> pyval \<Rightarrow> dict" where
  \<comment> \<open>a behaviour row under the id of its card, with a value\<close>
  "requested_row named_row =
     (let row = dput ''card_id'' (PStr (fst named_row)) (items (snd named_row)) in
      if dhas row ''value'' then row else dput ''value'' (PStr ''6'') row)"

definition card_pairs :: "cards \<Rightarrow> (string \<times> pyval) set" where
  \<comment> \<open>the behaviour rows of the cards, each with the id of its card\<close>
  "card_pairs cards = {(k, v). \<exists>c. map_of cards k = Some c \<and> v \<in> set (elements (dget c ''behavior_rows''))}"

definition row_pairs :: "dict list \<Rightarrow> (string \<times> pyval) set" where
  "row_pairs rows = (\<lambda>row. (runtime_id_of row, PDict row)) ` {row \<in> set rows. for_cardid row \<and> truthy (dget row ''behavior_block'')}"

definition requested_rows :: "cards \<Rightarrow> dict list \<Rightarrow> dict set" where
  \<comment> \<open>the behaviour rows of the contract's cards and those of the rows for cards\<close>
  "requested_rows cards rows = requested_row ` (card_pairs cards \<union> row_pairs rows)"

lemma card_pairs_Nil [simp]: "card_pairs [] = {}"
  by (simp add: card_pairs_def)

lemma card_pairs_dput:
  "card_pairs (dput k c cards) = {(k', v) \<in> card_pairs cards. k' \<noteq> k} \<union> {k} \<times> set (elements (dget c ''behavior_rows''))"
  by (auto simp: card_pairs_def split: if_splits)

lemma card_pairs_extend:
  assumes "elements (dget c ''behavior_rows'') = elements (dget (dget_or cards k []) ''behavior_rows'') @ vs"
  shows "card_pairs (dput k c cards) = card_pairs cards \<union> {k} \<times> set vs"
  unfolding card_pairs_dput assms by (auto simp: card_pairs_def dget_or_def dget_def split: option.splits if_splits)

lemma card_of_new: "dget (dget_or cards k (new_card x)) ''behavior_rows'' = dget (dget_or cards k []) ''behavior_rows''"
  by (auto simp: dget_or_def dget_def new_card_def split: option.splits)

lemma extend_list_other [simp]: "k \<noteq> k' \<Longrightarrow> dget (extend_list k vs c) k' = dget c k'"
  by (simp add: extend_list_def)

lemma extend_list_same [simp]: "elements (dget (extend_list k vs c) k) = elements (dget c k) @ vs"
  by (simp add: extend_list_def)

definition card_with_row :: "pyval list \<Rightarrow> pyval list \<Rightarrow> dict \<Rightarrow> dict \<Rightarrow> dict" where
  "card_with_row roles claims row c =
     (let card = extend_list ''roles'' roles c;
          card = (if truthy (dget row ''intent'')
                  then extend_list ''roles'' [PStr (py_str (dget row ''intent''))] card else card);
          card = extend_list ''source_claim_ids'' claims card in
      if truthy (dget row ''behavior_block'') then extend_list ''behavior_rows'' [PDict row] card else card)"

lemma card_with_row_rows: "elements (dget (card_with_row roles claims row c) ''behavior_rows'') =
    elements (dget c ''behavior_rows'') @ (if truthy (dget row ''behavior_block'') then [PDict row] else [])"
  by (auto simp: card_with_row_def Let_def)

lemma card_from_row_step:
  assumes "card_from_row row cards = Inr cards'"
  shows "if for_cardid row
    then \<exists>roles claims x. cards' = dput (runtime_id_of row)
      (card_with_row roles claims row (dget_or cards (runtime_id_of row) (new_card x))) cards
    else cards' = cards"
proof (cases "for_cardid row")
  case False
  with assms show ?thesis by (simp add: card_from_row_def for_cardid_def)
next
  case True
  then have "\<not> (dget row ''surface_family'' \<noteq> PStr ''CARDID.json'' \<and> dget row ''surface'' \<noteq> PStr ''CARDID.json'')"
    by (simp add: for_cardid_def)
  then have "card_from_row row cards =
      rbind (if truthy (dget row ''runtime_card_id'') then Inr (dget row ''runtime_card_id'') else getitem row ''card_id'') (\<lambda>named.
      rbind (texts (dget_or row ''roles'' (PList []))) (\<lambda>roles.
      rbind (iterate (dget_or row ''source_claim_ids'' (PList []))) (\<lambda>claims.
      Inr (dput (py_str named) (card_with_row (map PStr roles) claims row
        (dget_or cards (py_str named) (new_card (dget_or row ''confidence'' (PStr ''source_backed''))))) cards))))"
    unfolding card_from_row_def card_with_row_def Let_def by (simp only: if_False)
  with assms obtain named roles claims where named: "(if truthy (dget row ''runtime_card_id'')
      then Inr (dget row ''runtime_card_id'') else getitem row ''card_id'') = Inr named"
    and out: "cards' = dput (py_str named) (card_with_row (map PStr roles) claims row
        (dget_or cards (py_str named) (new_card (dget_or row ''confidence'' (PStr ''source_backed''))))) cards"
    unfolding rbind_Inr_iff by auto
  from named have "py_str named = runtime_id_of row" by (auto simp: runtime_id_of_def getitem_dget split: if_splits)
  with out True show ?thesis by auto
qed

lemma card_from_row_pairs:
  assumes "card_from_row row cards = Inr cards'"
  shows "card_pairs cards' = card_pairs cards \<union> row_pairs [row]"
    and "fst ` set cards' = fst ` set cards \<union> (if for_cardid row then {runtime_id_of row} else {})"
proof -
  let ?k = "runtime_id_of row"
  have "card_pairs cards' = card_pairs cards \<union> row_pairs [row]
      \<and> fst ` set cards' = fst ` set cards \<union> (if for_cardid row then {?k} else {})"
  proof (cases "for_cardid row")
    case False
    with card_from_row_step [OF assms] show ?thesis by (auto simp: row_pairs_def)
  next
    case True
    then obtain roles claims x where out:
      "cards' = dput ?k (card_with_row roles claims row (dget_or cards ?k (new_card x))) cards"
      using card_from_row_step [OF assms] by auto
    have "card_pairs cards' = card_pairs cards \<union> {?k} \<times> set (if truthy (dget row ''behavior_block'') then [PDict row] else [])"
      unfolding out by (rule card_pairs_extend) (simp only: card_with_row_rows card_of_new)
    then show ?thesis using True by (auto simp: keys_dput out row_pairs_def)
  qed
  then show "card_pairs cards' = card_pairs cards \<union> row_pairs [row]"
    and "fst ` set cards' = fst ` set cards \<union> (if for_cardid row then {?k} else {})" by blast+
qed

lemma cards_from_rows_pairs:
  assumes "cards_from_rows rows = Inr cards"
  shows "card_pairs cards = row_pairs rows" and "fst ` set cards = runtime_id_of ` {row \<in> set rows. for_cardid row}"
    and "wf_dict cards"
proof -
  have "card_pairs cards = card_pairs cs \<union> row_pairs rows
      \<and> fst ` set cards = fst ` set cs \<union> runtime_id_of ` {row \<in> set rows. for_cardid row}"
    if "rfold card_from_row rows cs = Inr cards" for cs
    using that
  proof (induction rows arbitrary: cs)
    case (Cons row rows)
    then obtain cs' where step: "card_from_row row cs = Inr cs'" and rest: "rfold card_from_row rows cs' = Inr cards" by auto
    from Cons.IH [OF rest] card_from_row_pairs [OF step] show ?case by (auto simp: row_pairs_def)
  qed (simp add: row_pairs_def)
  from this [of "[]"] assms show "card_pairs cards = row_pairs rows"
    and "fst ` set cards = runtime_id_of ` {row \<in> set rows. for_cardid row}" by (simp_all add: cards_from_rows_def)
  have "wf_dict cs'" if "card_from_row row cs = Inr cs'" "wf_dict cs" for row cs cs'
    using that(2) card_from_row_step [OF that(1)] by (auto split: if_splits)
  then show "wf_dict cards"
    using rfold_invariant [OF assms [unfolded cards_from_rows_def], of wf_dict] by (auto simp: wf_dict_def)
qed

lemma merge_row_card_pairs:
  assumes "merge_row_card (k, rc) cards = Inr cards'"
  shows "card_pairs cards' = card_pairs cards \<union> {k} \<times> set (elements (dget rc ''behavior_rows''))"
    and "fst ` set cards' = insert k (fst ` set cards)"
proof -
  let ?card = "dget_or cards k (new_card (dget_or rc ''confidence'' (PStr ''source_backed'')))"
  from assms obtain xs c where xs: "(case dget_or ?card ''behavior_rows'' (PList []) of
        PList xs \<Rightarrow> Inr xs | _ \<Rightarrow> Inl (AttributeError ''extend'')) = Inr xs"
    and c: "cards' = dput k c cards"
      "dget c ''behavior_rows'' = PList (xs @ elements (dget_or rc ''behavior_rows'' (PList [])))"
    by (auto simp: merge_row_card_def Let_def split: if_splits)
  from xs have "dget_or ?card ''behavior_rows'' (PList []) = PList xs" by (auto split: pyval.splits)
  then have "elements (dget ?card ''behavior_rows'') = xs" by (metis elements_dget_or elements.simps(1))
  then have "elements (dget c ''behavior_rows'') = elements (dget (dget_or cards k []) ''behavior_rows'')
      @ elements (dget rc ''behavior_rows'')"
    by (simp add: c card_of_new elements_dget_or)
  from card_pairs_extend [OF this]
  show "card_pairs cards' = card_pairs cards \<union> {k} \<times> set (elements (dget rc ''behavior_rows''))" by (simp add: c)
  show "fst ` set cards' = insert k (fst ` set cards)" by (simp add: c keys_dput)
qed

lemma merge_row_cards_pairs:
  assumes "merge_row_cards cards row_cards = Inr cards'" and "wf_dict row_cards"
  shows "card_pairs cards' = card_pairs cards \<union> card_pairs row_cards"
    and "fst ` set cards' = fst ` set cards \<union> fst ` set row_cards"
proof -
  have "card_pairs cards' = card_pairs cards \<union> card_pairs row_cards \<and> fst ` set cards' = fst ` set cards \<union> fst ` set row_cards"
    using assms(1) [unfolded merge_row_cards_def] assms(2)
  proof (induction row_cards arbitrary: cards)
    case (Cons named row_cards)
    obtain k rc where named: "named = (k, rc)" by (rule prod.exhaust)
    from Cons.prems(1) obtain cs where step: "merge_row_card (k, rc) cards = Inr cs"
      and rest: "rfold merge_row_card row_cards cs = Inr cards'" by (auto simp: named)
    have fresh: "map_of row_cards k = None" "wf_dict row_cards"
      using Cons.prems(2) by (auto simp: named wf_dict_def map_of_eq_None_iff)
    then have "card_pairs (named # row_cards) = {k} \<times> set (elements (dget rc ''behavior_rows'')) \<union> card_pairs row_cards"
      by (auto simp: card_pairs_def named split: if_splits)
    with Cons.IH [OF rest fresh(2)] merge_row_card_pairs [OF step] show ?case by (auto simp: named)
  qed simp
  then show "card_pairs cards' = card_pairs cards \<union> card_pairs row_cards"
    and "fst ` set cards' = fst ` set cards \<union> fst ` set row_cards" by blast+
qed

lemma dict_of_items: "dict_of v = Inr d \<Longrightarrow> d = items v"
  by (cases v) (auto simp: dict_of_def split: if_splits)

lemma iterate_elements: "iterate v = Inr xs \<Longrightarrow> xs = elements v"
  by (cases v) (auto simp: iterate_def)

lemma card_rows_pairs:
  assumes "rmap card_rows cards = Inr rs" and "wf_dict cards"
  shows "set (concat rs) = requested_row ` card_pairs cards"
proof -
  have one: "r = map (\<lambda>v. requested_row (k, v)) (elements (dget c ''behavior_rows''))" if "card_rows (k, c) = Inr r" for k c r
  proof -
    from that obtain xs where xs: "iterate (dget_or c ''behavior_rows'' (PList [])) = Inr xs"
      and r: "rmap (\<lambda>behavior_row. rbind (dict_of behavior_row) (\<lambda>d. let row = dput ''card_id'' (PStr k) d in
          Inr (if dhas row ''value'' then row else dput ''value'' (PStr ''6'') row))) xs = Inr r"
      by (auto simp: card_rows_def)
    have "map (\<lambda>x. x) r = map (\<lambda>v. requested_row (k, v)) xs"
      using r by (rule rmap_map) (auto simp: requested_row_def Let_def dest!: dict_of_items)
    with iterate_elements [OF xs] show ?thesis by (simp add: elements_dget_or)
  qed
  have "map set rs = map (\<lambda>(k, c). (\<lambda>v. requested_row (k, v)) ` set (elements (dget c ''behavior_rows''))) cards"
    using assms(1) by (rule rmap_map) (auto dest!: one)
  then have "set (concat rs) = \<Union> (set (map (\<lambda>(k, c). (\<lambda>v. requested_row (k, v)) ` set (elements (dget c ''behavior_rows''))) cards))"
    by (metis set_concat set_map)
  also have "\<dots> = requested_row ` card_pairs cards"
    using assms(2) by (force simp: card_pairs_def wf_dict_def)
  finally show ?thesis .
qed

lemma given_rows:
  assumes "rfold give_row rows (map (\<lambda>(card_id, c). (card_id, dput ''behavior_rows'' (PList []) c)) cards) = Inr cards'"
    and "wf_dict cards" and "(k, c) \<in> set cards'"
  shows "elements (dget c ''behavior_rows'') = map PDict (filter (\<lambda>row. py_str (dget row ''card_id'') = k) rows)"
proof -
  let ?cards = "map (\<lambda>(card_id, c). (card_id, dput ''behavior_rows'' (PList []) c)) cards"
  have "dkeys ?cards = dkeys cards" unfolding dkeys_def map_map by (rule map_cong [OF refl]) (simp split: prod.split)
  with give_row_keys [OF assms(1)] have "dkeys cards' = dkeys cards" by simp
  then have "wf_dict cards'" using assms(2) by (simp add: wf_dict_def dkeys_def)
  then have "map_of cards' k = Some c" using assms(3) by (simp add: wf_dict_def)
  from give_row_rows [OF assms(1) this] obtain c0 where c0: "map_of ?cards k = Some c0"
    and el: "elements (dget c ''behavior_rows'') = elements (dget c0 ''behavior_rows'')
        @ map PDict (filter (\<lambda>row. py_str (dget row ''card_id'') = k) rows)" by blast
  from c0 have "dget c0 ''behavior_rows'' = PList []" by (auto dest!: map_of_SomeD)
  with el show ?thesis by simp
qed

lemma compiled:
  assumes "compile_cardid_behaviors contract name rows = Inr out" and "wf_val (PDict contract)"
  obtains canonical deck input cc where "canonicalize_runtime_rows input = Inr canonical"
    and "cards_from_contract contract = Inr cc"
    and "set input = requested_rows cc (fst (partition_runtime_entity_owner_rows rows))"
    and "fst ` set (files out) = (\<lambda>k. k @ ''.json'') ` (fst ` set cc
      \<union> runtime_id_of ` {row \<in> set (fst (partition_runtime_entity_owner_rows rows)). for_cardid row})"
    and "\<And>row. row \<in> set (row_list canonical) \<Longrightarrow> py_str (dget row ''card_id'') @ ''.json'' \<in> fst ` set (files out)"
    and "merged_duplicate_runtime_row_count out = merged_duplicate_count canonical"
    and "runtime_row_conflicts out = conflicts canonical" and "wf_dict (files out)"
    and "\<And>f config b. (f, config) \<in> set (files out) \<Longrightarrow> f = GameCardId config @ ''.json'' \<and> wf_dict (blocks config)
      \<and> dget_or (blocks config) b [] = map (behavior_rule deck (GameCardId config))
          (filter (\<lambda>row. py_str (dget row ''behavior_block'') = b) (file_rows (GameCardId config) canonical))"
proof -
  obtain accepted collisions where part: "partition_runtime_entity_owner_rows rows = (accepted, collisions)" by force
  obtain deck where deck: "deck = (if name = [] then py_str (dget_or contract ''deck_name'' (PStr ''Deck'')) else name)" by simp
  from assms(1) part obtain cc cs0 cards canonical fs where cc: "cards_from_contract contract = Inr cc"
    and cs0: "(if accepted = [] then Inr cc else rbind (cards_from_rows accepted) (merge_row_cards cc)) = Inr cs0"
    and canon: "canonicalize_card_behavior_rows cs0 = Inr (cards, canonical)"
    and fs: "rmap (card_file deck) (sort_key fst cards) = Inr fs"
    and out: "out = \<lparr>files = fs, merged_duplicate_runtime_row_count = merged_duplicate_count canonical,
           runtime_row_conflicts = conflicts canonical, runtime_entity_owner_collisions = collisions\<rparr>"
    by (auto simp: compile_cardid_behaviors_def Let_def deck)
  have wf: "wf_dict cs0"
    using wf_cards_from_contract [OF assms(2) cc] cs0 by (auto intro: wf_merge_row_cards split: if_splits)
  have cs0_rows: "card_pairs cs0 = card_pairs cc \<union> row_pairs accepted
      \<and> fst ` set cs0 = fst ` set cc \<union> runtime_id_of ` {row \<in> set accepted. for_cardid row}"
  proof (cases "accepted = []")
    case True
    with cs0 show ?thesis by (simp add: row_pairs_def)
  next
    case False
    with cs0 obtain rc where rc: "cards_from_rows accepted = Inr rc" "merge_row_cards cc rc = Inr cs0" by auto
    show ?thesis
      using cards_from_rows_pairs [OF rc(1)] merge_row_cards_pairs [OF rc(2) cards_from_rows_pairs(3) [OF rc(1)]] by simp
  qed
  from canon obtain rs where rs: "rmap card_rows cs0 = Inr rs" and canonical: "canonicalize_runtime_rows (concat rs) = Inr canonical"
    and give: "rfold give_row (row_list canonical)
        (map (\<lambda>(card_id, c). (card_id, dput ''behavior_rows'' (PList []) c)) cs0) = Inr cards"
    by (auto simp: canonicalize_card_behavior_rows_def)
  have "dkeys (map (\<lambda>(card_id, c). (card_id, dput ''behavior_rows'' (PList []) c)) cs0) = dkeys cs0"
    unfolding dkeys_def map_map by (rule map_cong [OF refl]) (simp split: prod.split)
  with give_row_keys [OF give] have keys: "dkeys cards = dkeys cs0" by simp
  with wf have wf_cards: "wf_dict cards" by (simp add: wf_dict_def dkeys_def)
  have "map fst fs = map (\<lambda>kc. fst kc @ ''.json'') (sort_key fst cards)"
    using fs by (rule rmap_map) (auto dest: card_file_parts(1))
  then have names: "map fst fs = map (\<lambda>k. k @ ''.json'') (map fst (sort_key fst cards))" by simp
  then have name_set: "fst ` set fs = (\<lambda>k. k @ ''.json'') ` set (dkeys cs0)"
  proof -
    have "set (map fst fs) = (\<lambda>k. k @ ''.json'') ` set (map fst (sort_key fst cards))" by (simp only: names set_map)
    also have "set (map fst (sort_key fst cards)) = set (dkeys cards)" by simp
    finally show ?thesis by (simp only: keys set_map)
  qed
  note names
  moreover have "distinct (map fst (sort_key fst cards))"
    using wf_cards by (simp add: wf_dict_def distinct_map_sort)
  ultimately have wf_fs: "wf_dict fs" unfolding wf_dict_def by (metis (no_types, lifting) append_same_eq distinct_map inj_onI)
  show thesis
  proof (rule that [OF canonical cc])
    show "set (concat rs) = requested_rows cc (fst (partition_runtime_entity_owner_rows rows))"
      unfolding card_rows_pairs [OF rs wf] by (simp add: requested_rows_def cs0_rows part)
    show "fst ` set (files out) = (\<lambda>k. k @ ''.json'') ` (fst ` set cc
        \<union> runtime_id_of ` {row \<in> set (fst (partition_runtime_entity_owner_rows rows)). for_cardid row})"
      using name_set cs0_rows by (simp add: out part)
  next
    fix row assume "row \<in> set (row_list canonical)"
    then have "py_str (dget row ''card_id'') \<in> set (dkeys cards)" by (rule give_row_found [OF give])
    then show "py_str (dget row ''card_id'') @ ''.json'' \<in> fst ` set (files out)"
      unfolding keys using name_set by (auto simp: out)
  next
    show "wf_dict (files out)" using wf_fs by (simp add: out)
  next
    fix f config b assume "(f, config) \<in> set (files out)"
    then have "(f, config) \<in> set fs" by (simp add: out)
    then obtain kc where kc: "kc \<in> set cards" and made: "card_file deck kc = Inr (f, config)"
      using rmap_Inr_in [OF fs, of "(f, config)"] unfolding set_sort by blast
    obtain k c where k: "kc = (k, c)" by (rule prod.exhaust)
    note parts = card_file_parts [OF made [unfolded k]]
    show "f = GameCardId config @ ''.json'' \<and> wf_dict (blocks config)
      \<and> dget_or (blocks config) b [] = map (behavior_rule deck (GameCardId config))
          (filter (\<lambda>row. py_str (dget row ''behavior_block'') = b) (file_rows (GameCardId config) canonical))"
      using parts(1,2,3) parts(4) [of b] given_rows [OF give wf kc [unfolded k]]
      by (simp add: elements_dget_or file_rows_def comp_def)
  qed (simp_all add: out)
qed

definition condition_of :: "dict \<Rightarrow> string" where
  "condition_of row = py_str (dget_or row ''condition'' (PStr ''*''))"

definition rule_key :: "string \<Rightarrow> string \<Rightarrow> card_rule \<Rightarrow> runtime_row_key" where
  "rule_key card_id block r = (strip card_id, strip block, or_any (strip (rule_condition r)))"

lemma rule_key_row:
  "py_str (dget row ''card_id'') = c \<Longrightarrow> py_str (dget row ''behavior_block'') = b \<Longrightarrow>
     rule_key c b (behavior_rule deck c row) = row_key row"
  by (simp add: rule_key_def behavior_rule_def row_key_def runtime_row_key_def Let_def)

lemma rule_keys:
  assumes "canonicalize_runtime_rows input = Inr canonical"
    and "rules = map (behavior_rule deck c) (filter (\<lambda>row. py_str (dget row ''behavior_block'') = b) (file_rows c canonical))"
  shows "distinct (map (rule_key c b) rules)"
    and "r \<in> set rules \<Longrightarrow> rule_key c b r \<notin> conflict_key ` set (conflicts canonical)"
proof -
  let ?rs = "filter (\<lambda>row. py_str (dget row ''behavior_block'') = b) (file_rows c canonical)"
  have in_rs: "row \<in> set ?rs \<Longrightarrow> row \<in> set (row_list canonical) \<and> rule_key c b (behavior_rule deck c row) = row_key row" for row
    by (auto simp: file_rows_def rule_key_row)
  obtain ns where ns: "rmap normalize_row input = Inr ns" using assms(1) by (rule canonicalized)
  have keys: "map (rule_key c b) rules = map row_key ?rs"
    unfolding assms(2) map_map comp_def using in_rs by (intro map_cong) auto
  have "distinct (map row_key (row_list canonical))" by (rule emitted_rows(2) [OF assms(1) ns])
  then have "distinct (map row_key ?rs)" unfolding file_rows_def by (intro distinct_map_filter)
  then show "distinct (map (rule_key c b) rules)" by (simp only: keys)
  assume "r \<in> set rules"
  then obtain row where row: "row \<in> set (row_list canonical)" "rule_key c b r = row_key row"
    using in_rs unfolding assms(2) by auto
  then have agree: "\<forall>n \<in> set ns. row_key n = row_key row \<longrightarrow> row_value n = row_value row"
    using emitted_rows(1) [OF assms(1) ns, of "row_key row" "row_value row"] by blast
  show "rule_key c b r \<notin> conflict_key ` set (conflicts canonical)"
  proof
    assume "rule_key c b r \<in> conflict_key ` set (conflicts canonical)"
    then have "\<exists>x \<in> set (conflicts canonical). conflict_key x = row_key row" using row(2) by auto
    then show False unfolding conflict_groups [OF assms(1) ns] using agree by metis
  qed
qed

definition states_rule :: "compiled_card_files \<Rightarrow> string \<Rightarrow> string \<Rightarrow> string \<Rightarrow> string \<Rightarrow> bool" where
  \<comment> \<open>a rule with the condition \<open>d\<close> and the value \<open>v\<close> stands in block \<open>b\<close> of the file of card \<open>c\<close>\<close>
  "states_rule out c b d v = (\<exists>config rules r. (c @ ''.json'', config) \<in> set (files out) \<and> (b, rules) \<in> set (blocks config)
     \<and> r \<in> set rules \<and> rule_condition r = d \<and> rule_value r = v)"

lemma block_rules:
  assumes "f = GameCardId config @ ''.json'' \<and> wf_dict (blocks config) \<and> dget_or (blocks config) b [] = rs"
    and "(b, rules) \<in> set (blocks config)"
  shows "rules = rs"
  using assms by (auto simp: dget_or_def wf_dict_def)

lemma rule_of_row:
  assumes "canonicalize_runtime_rows input = Inr canonical" and "row \<in> set (row_list canonical)"
  shows "row_key row = (py_str (dget row ''card_id''), py_str (dget row ''behavior_block''), rule_condition (behavior_rule deck c row))"
    and "rule_value (behavior_rule deck c row) = row_value row"
proof -
  show "row_key row = (py_str (dget row ''card_id''), py_str (dget row ''behavior_block''), rule_condition (behavior_rule deck c row))"
    using emitted_fields [OF assms, of "''*''"] by (simp add: behavior_rule_def Let_def)
  show "rule_value (behavior_rule deck c row) = row_value row"
    using emitted_value [OF assms] by (auto simp: behavior_rule_def Let_def row_value_def dget_def dget_or_def dhas_def split: option.splits)
qed

lemma states_rule_iff:
  assumes canonical: "canonicalize_runtime_rows input = Inr canonical"
    and files: "\<And>f config b. (f, config) \<in> set (files out) \<Longrightarrow> f = GameCardId config @ ''.json'' \<and> wf_dict (blocks config)
      \<and> dget_or (blocks config) b [] = map (behavior_rule deck (GameCardId config))
          (filter (\<lambda>row. py_str (dget row ''behavior_block'') = b) (file_rows (GameCardId config) canonical))"
    and found: "\<And>row. row \<in> set (row_list canonical) \<Longrightarrow> py_str (dget row ''card_id'') @ ''.json'' \<in> fst ` set (files out)"
  shows "states_rule out c b d v \<longleftrightarrow> (\<exists>row \<in> set (row_list canonical). row_key row = (c, b, d) \<and> row_value row = v)"
proof
  assume "states_rule out c b d v"
  then obtain config rules r where r: "(c @ ''.json'', config) \<in> set (files out)" "(b, rules) \<in> set (blocks config)"
    "r \<in> set rules" "rule_condition r = d" "rule_value r = v" by (auto simp: states_rule_def)
  from files [OF r(1)] have c: "GameCardId config = c" by blast
  with block_rules [OF files [OF r(1)] r(2)] r(3) obtain row where row: "row \<in> set (row_list canonical)"
    "py_str (dget row ''card_id'') = c" "py_str (dget row ''behavior_block'') = b" "r = behavior_rule deck c row"
    by (auto simp: file_rows_def)
  have "row_key row = (c, b, d)" "row_value row = v"
    using rule_of_row [OF canonical row(1), of deck c] row(2,3) r(4,5) by (simp_all add: row(4))
  with row(1) show "\<exists>row \<in> set (row_list canonical). row_key row = (c, b, d) \<and> row_value row = v" by blast
next
  assume "\<exists>row \<in> set (row_list canonical). row_key row = (c, b, d) \<and> row_value row = v"
  then obtain row where row: "row \<in> set (row_list canonical)" "row_key row = (c, b, d)" "row_value row = v" by blast
  let ?r = "behavior_rule deck c row"
  from rule_of_row [OF canonical row(1), of deck c] row(2,3)
  have fields: "py_str (dget row ''card_id'') = c" "py_str (dget row ''behavior_block'') = b"
    "rule_condition ?r = d" "rule_value ?r = v" by simp_all
  from found [OF row(1)] obtain config where config: "(c @ ''.json'', config) \<in> set (files out)" by (auto simp: fields(1))
  from files [OF config] have c: "GameCardId config = c" by blast
  have "?r \<in> set (dget_or (blocks config) b [])"
    using files [OF config, of b] row(1) fields(1,2) by (auto simp: c file_rows_def)
  then obtain rules where "(b, rules) \<in> set (blocks config)" "?r \<in> set rules"
    by (cases "map_of (blocks config) b") (auto simp: dget_or_def dest: map_of_SomeD)
  with config fields(3,4) show "states_rule out c b d v" unfolding states_rule_def by blast
qed

section \<open>Properties\<close>

text \<open>
  C40. The compiled files say exactly what the rows ask for. There is one file for each card of the
  contract and each card that an accepted row is filed under, and no other file. A rule stands in
  the file of a card, in a block, with a condition and a value, exactly if a behaviour row of the
  contract or of the accepted rows asks for it (up to blanks, an absent condition being \<open>*\<close> and an
  absent value \<open>6\<close>) and every other row for that card, block and condition has the same value;
  and the rows of a card, block and condition with two values are reported as a conflict. In a block
  no two rules have the same condition, also not up to blanks.
\<close>
theorem compiled_files_consistent:
  assumes "compile_cardid_behaviors contract name rows = Inr out" and "wf_val (PDict contract)"
  shows "wf_dict (files out) \<and> (\<forall>(f, config) \<in> set (files out). f = GameCardId config @ ''.json''
    \<and> (\<forall>(block, rules) \<in> set (blocks config). distinct (map (rule_key (GameCardId config) block) rules)
        \<and> (\<forall>r \<in> set rules. rule_key (GameCardId config) block r \<notin> conflict_key ` set (runtime_row_conflicts out))))
    \<and> (\<exists>contract_cards. cards_from_contract contract = Inr contract_cards
        \<and> fst ` set (files out) = (\<lambda>k. k @ ''.json'') ` (fst ` set contract_cards
            \<union> runtime_id_of ` {row \<in> set (fst (partition_runtime_entity_owner_rows rows)). for_cardid row})
        \<and> (let asked = requested_rows contract_cards (fst (partition_runtime_entity_owner_rows rows)) in
           \<forall>c b d v. (states_rule out c b d v \<longleftrightarrow>
                (\<exists>row \<in> asked. input_key row = (c, b, d)) \<and> (\<forall>row \<in> asked. input_key row = (c, b, d) \<longrightarrow> input_value row = v))
             \<and> ((c, b, d) \<in> conflict_key ` set (runtime_row_conflicts out) \<longleftrightarrow>
                (\<exists>row \<in> asked. \<exists>row' \<in> asked. input_key row = (c, b, d) \<and> input_key row' = (c, b, d)
                   \<and> input_value row \<noteq> input_value row'))))"
proof -
  let ?accepted = "fst (partition_runtime_entity_owner_rows rows)"
  obtain canonical deck input cc where canonical: "canonicalize_runtime_rows input = Inr canonical"
    and cc: "cards_from_contract contract = Inr cc" and asked: "set input = requested_rows cc ?accepted"
    and names: "fst ` set (files out) = (\<lambda>k. k @ ''.json'') ` (fst ` set cc
      \<union> runtime_id_of ` {row \<in> set ?accepted. for_cardid row})"
    and found: "\<And>row. row \<in> set (row_list canonical) \<Longrightarrow> py_str (dget row ''card_id'') @ ''.json'' \<in> fst ` set (files out)"
    and conf: "runtime_row_conflicts out = conflicts canonical" and wf: "wf_dict (files out)"
    and files: "\<And>f config b. (f, config) \<in> set (files out) \<Longrightarrow> f = GameCardId config @ ''.json'' \<and> wf_dict (blocks config)
      \<and> dget_or (blocks config) b [] = map (behavior_rule deck (GameCardId config))
          (filter (\<lambda>row. py_str (dget row ''behavior_block'') = b) (file_rows (GameCardId config) canonical))"
    by (rule compiled [OF assms]) blast
  have "distinct (map (rule_key (GameCardId config) block) rules)
      \<and> (\<forall>r \<in> set rules. rule_key (GameCardId config) block r \<notin> conflict_key ` set (runtime_row_conflicts out))"
    if "(f, config) \<in> set (files out)" "(block, rules) \<in> set (blocks config)" for f config block rules
    using rule_keys [OF canonical block_rules [OF files [OF that(1)] that(2)]] unfolding conf by blast
  with wf files have single: "wf_dict (files out) \<and> (\<forall>(f, config) \<in> set (files out). f = GameCardId config @ ''.json''
    \<and> (\<forall>(block, rules) \<in> set (blocks config). distinct (map (rule_key (GameCardId config) block) rules)
        \<and> (\<forall>r \<in> set rules. rule_key (GameCardId config) block r \<notin> conflict_key ` set (runtime_row_conflicts out))))"
    by fast
  note decide = canonical_decisions [OF canonical, unfolded asked]
  have "states_rule out c b d v \<longleftrightarrow> (\<exists>row \<in> set (row_list canonical). row_key row = (c, b, d) \<and> row_value row = v)" for c b d v
    by (rule states_rule_iff [OF canonical files found])
  then have rules_iff: "states_rule out c b d v \<longleftrightarrow> (\<exists>row \<in> requested_rows cc ?accepted. input_key row = (c, b, d))
        \<and> (\<forall>row \<in> requested_rows cc ?accepted. input_key row = (c, b, d) \<longrightarrow> input_value row = v)" for c b d v
    using decide [of "(c, b, d)" v] by simp
  have conflict_iff: "(c, b, d) \<in> conflict_key ` set (runtime_row_conflicts out) \<longleftrightarrow>
      (\<exists>row \<in> requested_rows cc ?accepted. \<exists>row' \<in> requested_rows cc ?accepted. input_key row = (c, b, d)
         \<and> input_key row' = (c, b, d) \<and> input_value row \<noteq> input_value row')" for c b d
  proof -
    have "(c, b, d) \<in> conflict_key ` set (runtime_row_conflicts out) \<longleftrightarrow> (\<exists>x \<in> set (conflicts canonical). conflict_key x = (c, b, d))"
      unfolding conf by force
    with decide [of "(c, b, d)"] show ?thesis by simp
  qed
  show ?thesis
    by (intro conjI exI [of _ cc] single [THEN conjunct1] single [THEN conjunct2] cc names)
      (simp only: Let_def rules_iff conflict_iff simp_thms)
qed

theorem compiled_files_consistent_witness:
  "\<exists>out. compile_cardid_behaviors [] ''D'' (map ((#) (''surface'', PStr ''CARDID.json'')) demo_rows) = Inr out
     \<and> wf_dict (files out)"
proof -
  have "case compile_cardid_behaviors [] ''D'' (map ((#) (''surface'', PStr ''CARDID.json'')) demo_rows) of
      Inr out \<Rightarrow> True | Inl e \<Rightarrow> False"
    by code_simp
  then obtain out where "compile_cardid_behaviors [] ''D'' (map ((#) (''surface'', PStr ''CARDID.json'')) demo_rows) = Inr out"
    by (auto split: sum.splits)
  with compiled_files_consistent [OF this] show ?thesis by (auto simp: wf_dict_def)
qed

end
