(* ===== verification/CrashMonad.thy ===== *)
theory CrashMonad
  imports PyValue
begin

text \<open>
  Prelude for code that changes a file system step by step: programs over a state that record the
  state after every change, so that a crash can be considered at each of them. A program returns the
  trace of these states, its result or exception, and the final state. Statements about all crash
  points are proved with a weakest precondition \<open>wp\<close>, whose equations are simplification rules, and
  with \<open>keeps\<close>: a part of the state that a program leaves alone throughout.
\<close>

section \<open>Programs\<close>

type_synonym ('s, 'a) prog = "'s \<Rightarrow> 's list \<times> 'a res \<times> 's"

definition preturn :: "'a \<Rightarrow> ('s, 'a) prog" where
  "preturn x s = ([], Inr x, s)"

definition praise :: "exn \<Rightarrow> ('s, 'a) prog" where
  "praise e s = ([], Inl e, s)"

definition plift :: "'a res \<Rightarrow> ('s, 'a) prog" where
  \<comment> \<open>a computation that does not touch the state\<close>
  "plift r s = ([], r, s)"

definition pget :: "('s \<Rightarrow> 'a) \<Rightarrow> ('s, 'a) prog" where
  "pget f s = ([], Inr (f s), s)"

definition pgets :: "('s \<Rightarrow> 'a res) \<Rightarrow> ('s, 'a) prog" where
  \<comment> \<open>a reading that may raise\<close>
  "pgets f s = ([], f s, s)"

definition pstep :: "('s \<Rightarrow> 's) \<Rightarrow> ('s, unit) prog" where
  \<comment> \<open>one change of the state, after which the program may be killed\<close>
  "pstep f s = ([f s], Inr (), f s)"

definition pbind :: "('s, 'a) prog \<Rightarrow> ('a \<Rightarrow> ('s, 'b) prog) \<Rightarrow> ('s, 'b) prog" where
  "pbind m f s =
     (case m s of
        (t, Inl e, s1) \<Rightarrow> (t, Inl e, s1)
      | (t, Inr x, s1) \<Rightarrow> (case f x s1 of (t', r, s2) \<Rightarrow> (t @ t', r, s2)))"

definition ptry :: "('s, 'a) prog \<Rightarrow> (exn \<Rightarrow> ('s, 'a) prog) \<Rightarrow> ('s, 'a) prog" where
  \<comment> \<open>\<open>try: m except Exception as e: h(e)\<close>\<close>
  "ptry m h s =
     (case m s of
        (t, Inr x, s1) \<Rightarrow> (t, Inr x, s1)
      | (t, Inl e, s1) \<Rightarrow> (case h e s1 of (t', r, s2) \<Rightarrow> (t @ t', r, s2)))"

definition pensure :: "bool \<Rightarrow> exn \<Rightarrow> ('s, unit) prog" where
  \<comment> \<open>\<open>if not c: raise e\<close>\<close>
  "pensure c e = plift (ensure c e)"

definition pwhen :: "bool \<Rightarrow> ('s, unit) prog \<Rightarrow> ('s, unit) prog" where
  "pwhen c m = (if c then m else preturn ())"

fun pfold :: "('a \<Rightarrow> 'b \<Rightarrow> ('s, 'b) prog) \<Rightarrow> 'a list \<Rightarrow> 'b \<Rightarrow> ('s, 'b) prog" where
  \<comment> \<open>a \<open>for\<close> loop with a local variable\<close>
  "pfold f [] b = preturn b"
| "pfold f (x # xs) b = pbind (f x b) (pfold f xs)"

definition pfor :: "'a list \<Rightarrow> ('a \<Rightarrow> ('s, unit) prog) \<Rightarrow> ('s, unit) prog" where
  "pfor xs f = pfold (\<lambda>x _. f x) xs ()"

definition crash_points :: "('s, 'a) prog \<Rightarrow> 's \<Rightarrow> 's set" where
  \<comment> \<open>every state in which the program can be killed or ends\<close>
  "crash_points m s = (case m s of (t, r, s') \<Rightarrow> insert s (insert s' (set t)))"

section \<open>Weakest preconditions\<close>

definition wp :: "('s \<Rightarrow> bool) \<Rightarrow> ('s, 'a) prog \<Rightarrow> ('a \<Rightarrow> 's \<Rightarrow> bool) \<Rightarrow> 's \<Rightarrow> bool" where
  \<comment> \<open>\<open>I\<close> holds at every crash point after the first and where an exception leaves the program,
    \<open>Q\<close> holds of the value and the state if it returns\<close>
  "wp I m Q s =
     (case m s of (t, r, s') \<Rightarrow> list_all I t \<and> (case r of Inl e \<Rightarrow> I s' | Inr x \<Rightarrow> Q x s'))"

named_theorems wp_rules \<open>weakest preconditions of the operations\<close>

lemma wp_basic [simp, wp_rules]:
  "wp I (preturn x) Q1 s = Q1 x s"
  "wp I (praise e) Q2 s = I s"
  "wp I (plift r) Q s = (case r of Inl e \<Rightarrow> I s | Inr x \<Rightarrow> Q x s)"
  "wp I (pget f) Q' s = Q' (f s) s"
  "wp I (pgets g) Q3 s = (case g s of Inl e \<Rightarrow> I s | Inr x \<Rightarrow> Q3 x s)"
  "wp I (pstep h) R s = (I (h s) \<and> R () (h s))"
  by (simp_all add: wp_def preturn_def praise_def plift_def pget_def pgets_def pstep_def)

lemma wp_bind [simp, wp_rules]: "wp I (pbind m f) Q s = wp I m (\<lambda>x. wp I (f x) Q) s"
  by (auto simp: wp_def pbind_def split: prod.splits sum.splits)

lemma wp_bind_get: "wp I (pbind (pget f) g) Q s = wp I (g (f s)) Q s"
  by simp

lemma wp_ensure [simp, wp_rules]: "wp I (pensure c e) Q s = (if c then Q () s else I s)"
  by (simp add: pensure_def)

lemma wp_when [simp, wp_rules]: "wp I (pwhen c m) Q s = (if c then wp I m Q s else Q () s)"
  by (simp add: pwhen_def)

lemma wp_mono: "wp I m Q s \<Longrightarrow> (\<And>x s. Q x s \<Longrightarrow> Q' x s) \<Longrightarrow> wp I m Q' s"
  by (auto simp: wp_def split: prod.splits sum.splits)

lemma wp_conj: "wp I m Q s \<Longrightarrow> wp I m R s \<Longrightarrow> wp I m (\<lambda>x s. Q x s \<and> R x s) s"
  by (auto simp: wp_def split: prod.splits sum.splits)

lemma wp_seq: "wp I m R s \<Longrightarrow> (\<And>x s'. R x s' \<Longrightarrow> wp I (f x) Q s') \<Longrightarrow> wp I (pbind m f) Q s"
  unfolding wp_bind by (rule wp_mono)

lemma wp_weaken: "wp I m Q s \<Longrightarrow> (\<And>u. I u \<Longrightarrow> I' u) \<Longrightarrow> (\<And>x u. Q x u \<Longrightarrow> Q' x u) \<Longrightarrow> wp I' m Q' s"
  by (auto simp: wp_def list_all_iff split: prod.splits sum.splits)

lemma wp_try:
  assumes "wp I m Q s" and "\<And>e s'. I s' \<Longrightarrow> wp I (h e) Q s'"
  shows "wp I (ptry m h) Q s"
proof -
  obtain t r s' where m: "m s = (t, r, s')" by (rule prod_cases3)
  show ?thesis
  proof (cases r)
    case (Inl e)
    with assms(1) m have "list_all I t" "I s'" by (simp_all add: wp_def)
    with assms(2) [of s' e] show ?thesis
      by (auto simp: wp_def ptry_def m Inl split: prod.splits sum.splits)
  next
    case (Inr x)
    with assms(1) m show ?thesis by (simp add: wp_def ptry_def)
  qed
qed

lemma wp_fold:
  assumes "\<And>x b s. x \<in> set xs \<Longrightarrow> J b s \<Longrightarrow> wp I (f x b) J s" and "J b s"
  shows "wp I (pfold f xs b) J s"
  using assms
proof (induction xs arbitrary: b s)
  case (Cons x xs)
  have "wp I (f x b) J s" using Cons.prems by simp
  then have "wp I (f x b) (\<lambda>b'. wp I (pfold f xs b') J) s"
    by (rule wp_mono) (use Cons in simp)
  then show ?case by simp
qed simp

lemma wp_for:
  assumes "\<And>x s. x \<in> set xs \<Longrightarrow> J s \<Longrightarrow> wp I (f x) (\<lambda>_. J) s" and "J s"
  shows "wp I (pfor xs f) (\<lambda>_. J) s"
  unfolding pfor_def by (rule wp_fold) (use assms in simp_all)

lemma wp_all_crash_points:
  assumes "wp I m (\<lambda>_. I) s" and "I s"
  shows "crash_points m s \<subseteq> Collect I"
  using assms by (auto simp: wp_def crash_points_def list_all_iff split: prod.splits sum.splits)

lemma wp_crash_points:
  assumes "wp I m (\<lambda>_. I) s" and "I s" and "u \<in> crash_points m s"
  shows "I u"
  using assms by (auto simp: wp_def crash_points_def list_all_iff split: prod.splits sum.splits)

lemma wp_result:
  assumes "wp I m Q s" and "m s = (t, Inr x, s')"
  shows "Q x s'"
  using assms by (simp add: wp_def)

section \<open>What a program returns\<close>

definition returns :: "('a \<Rightarrow> bool) \<Rightarrow> ('s, 'a) prog \<Rightarrow> bool" where
  "returns V m = (\<forall>s t x s'. m s = (t, Inr x, s') \<longrightarrow> V x)"

named_theorems returns_rules \<open>values that programs return\<close>

lemma returns_basic [returns_rules]:
  "V x \<Longrightarrow> returns V (preturn x)" "returns V (praise e)" "(\<And>x. r = Inr x \<Longrightarrow> V x) \<Longrightarrow> returns V (plift r)"
  "returns U (pstep g)" if "\<And>u. U u"
  using that by (simp_all add: returns_def preturn_def praise_def plift_def pstep_def)

lemma returns_bind_plift: "(\<And>x. r = Inr x \<Longrightarrow> returns V (f x)) \<Longrightarrow> returns V (pbind (plift r) f)"
  by (auto simp: returns_def pbind_def plift_def split: sum.splits prod.splits)

lemma returns_bind_get: "(\<And>s. returns V (f (g s))) \<Longrightarrow> returns V (pbind (pget g) f)"
  by (auto simp: returns_def pbind_def pget_def split: sum.splits prod.splits)

lemma returns_bind [returns_rules]:
  assumes "\<And>x. returns V (f x)"
  shows "returns V (pbind m f)"
  unfolding returns_def
proof (intro allI impI)
  fix s t x s'
  assume "pbind m f s = (t, Inr x, s')"
  then obtain y u v where "f y u = (v, Inr x, s')" by (auto simp: pbind_def split: sum.splits prod.splits)
  with assms [of y] show "V x" by (auto simp: returns_def)
qed

lemma returns_bind_value:
  assumes "returns V m" and "\<And>x. V x \<Longrightarrow> returns W (f x)"
  shows "returns W (pbind m f)"
  unfolding returns_def
proof (intro allI impI)
  fix s t x s'
  assume "pbind m f s = (t, Inr x, s')"
  then obtain t1 y u v where "m s = (t1, Inr y, u)" "f y u = (v, Inr x, s')"
    by (auto simp: pbind_def split: sum.splits prod.splits)
  moreover from this(1) assms(1) have "V y" by (auto simp: returns_def)
  ultimately show "W x" using assms(2) [of y] by (auto simp: returns_def)
qed

lemma returns_cases [returns_rules]:
  "(b \<Longrightarrow> returns V m) \<Longrightarrow> (\<not> b \<Longrightarrow> returns V m') \<Longrightarrow> returns V (if b then m else m')"
  "(\<And>x y. q = (x, y) \<Longrightarrow> returns V (f x y)) \<Longrightarrow> returns V (case q of (x, y) \<Rightarrow> f x y)"
  "(\<And>e. r = Inl e \<Longrightarrow> returns V (g e)) \<Longrightarrow> (\<And>x. r = Inr x \<Longrightarrow> returns V (k x)) \<Longrightarrow>
     returns V (case r of Inl e \<Rightarrow> g e | Inr x \<Rightarrow> k x)"
  by (auto split: prod.splits sum.splits)

lemma returns_weaken: "returns V m \<Longrightarrow> (\<And>x. V x \<Longrightarrow> W x) \<Longrightarrow> returns W m"
  by (auto simp: returns_def)

lemma returns_wp: "returns V m \<Longrightarrow> wp I m Q s \<Longrightarrow> wp I m (\<lambda>x u. Q x u \<and> V x) s"
  by (auto simp: wp_def returns_def split: prod.splits sum.splits)

section \<open>What a program leaves alone\<close>

definition keeps :: "('s \<Rightarrow> 'p) \<Rightarrow> 'p \<Rightarrow> ('s, 'a) prog \<Rightarrow> bool" where
  \<comment> \<open>started where the part \<open>p\<close> of the state is \<open>c\<close>, the program leaves it so at every crash point\<close>
  "keeps p c m = (\<forall>s. p s = c \<longrightarrow> wp (\<lambda>u. p u = c) m (\<lambda>_ u. p u = c) s)"

named_theorems keeps_rules \<open>programs that leave a part of the state alone\<close>

lemma keepsI: "(\<And>s. p s = c \<Longrightarrow> wp (\<lambda>u. p u = c) m (\<lambda>_ u. p u = c) s) \<Longrightarrow> keeps p c m"
  by (simp add: keeps_def)

lemma keepsD: "keeps p c m \<Longrightarrow> p s = c \<Longrightarrow> wp (\<lambda>u. p u = c) m (\<lambda>_ u. p u = c) s"
  by (simp add: keeps_def)

lemma keeps_basic [simp, intro, keeps_rules]:
  "keeps p c (preturn x)" "keeps p c (praise e)" "keeps p c (plift r)" "keeps p c (pget f)" "keeps p c (pgets g)"
  "keeps p c (pensure b e)"
  by (auto simp: keeps_def ensure_def split: sum.splits)

lemma keeps_step [intro, keeps_rules]: "(\<And>s. p s = c \<Longrightarrow> p (h s) = c) \<Longrightarrow> keeps p c (pstep h)"
  by (simp add: keeps_def)

lemma keeps_bind [intro, keeps_rules]:
  assumes "keeps p c m" and "\<And>x. keeps p c (f x)"
  shows "keeps p c (pbind m f)"
proof (rule keepsI)
  fix s assume "p s = c"
  with assms(1) have "wp (\<lambda>u. p u = c) m (\<lambda>_ u. p u = c) s" by (rule keepsD)
  then show "wp (\<lambda>u. p u = c) (pbind m f) (\<lambda>_ u. p u = c) s"
    unfolding wp_bind by (rule wp_mono) (rule keepsD [OF assms(2)])
qed

lemma keeps_bind_get: "(\<And>s. p s = c \<Longrightarrow> keeps p c (f (g s))) \<Longrightarrow> keeps p c (pbind (pget g) f)"
  by (simp add: keeps_def)

lemma keeps_bind_gets: "(\<And>s x. p s = c \<Longrightarrow> g s = Inr x \<Longrightarrow> keeps p c (f x)) \<Longrightarrow> keeps p c (pbind (pgets g) f)"
  by (auto simp: keeps_def split: sum.splits)

lemma keeps_bind_value:
  assumes "returns V m" and "keeps p c m" and "\<And>x. V x \<Longrightarrow> keeps p c (f x)"
  shows "keeps p c (pbind m f)"
proof (rule keepsI)
  fix s assume "p s = c"
  with assms(2) have "wp (\<lambda>u. p u = c) m (\<lambda>_ u. p u = c) s" by (rule keepsD)
  with assms(1) have "wp (\<lambda>u. p u = c) m (\<lambda>x u. p u = c \<and> V x) s" by (rule returns_wp)
  then show "wp (\<lambda>u. p u = c) (pbind m f) (\<lambda>_ u. p u = c) s"
    unfolding wp_bind by (rule wp_mono) (use keepsD [OF assms(3)] in blast)
qed

lemma keeps_when [intro, keeps_rules]: "(b \<Longrightarrow> keeps p c m) \<Longrightarrow> keeps p c (pwhen b m)"
  by (simp add: pwhen_def)

lemma keeps_if [intro, keeps_rules]: "(b \<Longrightarrow> keeps p c m) \<Longrightarrow> (\<not> b \<Longrightarrow> keeps p c m') \<Longrightarrow> keeps p c (if b then m else m')"
  by simp

lemma keeps_option [intro, keeps_rules]:
  "(r = None \<Longrightarrow> keeps p c m) \<Longrightarrow> (\<And>x. r = Some x \<Longrightarrow> keeps p c (f x)) \<Longrightarrow>
    keeps p c (case r of None \<Rightarrow> m | Some x \<Rightarrow> f x)"
  by (cases r) simp_all

lemma keeps_sum [intro, keeps_rules]:
  "(\<And>e. keeps p c (g e)) \<Longrightarrow> (\<And>x. r = Inr x \<Longrightarrow> keeps p c (f x)) \<Longrightarrow>
    keeps p c (case r of Inl e \<Rightarrow> g e | Inr x \<Rightarrow> f x)"
  by (cases r) simp_all

lemma keeps_prod [intro, keeps_rules]: "(\<And>x y. r = (x, y) \<Longrightarrow> keeps p c (f x y)) \<Longrightarrow> keeps p c (case r of (x, y) \<Rightarrow> f x y)"
  by (cases r) simp

lemma keeps_let [intro, keeps_rules]: "(\<And>x. x = v \<Longrightarrow> keeps p c (f x)) \<Longrightarrow> keeps p c (let x = v in f x)"
  by simp

lemma keeps_fold [intro, keeps_rules]: "(\<And>x b. x \<in> set xs \<Longrightarrow> keeps p c (f x b)) \<Longrightarrow> keeps p c (pfold f xs b)"
proof (induction xs arbitrary: b)
  case (Cons x xs)
  then show ?case by (simp add: keeps_bind)
qed simp

lemma keeps_for [intro, keeps_rules]: "(\<And>x. x \<in> set xs \<Longrightarrow> keeps p c (f x)) \<Longrightarrow> keeps p c (pfor xs f)"
  unfolding pfor_def by (rule keeps_fold)

lemma keeps_try [intro, keeps_rules]:
  assumes "keeps p c m" and "\<And>e. keeps p c (h e)"
  shows "keeps p c (ptry m h)"
  by (rule keepsI, rule wp_try) (use assms in \<open>auto dest: keepsD\<close>)

lemma keeps_crash_points:
  assumes "keeps p c m" and "p s = c" and "u \<in> crash_points m s"
  shows "p u = c"
  using wp_crash_points [OF keepsD [OF assms(1,2)] assms(2,3)] .

lemma keeps_image:
  assumes "\<And>c. keeps p c m"
  shows "p ` crash_points m s = {p s}"
proof (rule equalityI)
  show "p ` crash_points m s \<subseteq> {p s}" using keeps_crash_points [OF assms refl] by blast
  show "{p s} \<subseteq> p ` crash_points m s" by (auto simp: crash_points_def split: prod.splits)
qed

lemma keeps_wp:
  assumes "keeps p c m" and "p s = c" and "\<And>u. p u = c \<Longrightarrow> I u" and "\<And>x u. p u = c \<Longrightarrow> Q x u"
  shows "wp I m Q s"
  using keepsD [OF assms(1,2)] assms(3,4) by (auto simp: wp_def list_all_iff split: prod.splits sum.splits)

section \<open>Total correctness\<close>

definition completes :: "('s \<Rightarrow> bool) \<Rightarrow> ('s, 'a) prog \<Rightarrow> ('a \<Rightarrow> 's \<Rightarrow> bool) \<Rightarrow> 's \<Rightarrow> bool" where
  \<comment> \<open>the program returns, \<open>Q\<close> holds of its value and the state, and \<open>I\<close> at every crash point after the first\<close>
  "completes I m Q s =
     (case m s of (t, r, s') \<Rightarrow> list_all I t \<and> (case r of Inl e \<Rightarrow> False | Inr x \<Rightarrow> Q x s'))"

lemma total_basic [simp]:
  \<comment> \<open>without the state, so that they rewrite conditions of other programs too\<close>
  "completes I (preturn x) Q1 = Q1 x"
  "completes I (praise e) Q2 = (\<lambda>s. False)"
  "completes I (plift r) Q = (\<lambda>s. case r of Inl e \<Rightarrow> False | Inr x \<Rightarrow> Q x s)"
  "completes I (pget f) Q' = (\<lambda>s. Q' (f s) s)"
  "completes I (pgets g) Q3 = (\<lambda>s. case g s of Inl e \<Rightarrow> False | Inr x \<Rightarrow> Q3 x s)"
  "completes I (pstep h) R = (\<lambda>s. I (h s) \<and> R () (h s))"
  by (simp_all add: completes_def preturn_def praise_def plift_def pget_def pgets_def pstep_def fun_eq_iff)

lemma total_bind [simp]: "completes I (pbind m f) Q = completes I m (\<lambda>x. completes I (f x) Q)"
  by (auto simp: completes_def pbind_def fun_eq_iff split: prod.splits sum.splits)

lemma total_ensure [simp]: "completes I (pensure c e) Q = (\<lambda>s. c \<and> Q () s)"
  by (simp add: pensure_def ensure_def fun_eq_iff)

lemma total_when [simp]: "completes I (pwhen c m) Q = (if c then completes I m Q else Q ())"
  by (simp add: pwhen_def)

lemma total_try: "completes I m Q s \<Longrightarrow> completes I (ptry m h) Q s"
  by (auto simp: completes_def ptry_def split: prod.splits sum.splits)

lemma total_mono: "completes I m Q s \<Longrightarrow> (\<And>x s. Q x s \<Longrightarrow> Q' x s) \<Longrightarrow> completes I m Q' s"
  by (auto simp: completes_def split: prod.splits sum.splits)

lemma total_seq: "completes I m R s \<Longrightarrow> (\<And>x s'. R x s' \<Longrightarrow> completes I (f x) Q s') \<Longrightarrow> completes I (pbind m f) Q s"
  unfolding total_bind by (rule total_mono)

lemma total_wp: "completes I m Q s \<Longrightarrow> wp I m Q s"
  by (auto simp: completes_def wp_def split: prod.splits sum.splits)

lemma total_returns: "completes I m Q s \<longleftrightarrow> (\<exists>t x s'. m s = (t, Inr x, s') \<and> list_all I t \<and> Q x s')"
  by (auto simp: completes_def split: prod.splits sum.splits)

lemma total_exact: "completes I m (\<lambda>y u. y = x \<and> u = s') s \<Longrightarrow> completes (\<lambda>_. True) m Q s \<longleftrightarrow> Q x s'"
  by (auto simp: completes_def list_all_iff split: prod.splits sum.splits)

lemma total_exact_unit: "completes I m (\<lambda>_ u. u = s') s \<Longrightarrow> completes (\<lambda>_. True) m Q s \<longleftrightarrow> Q () s'"
  by (rule total_exact) (auto elim: total_mono)

lemma total_for:
  \<comment> \<open>the invariant speaks of the elements that are left\<close>
  assumes "\<And>x rest s. J (x # rest) s \<Longrightarrow> completes I (f x) (\<lambda>_. J rest) s" and "J xs s"
  shows "completes I (pfor xs f) (\<lambda>_. J []) s"
  using assms(2)
proof (induction xs arbitrary: s)
  case (Cons x xs)
  have "completes I (f x) (\<lambda>_. J xs) s" using Cons.prems by (rule assms(1))
  then have "completes I (f x) (\<lambda>_. completes I (pfor xs f) (\<lambda>_. J [])) s" by (rule total_mono) (rule Cons.IH)
  then show ?case by (simp add: pfor_def)
qed (simp add: pfor_def)

section \<open>Running\<close>

lemma run_simps:
  "preturn x s = ([], Inr x, s)" "praise e s = ([], Inl e, s)" "plift r s = ([], r, s)"
  "pget f s = ([], Inr (f s), s)" "pgets g s = ([], g s, s)" "pstep h s = ([h s], Inr (), h s)"
  by (simp_all add: preturn_def praise_def plift_def pget_def pgets_def pstep_def)

lemma run_bind: "m s = (t, Inr x, s1) \<Longrightarrow> pbind m f s = (case f x s1 of (t', r, s2) \<Rightarrow> (t @ t', r, s2))"
  by (simp add: pbind_def)

lemma run_try_error: "m s = (t, Inl e, s1) \<Longrightarrow> ptry m h s = (case h e s1 of (t', r, s2) \<Rightarrow> (t @ t', r, s2))"
  by (simp add: ptry_def)

lemma run_bind_error: "m s = (t, Inl e, s1) \<Longrightarrow> pbind m f s = (t, Inl e, s1)"
  by (simp add: pbind_def)

end
