(* ===== verification/RelativePath.thy ===== *)
theory RelativePath
  imports JsonCodec
begin

text \<open>
  Relative paths of packages and runs: \<open>canonical_relative_path\<close>
  (\<open>src/src/hsconfig/package_domain.py\<close>), \<open>canonical_run_relative_path\<close> and
  \<open>validate_run_paths\<close> (\<open>src/src/hsconfig/run_manifest.py\<close>). On code points below 256 every
  text is in normal form C, none of the confusable separators occurs, and the characters of a
  category \<open>C\<close> are those below 32, from 127 to 159, and the soft hyphen.
\<close>

section \<open>Canonical paths\<close>

definition relative_path_refused :: "string \<Rightarrow> bool" where
  "relative_path_refused s =
     (s = [] \<or> CHR 0x5C \<in> set s \<or> CHR 0x00 \<in> set s \<or> CHR '':'' \<in> set s
      \<or> starts_with ''/'' s \<or> starts_with ''//'' s
      \<or> (2 \<le> length s \<and> is_alpha (s ! 0) \<and> s ! 1 = CHR '':'')
      \<or> list_ex (\<lambda>part. part \<in> {[], ''.'', ''..''}) (split_on CHR ''/'' s))"

definition canonical_relative_path :: "pyval \<Rightarrow> string res" where
  "canonical_relative_path v =
     (case v of
        PStr s \<Rightarrow> if relative_path_refused s then Inl (ValueError ''runtime_surface_path_invalid'')
                  else Inr s
      | _ \<Rightarrow> Inl (ValueError ''runtime_surface_path_invalid''))"

definition fold_char :: "char \<Rightarrow> nat list" where
  \<comment> \<open>\<open>casefold\<close> of one character, as code points: the sharp s becomes two letters, and the
    micro sign the Greek letter mu, which is outside the first 256 code points\<close>
  "fold_char c = (if code c = 223 then [115, 115] else if code c = 181 then [956]
                  else [code (lower_char c)])"

definition casefold :: "string \<Rightarrow> nat list" where
  "casefold s = concat (map fold_char s)"

definition WINDOWS_DEVICE_NAMES :: "string list" where
  "WINDOWS_DEVICE_NAMES =
     [''aux'', ''con'', ''nul'', ''prn''] @ map (\<lambda>i. ''com'' @ nat_digits i) [1..<10]
     @ map (\<lambda>i. ''lpt'' @ nat_digits i) [1..<10]"

definition MAX_RUN_PATH_BYTES :: int where "MAX_RUN_PATH_BYTES = 4096"
definition MAX_RUN_FILES :: int where "MAX_RUN_FILES = 100000"

definition category_C :: "char \<Rightarrow> bool" where
  "category_C c = (code c < 32 \<or> (127 \<le> code c \<and> code c < 160) \<or> code c = 173)"

definition ambiguous_part :: "string \<Rightarrow> bool" where
  "ambiguous_part part =
     (ends_with ''.'' part \<or> ends_with '' '' part
      \<or> casefold (rstrip_by (\<lambda>c. c \<in> {CHR '' '', CHR ''.''}) (hd (split_on CHR ''.'' part)))
         \<in> set (map casefold WINDOWS_DEVICE_NAMES))"

definition canonical_run_relative_path :: "pyval \<Rightarrow> string res" where
  "canonical_run_relative_path v =
     rbind (canonical_relative_path v) (\<lambda>path.
     if int (length (utf8_encode path)) > MAX_RUN_PATH_BYTES
        \<or> list_ex (\<lambda>c. c \<in> set ''?*\"<>|'') path \<or> list_ex category_C path
        \<or> list_ex ambiguous_part (split_on CHR ''/'' path)
     then Inl (ValueError ''run_manifest_path_ambiguous'') else Inr path)"

section \<open>Sets of paths\<close>

definition proper_prefixes :: "'a \<Rightarrow> 'a list \<Rightarrow> 'a list list" where
  \<comment> \<open>\<open>"/".join(parts[:index])\<close> for \<open>0 < index < len(parts)\<close>\<close>
  "proper_prefixes c path =
     (let parts = split_on c path in map (\<lambda>i. join [c] (take i parts)) [1..<length parts])"

definition slash :: nat where "slash = 47"

fun directory_spellings :: "string list \<Rightarrow> (nat list \<times> string) list \<Rightarrow> unit res" where
  \<comment> \<open>the last loop: a directory has one spelling only\<close>
  "directory_spellings [] seen = Inr ()"
| "directory_spellings (directory # ds) seen =
     (let folded = casefold directory; prior = dget_or seen folded directory in
      if prior \<noteq> directory then Inl (ValueError ''run_manifest_directory_casefold_collision'')
      else directory_spellings ds (dput folded prior seen))"

definition validate_run_paths :: "string list \<Rightarrow> unit res" where
  "validate_run_paths paths =
     rbind (rmap (\<lambda>p. canonical_run_relative_path (PStr p)) paths) (\<lambda>canonical.
     let folded = map casefold canonical in
     if int (length canonical) > MAX_RUN_FILES \<or> \<not> distinct canonical
     then Inl (ValueError ''run_manifest_path_duplicate'')
     else if \<not> distinct folded then Inl (ValueError ''run_manifest_path_casefold_collision'')
     else if list_ex (\<lambda>path. list_ex (\<lambda>d. d \<in> set folded) (proper_prefixes slash path)) folded
     then Inl (ValueError ''run_manifest_entry_path_collision'')
     else directory_spellings (concat (map (proper_prefixes CHR ''/'') canonical)) [])"

section \<open>Lemmas\<close>

lemma canonical_relative_path_Inr:
  "canonical_relative_path v = Inr s \<Longrightarrow> v = PStr s"
  by (auto simp: canonical_relative_path_def split: pyval.splits if_splits)

lemma canonical_run_relative_path_Inr:
  assumes "canonical_run_relative_path v = Inr s"
  shows "v = PStr s" and "canonical_relative_path v = Inr s" and "canonical_run_relative_path (PStr s) = Inr s"
  using assms canonical_relative_path_Inr [of v s]
  by (auto simp: canonical_run_relative_path_def split: if_splits)

lemma canonical_relative_path_accepts:
  "canonical_relative_path v = Inr s \<Longrightarrow> \<not> relative_path_refused s"
  by (auto simp: canonical_relative_path_def split: pyval.splits if_splits)

lemma canonical_relative_path_safe:
  assumes "canonical_relative_path v = Inr s"
  shows "s \<noteq> []" and "hd s \<noteq> CHR ''/''" and "CHR 0x5C \<notin> set s" and "CHR '':'' \<notin> set s"
    and "\<forall>part\<in>set (split_on CHR ''/'' s). part \<notin> {[], ''.'', ''..''}"
  using canonical_relative_path_accepts [OF assms]
  by (auto simp: relative_path_refused_def list_ex_iff starts_with_char)

lemma canonical_run_relative_path_safe:
  assumes "canonical_run_relative_path v = Inr s"
  shows "\<forall>c\<in>set s. c \<notin> set ''?*\"<>|'' \<and> \<not> category_C c" and "\<forall>part\<in>set (split_on CHR ''/'' s). \<not> ambiguous_part part"
  using assms unfolding canonical_run_relative_path_def list_ex_iff rbind_Inr_iff
  by (auto split: if_splits)

lemma validate_run_paths_parts:
  assumes "validate_run_paths paths = Inr ()"
  shows "\<forall>p\<in>set paths. canonical_run_relative_path (PStr p) = Inr p"
    and "distinct (map casefold paths)" and "distinct paths"
    and "\<forall>p\<in>set paths. \<forall>d\<in>set (proper_prefixes slash (casefold p)). d \<notin> casefold ` set paths"
proof -
  from assms obtain canonical where c: "rmap (\<lambda>p. canonical_run_relative_path (PStr p)) paths = Inr canonical"
    and d: "distinct (map casefold canonical)" "distinct canonical"
    and n: "\<not> list_ex (\<lambda>path. list_ex (\<lambda>d. d \<in> set (map casefold canonical)) (proper_prefixes slash path))
        (map casefold canonical)"
    by (auto simp: validate_run_paths_def Let_def split: if_splits)
  from c have "list_all2 (\<lambda>p q. canonical_run_relative_path (PStr p) = Inr q) paths canonical"
    by (simp add: rmap_Inr_iff)
  then have all: "list_all2 (\<lambda>p q. q = p \<and> canonical_run_relative_path (PStr p) = Inr p) paths canonical"
    by (rule list_all2_mono) (auto dest: canonical_run_relative_path_Inr)
  then have eq: "canonical = paths" by (auto simp: list_all2_conv_all_nth intro: nth_equalityI)
  from all show "\<forall>p\<in>set paths. canonical_run_relative_path (PStr p) = Inr p"
    by (auto simp: list_all2_conv_all_nth in_set_conv_nth)
  from d eq show "distinct (map casefold paths)" "distinct paths" by simp_all
  from n eq show "\<forall>p\<in>set paths. \<forall>d\<in>set (proper_prefixes slash (casefold p)). d \<notin> casefold ` set paths"
    by (auto simp: list_ex_iff)
qed

end
