(* ===== verification/RunManifest.thy ===== *)
theory RunManifest
  imports RelativePath
begin

text \<open>
  The manifest of a rendered run (\<open>src/src/hsconfig/run_manifest.py\<close>): its entries and their
  checks, how it is built from artifacts, written as canonical bytes, and verified against the
  files of a revision. The hash (\<open>sha256(...).hexdigest()\<close>) is the argument \<open>hash\<close>, bytes are
  strings of code points below 256, and a revision (\<open>PackageView\<close>) is the association list of
  its file names and contents.
\<close>

section \<open>Entries and manifests\<close>

record manifest_entry =
  relative_path :: string
  size :: int
  sha256 :: string

record tree_manifest =
  schema_version :: int
  deck_name :: string
  deck_fingerprint :: string
  entries :: "manifest_entry list"
  content_root_sha256 :: string

definition MANIFEST_PATH :: string where "MANIFEST_PATH = ''package_manifest.json''"

definition MAX_MANIFEST_BYTES :: int where "MAX_MANIFEST_BYTES = 16 * 1024 * 1024"
definition MAX_RUN_TOTAL_BYTES :: int where "MAX_RUN_TOTAL_BYTES = 16 * 1024 * 1024 * 1024"

definition is_sha256 :: "pyval \<Rightarrow> bool" where
  "is_sha256 v =
     (case v of PStr s \<Rightarrow> length s = 64 \<and> s = lower s \<and> list_all (\<lambda>c. c \<in> set ''0123456789abcdef'') s
              | _ \<Rightarrow> False)"

definition MANIFEST_ENTRY :: "pyval \<Rightarrow> pyval \<Rightarrow> pyval \<Rightarrow> manifest_entry res" where
  \<comment> \<open>\<open>ManifestEntry(relative_path=..., size=..., sha256=...)\<close>\<close>
  "MANIFEST_ENTRY path sz digest =
     (case canonical_run_relative_path path of
        Inl e \<Rightarrow> Inl (ValueError ''run_manifest_entry_path_invalid'')
      | Inr p \<Rightarrow>
          if casefold p = casefold MANIFEST_PATH \<or> starts_with (casefold (MANIFEST_PATH @ ''/'')) (casefold p)
          then Inl (ValueError ''run_manifest_self_entry_forbidden'')
          else
            (case sz of
               PInt n \<Rightarrow>
                 if n < 0 then Inl (ValueError ''run_manifest_entry_size_invalid'')
                 else if \<not> is_sha256 digest then Inl (ValueError ''run_manifest_entry_sha256_invalid'')
                 else Inr \<lparr>relative_path = p, size = n, sha256 = py_str digest\<rparr>
             | _ \<Rightarrow> Inl (ValueError ''run_manifest_entry_size_invalid'')))"

definition content_root :: "(string \<Rightarrow> string) \<Rightarrow> manifest_entry list \<Rightarrow> string" where
  \<comment> \<open>\<open>_content_root_sha256\<close>\<close>
  "content_root hash es =
     hash (concat (map (\<lambda>e.
       utf8_encode (relative_path e @ [CHR 0x00] @ int_text (size e) @ [CHR 0x00] @ sha256 e @ [CHR 0x0A])) es))"

definition TREE_MANIFEST ::
    "(string \<Rightarrow> string) \<Rightarrow> pyval \<Rightarrow> pyval \<Rightarrow> pyval \<Rightarrow> manifest_entry list \<Rightarrow> pyval \<Rightarrow> tree_manifest res" where
  \<comment> \<open>\<open>TreeManifest(...)\<close>\<close>
  "TREE_MANIFEST hash version name fingerprint es root =
     (let paths = map relative_path es in
      rbind (checks
        [ensure (version = PInt 1) (ValueError ''run_manifest_schema_invalid''),
         ensure (case name of PStr s \<Rightarrow> s \<noteq> [] \<and> s = strip s | _ \<Rightarrow> False)
           (ValueError ''run_manifest_deck_name_invalid''),
         ensure (is_sha256 fingerprint) (ValueError ''run_manifest_deck_fingerprint_invalid''),
         raise_if (\<not> sorted paths \<or> \<not> distinct paths \<or> int (length paths) \<ge> MAX_RUN_FILES)
           (ValueError ''run_manifest_entries_not_unique_sorted''),
         validate_run_paths paths,
         ensure (is_sha256 root \<and> root = PStr (content_root hash es))
           (ValueError ''run_manifest_content_root_invalid'')]) (\<lambda>_.
      Inr \<lparr>schema_version = 1, deck_name = py_str name, deck_fingerprint = py_str fingerprint,
            entries = es, content_root_sha256 = py_str root\<rparr>))"

section \<open>Building and writing\<close>

definition build_tree_manifest_from_artifacts ::
    "(string \<Rightarrow> string) \<Rightarrow> string \<Rightarrow> string \<Rightarrow> (string \<times> string) list \<Rightarrow> tree_manifest res" where
  \<comment> \<open>an artifact is its path with its content; its size and digest are those of the content\<close>
  "build_tree_manifest_from_artifacts hash name fingerprint artifacts =
     rbind (rmap (\<lambda>(path, content).
          MANIFEST_ENTRY (PStr path) (PInt (int (length content))) (PStr (hash content)))
        (sort_key fst (filter (\<lambda>(path, content). path \<noteq> MANIFEST_PATH) artifacts))) (\<lambda>es.
     TREE_MANIFEST hash (PInt 1) (PStr name) (PStr fingerprint) es (PStr (content_root hash es)))"

definition manifest_payload :: "tree_manifest \<Rightarrow> pyval" where
  "manifest_payload m =
     PDict
      [(''schema_version'', PInt (schema_version m)), (''deck_name'', PStr (deck_name m)),
       (''deck_fingerprint'', PStr (deck_fingerprint m)),
       (''entries'', PList (map (\<lambda>e.
          PDict [(''relative_path'', PStr (relative_path e)), (''size'', PInt (size e)),
                 (''sha256'', PStr (sha256 e))]) (entries m))),
       (''content_root_sha256'', PStr (content_root_sha256 m))]"

definition write_tree_manifest :: "tree_manifest \<Rightarrow> string" where
  "write_tree_manifest m = document_bytes manifest_payload m"

section \<open>Verifying\<close>

definition MANIFEST_KEYS :: "string list" where
  "MANIFEST_KEYS = [''schema_version'', ''deck_name'', ''deck_fingerprint'', ''entries'', ''content_root_sha256'']"

definition ENTRY_KEYS :: "string list" where
  "ENTRY_KEYS = [''relative_path'', ''size'', ''sha256'']"

definition parse_entry :: "pyval \<Rightarrow> manifest_entry res" where
  "parse_entry row =
     (if is_map row \<and> same_keys (items row) ENTRY_KEYS then
        MANIFEST_ENTRY (dget (items row) ''relative_path'') (dget (items row) ''size'')
          (dget (items row) ''sha256'')
      else Inl (ValueError ''entry''))"

definition parse_tree_manifest :: "(string \<Rightarrow> string) \<Rightarrow> pyval \<Rightarrow> tree_manifest res" where
  "parse_tree_manifest hash payload =
     (if is_map payload \<and> same_keys (items payload) MANIFEST_KEYS then
        (let p = items payload in
         case dget p ''entries'' of
           PList rows \<Rightarrow>
             rbind (rmap parse_entry rows) (\<lambda>es.
             TREE_MANIFEST hash (dget p ''schema_version'') (dget p ''deck_name'')
               (dget p ''deck_fingerprint'') es (dget p ''content_root_sha256''))
         | _ \<Rightarrow> Inl (ValueError ''entries''))
      else Inl (ValueError ''schema''))"

definition mapping_json :: "string \<Rightarrow> dict res" where
  "mapping_json content =
     rbind (utf8_decode content) (\<lambda>t.
     rbind (json_loads t) (\<lambda>v.
     case v of PDict d \<Rightarrow> Inr d | _ \<Rightarrow> Inl (ValueError ''mapping required'')))"

definition read_file :: "(string \<times> string) list \<Rightarrow> string \<Rightarrow> string res" where
  \<comment> \<open>\<open>files[name]\<close>\<close>
  "read_file files name = (case map_of files name of None \<Rightarrow> Inl (KeyError name) | Some c \<Rightarrow> Inr c)"

definition verify_manifest_identity :: "tree_manifest \<Rightarrow> (string \<times> string) list \<Rightarrow> unit res" where
  "verify_manifest_identity m files =
     rbind (rbind (read_file files ''04_package/reports/deck_identity.json'') mapping_json) (\<lambda>identity.
     rbind (rbind (read_file files ''configure_summary.json'') mapping_json) (\<lambda>summary.
     ensure
       (list_all (\<lambda>d. dget d ''deck_name'' = PStr (deck_name m)
                    \<and> dget d ''deck_fingerprint'' = PStr (deck_fingerprint m)) [identity, summary])
       (ValueError ''identity'')))"

definition verify_steps :: "(string \<Rightarrow> string) \<Rightarrow> (string \<times> string) list \<Rightarrow> tree_manifest res" where
  "verify_steps hash files =
     (let names = map fst files in
      rbind (raise_if (\<not> distinct names \<or> MANIFEST_PATH \<notin> set names \<or> int (length names) > MAX_RUN_FILES)
        (ValueError ''membership'')) (\<lambda>_.
      rbind (rmap (\<lambda>n. canonical_run_relative_path (PStr n)) names) (\<lambda>canonical.
      rbind (ensure (canonical = names) (ValueError ''noncanonical names'')) (\<lambda>_.
      rbind (validate_run_paths names) (\<lambda>_.
      rbind (read_file files MANIFEST_PATH) (\<lambda>manifest_bytes.
      rbind (raise_if
          (int (length manifest_bytes) > MAX_MANIFEST_BYTES
           \<or> int (sum_list (map (length \<circ> snd) files)) > MAX_RUN_TOTAL_BYTES)
        (ValueError ''resource bounds'')) (\<lambda>_.
      rbind (rbind (utf8_decode manifest_bytes) json_loads) (\<lambda>payload.
      rbind (parse_tree_manifest hash payload) (\<lambda>m.
      rbind (ensure (sort names = sort (MANIFEST_PATH # map relative_path (entries m)))
        (ValueError ''membership'')) (\<lambda>_.
      rbind (rmap (\<lambda>e. rbind (read_file files (relative_path e)) (\<lambda>content.
          ensure (int (length content) = size e \<and> hash content = sha256 e) (ValueError ''content'')))
          (entries m)) (\<lambda>_.
      rbind (ensure (manifest_bytes = write_tree_manifest m)
        (ValueError ''noncanonical manifest bytes'')) (\<lambda>_.
      rbind (verify_manifest_identity m files) (\<lambda>_. Inr m)))))))))))))"

definition verify_tree_manifest :: "(string \<Rightarrow> string) \<Rightarrow> (string \<times> string) list \<Rightarrow> tree_manifest res" where
  \<comment> \<open>every exception of the steps is raised again as one error\<close>
  "verify_tree_manifest hash files =
     (case verify_steps hash files of
        Inl e \<Rightarrow> Inl (ValueError ''run_manifest_invalid'') | Inr m \<Rightarrow> Inr m)"

section \<open>A manifest is a document\<close>

definition entry_valid :: "manifest_entry \<Rightarrow> bool" where
  "entry_valid e = (MANIFEST_ENTRY (PStr (relative_path e)) (PInt (size e)) (PStr (sha256 e)) = Inr e)"

definition manifest_valid :: "(string \<Rightarrow> string) \<Rightarrow> tree_manifest \<Rightarrow> bool" where
  "manifest_valid hash m =
     (list_all entry_valid (entries m)
      \<and> TREE_MANIFEST hash (PInt (schema_version m)) (PStr (deck_name m)) (PStr (deck_fingerprint m))
          (entries m) (PStr (content_root_sha256 m)) = Inr m)"

lemma is_sha256_str: "is_sha256 v \<Longrightarrow> v = PStr (py_str v)"
  by (auto simp: is_sha256_def split: pyval.splits)

lemma MANIFEST_ENTRY_Inr:
  assumes "MANIFEST_ENTRY p s d = Inr e"
  shows "p = PStr (relative_path e)" and "s = PInt (size e)" and "d = PStr (sha256 e)"
    and "0 \<le> size e" and "is_sha256 (PStr (sha256 e))"
    and "canonical_run_relative_path (PStr (relative_path e)) = Inr (relative_path e)"
    and "casefold (relative_path e) \<noteq> casefold MANIFEST_PATH"
    and "\<not> starts_with (casefold (MANIFEST_PATH @ ''/'')) (casefold (relative_path e))"
proof -
  obtain q n where q: "canonical_run_relative_path p = Inr q" "s = PInt n" "is_sha256 d" "0 \<le> n"
    "e = \<lparr>relative_path = q, size = n, sha256 = py_str d\<rparr>"
    "casefold q \<noteq> casefold MANIFEST_PATH"
    "\<not> starts_with (casefold (MANIFEST_PATH @ ''/'')) (casefold q)"
    using assms by (auto simp: MANIFEST_ENTRY_def split: sum.splits pyval.splits if_splits)
  note canon = canonical_run_relative_path_Inr [OF q(1)]
  from canon(1) q(5) show "p = PStr (relative_path e)" by simp
  from q(2,5) show "s = PInt (size e)" by simp
  from is_sha256_str [OF q(3)] q(5) show d: "d = PStr (sha256 e)" by simp
  from q(4,5) show "0 \<le> size e" by simp
  from q(3) d show "is_sha256 (PStr (sha256 e))" by simp
  from canon(3) q(5) show "canonical_run_relative_path (PStr (relative_path e)) = Inr (relative_path e)"
    by simp
  from q(5,6) show "casefold (relative_path e) \<noteq> casefold MANIFEST_PATH" by simp
  from q(5,7) show "\<not> starts_with (casefold (MANIFEST_PATH @ ''/'')) (casefold (relative_path e))" by simp
qed

lemma MANIFEST_ENTRY_valid: "MANIFEST_ENTRY p s d = Inr e \<Longrightarrow> entry_valid e"
  using MANIFEST_ENTRY_Inr(1,2,3) by (simp add: entry_valid_def)

lemma TREE_MANIFEST_Inr:
  assumes "TREE_MANIFEST hash v n f es r = Inr m"
  shows "v = PInt (schema_version m)" and "n = PStr (deck_name m)" and "f = PStr (deck_fingerprint m)"
    and "es = entries m" and "r = PStr (content_root_sha256 m)"
    and "content_root_sha256 m = content_root hash (entries m)"
    and "sorted (map relative_path (entries m))" and "distinct (map relative_path (entries m))"
    and "int (length (entries m)) < MAX_RUN_FILES" and "validate_run_paths (map relative_path (entries m)) = Inr ()"
proof -
  have parts: "v = PInt 1" "case n of PStr s \<Rightarrow> s \<noteq> [] \<and> s = strip s | _ \<Rightarrow> False" "is_sha256 f"
    "sorted (map relative_path es)" "distinct (map relative_path es)" "int (length es) < MAX_RUN_FILES"
    "validate_run_paths (map relative_path es) = Inr ()" "is_sha256 r" "r = PStr (content_root hash es)"
    "m = \<lparr>schema_version = 1, deck_name = py_str n, deck_fingerprint = py_str f,
            entries = es, content_root_sha256 = py_str r\<rparr>"
    using assms by (auto simp: TREE_MANIFEST_def Let_def)
  from parts(2) have "n = PStr (py_str n)" by (cases n) simp_all
  with parts is_sha256_str [OF parts(3)] show "v = PInt (schema_version m)" "n = PStr (deck_name m)"
    "f = PStr (deck_fingerprint m)" "es = entries m" "r = PStr (content_root_sha256 m)"
    "content_root_sha256 m = content_root hash (entries m)"
    "sorted (map relative_path (entries m))" "distinct (map relative_path (entries m))"
    "int (length (entries m)) < MAX_RUN_FILES" "validate_run_paths (map relative_path (entries m)) = Inr ()"
    by simp_all
qed

lemma rmap_parse_entry_valid:
  "rmap parse_entry rows = Inr es \<Longrightarrow> list_all entry_valid es"
  by (induction rows arbitrary: es) (auto simp: parse_entry_def dest: MANIFEST_ENTRY_valid split: if_splits)

lemma parse_manifest_valid: "parse_tree_manifest hash v = Inr m \<Longrightarrow> manifest_valid hash m"
proof -
  assume "parse_tree_manifest hash v = Inr m"
  then obtain rows es where rows: "rmap parse_entry rows = Inr es"
    and t: "TREE_MANIFEST hash (dget (items v) ''schema_version'') (dget (items v) ''deck_name'')
      (dget (items v) ''deck_fingerprint'') es (dget (items v) ''content_root_sha256'') = Inr m"
    by (auto simp: parse_tree_manifest_def Let_def split: if_splits pyval.splits)
  from t TREE_MANIFEST_Inr(1-5) [OF t] rmap_parse_entry_valid [OF rows] show ?thesis
    by (simp add: manifest_valid_def)
qed

definition entry_row :: "manifest_entry \<Rightarrow> dict" where
  "entry_row e =
     [(''relative_path'', PStr (relative_path e)), (''size'', PInt (size e)), (''sha256'', PStr (sha256 e))]"

lemma wf_entry_row: "wf_dict (entry_row e)"
  by (simp add: entry_row_def wf_dict_def)

lemma parse_entry_canon: "entry_valid e \<Longrightarrow> parse_entry (json_canon (PDict (entry_row e))) = Inr e"
proof -
  assume "entry_valid e"
  moreover have "same_keys (entry_row e) ENTRY_KEYS" by (simp add: entry_row_def ENTRY_KEYS_def same_keys_iff)
  ultimately show ?thesis
    by (simp add: parse_entry_def same_keys_json_canon dget_json_canon [OF wf_entry_row])
       (simp add: entry_row_def entry_valid_def dget_def)
qed

lemma manifest_payload_rows:
  "manifest_payload m = PDict
     [(''schema_version'', PInt (schema_version m)), (''deck_name'', PStr (deck_name m)),
      (''deck_fingerprint'', PStr (deck_fingerprint m)),
      (''entries'', PList (map (\<lambda>e. PDict (entry_row e)) (entries m))),
      (''content_root_sha256'', PStr (content_root_sha256 m))]"
  by (simp add: manifest_payload_def entry_row_def)

lemma wf_manifest_payload: "wf_val (manifest_payload m)"
  by (auto simp: manifest_payload_rows wf_dict_def wf_vals_iff wf_items_iff entry_row_def)

lemma parse_manifest_payload:
  assumes "manifest_valid hash m"
  shows "parse_tree_manifest hash (json_canon (manifest_payload m)) = Inr m"
proof -
  obtain d where d: "manifest_payload m = PDict d" by (simp add: manifest_payload_def)
  have wf: "wf_dict d" using wf_manifest_payload [of m] d by simp
  have keys: "same_keys d MANIFEST_KEYS"
    using d by (auto simp: manifest_payload_def MANIFEST_KEYS_def same_keys_iff)
  have get: "dget d ''schema_version'' = PInt (schema_version m)" "dget d ''deck_name'' = PStr (deck_name m)"
    "dget d ''deck_fingerprint'' = PStr (deck_fingerprint m)"
    "dget d ''entries'' = PList (map (\<lambda>e. PDict (entry_row e)) (entries m))"
    "dget d ''content_root_sha256'' = PStr (content_root_sha256 m)"
    using d by (auto simp: manifest_payload_rows dget_def)
  have rows: "rmap parse_entry (map (\<lambda>e. json_canon (PDict (entry_row e))) (entries m)) = Inr (entries m)"
    using assms rmap_total [of "entries m" "\<lambda>e. parse_entry (json_canon (PDict (entry_row e)))" id]
      parse_entry_canon
    by (auto simp: manifest_valid_def list_all_iff rmap_Inr_iff list_all2_conv_all_nth simp del: json_canon.simps)
  show ?thesis
    using assms rows
    by (simp add: d parse_tree_manifest_def same_keys_json_canon keys dget_json_canon [OF wf] get json_maps(3)
        comp_def manifest_valid_def)
qed

interpretation manifest_document: json_document manifest_payload "parse_tree_manifest hash" "manifest_valid hash"
  for hash
  by unfold_locales (auto simp: wf_manifest_payload parse_manifest_payload parse_manifest_valid)

section \<open>Properties\<close>

lemma verify_steps_parts:
  assumes "verify_steps hash files = Inr m"
  obtains b payload where "distinct (map fst files)" and "map_of files MANIFEST_PATH = Some b"
    and "validate_run_paths (map fst files) = Inr ()" and "parse_tree_manifest hash payload = Inr m"
    and "sort (map fst files) = sort (MANIFEST_PATH # map relative_path (entries m))"
    and "\<forall>e\<in>set (entries m). \<exists>c. map_of files (relative_path e) = Some c
           \<and> int (length c) = size e \<and> hash c = sha256 e"
    and "b = write_tree_manifest m"
proof -
  obtain b payload us where parts: "distinct (map fst files)" "read_file files MANIFEST_PATH = Inr b"
    "validate_run_paths (map fst files) = Inr ()" "parse_tree_manifest hash payload = Inr m"
    "sort (map fst files) = sort (MANIFEST_PATH # map relative_path (entries m))"
    "rmap (\<lambda>e. rbind (read_file files (relative_path e)) (\<lambda>c.
        ensure (int (length c) = size e \<and> hash c = sha256 e) (ValueError ''content''))) (entries m) = Inr us"
    "b = write_tree_manifest m"
    using assms unfolding verify_steps_def Let_def by (auto simp del: sort_key_simps)
  have "\<forall>e\<in>set (entries m). \<exists>c. map_of files (relative_path e) = Some c
      \<and> int (length c) = size e \<and> hash c = sha256 e"
    using parts(6)
    by (fastforce simp: rmap_Inr_iff list_all2_conv_all_nth in_set_conv_nth read_file_def split: option.splits)
  with parts that show thesis by (auto simp: read_file_def split: option.splits)
qed

lemma verify_Inr [simp]: "verify_tree_manifest hash files = Inr m \<longleftrightarrow> verify_steps hash files = Inr m"
  by (simp add: verify_tree_manifest_def split: sum.splits)

lemma verified_names:
  assumes "verify_tree_manifest hash files = Inr m"
  shows "fst ` set files = insert MANIFEST_PATH (relative_path ` set (entries m))"
proof -
  obtain b payload where "sort (map fst files) = sort (MANIFEST_PATH # map relative_path (entries m))"
    using assms by (auto elim: verify_steps_parts)
  then have "set (map fst files) = set (MANIFEST_PATH # map relative_path (entries m))"
    by (metis set_sort)
  then show ?thesis by simp
qed

text \<open>
  C21. A verified revision is what its manifest says: the names of its files are exactly the
  paths of the entries and the manifest itself, every file has the size and the digest of its
  entry, and the bytes of the manifest are the canonical ones.
\<close>
theorem verified_revision_exact:
  assumes "verify_tree_manifest hash files = Inr m"
  shows "fst ` set files = insert MANIFEST_PATH (relative_path ` set (entries m))
    \<and> map_of files MANIFEST_PATH = Some (write_tree_manifest m)
    \<and> (\<forall>e\<in>set (entries m). \<exists>c. map_of files (relative_path e) = Some c
         \<and> int (length c) = size e \<and> hash c = sha256 e)"
  using assms verified_names [OF assms] by (auto elim!: verify_steps_parts)

text \<open>
  Verification detects tampering: two verified revisions with the same manifest bytes have
  the same manifest and the same files, provided that the hash does not collide on their
  contents.
\<close>
theorem verified_revision_determined:
  assumes "verify_tree_manifest hash files = Inr m" and "verify_tree_manifest hash files' = Inr m'"
    and "map_of files MANIFEST_PATH = map_of files' MANIFEST_PATH"
    and "\<forall>c\<in>snd ` set files. \<forall>c'\<in>snd ` set files'. hash c = hash c' \<longrightarrow> c = c'"
  shows "m = m' \<and> map_of files = map_of files'"
proof -
  note v = verified_revision_exact [OF assms(1)] and v' = verified_revision_exact [OF assms(2)]
  have valid: "manifest_valid hash m" "manifest_valid hash m'"
    using assms(1,2) by (auto elim: verify_steps_parts intro: parse_manifest_valid)
  have "write_tree_manifest m = write_tree_manifest m'" using v v' assms(3) by auto
  then have eq: "m = m'"
    using manifest_document.bytes_inj [OF valid] by (simp add: write_tree_manifest_def)
  have "map_of files n = map_of files' n" for n
  proof (cases "n \<in> fst ` set files")
    case False
    then have "n \<notin> fst ` set files'" using v v' eq by simp
    with False show ?thesis by (metis map_of_eq_None_iff)
  next
    case True
    then consider "n = MANIFEST_PATH" | e where "e \<in> set (entries m)" "n = relative_path e"
      using v by auto
    then show ?thesis
    proof cases
      case 2
      with v v' eq obtain c c' where "map_of files n = Some c" "map_of files' n = Some c'" "hash c = hash c'"
        by fastforce
      moreover from this have "c \<in> snd ` set files" "c' \<in> snd ` set files'"
        by (force dest: map_of_SomeD)+
      ultimately show ?thesis using assms(4) by auto
    qed (use assms(3) in simp)
  qed
  with eq show ?thesis by auto
qed

text \<open>
  C22. The paths of a verified revision stay below their directory and can be told apart on a file
  system that ignores case. Each is relative: it does not start with a slash, holds no backslash
  and no colon (so no drive prefix and no stream), and has no empty, \<open>.\<close> or \<open>..\<close> component. None
  of its characters is a control character or one that Windows refuses in names, and no component
  of it ends with a dot or a blank or is the name of a device. No two paths are equal when the
  case of the letters is ignored, and none is a directory of another.
\<close>
theorem verified_paths_safe:
  assumes "verify_tree_manifest hash files = Inr m" and "p \<in> fst ` set files" and "q \<in> fst ` set files"
  shows "p \<noteq> [] \<and> hd p \<noteq> CHR ''/'' \<and> CHR 0x5C \<notin> set p \<and> CHR '':'' \<notin> set p
    \<and> (\<forall>part\<in>set (split_on CHR ''/'' p). part \<notin> {[], ''.'', ''..''} \<and> \<not> ambiguous_part part)
    \<and> (\<forall>c\<in>set p. c \<notin> set ''?*\"<>|'' \<and> \<not> category_C c)
    \<and> (casefold p = casefold q \<longrightarrow> p = q)
    \<and> casefold q \<notin> set (proper_prefixes slash (casefold p))"
proof -
  have ok: "validate_run_paths (map fst files) = Inr ()"
    using assms(1) by (auto elim: verify_steps_parts)
  note parts = validate_run_paths_parts [OF ok]
  from parts(1) assms(2) have path: "canonical_run_relative_path (PStr p) = Inr p" by auto
  note safe = canonical_relative_path_safe [OF canonical_run_relative_path_Inr(2) [OF path]]
    canonical_run_relative_path_safe [OF path]
  have "inj_on casefold (fst ` set files)" using parts(2) distinct_map [of casefold "map fst files"] by (simp del: map_map)
  then have "casefold p = casefold q \<longrightarrow> p = q" using assms(2,3) by (auto dest: inj_onD)
  moreover have "p \<in> set (map fst files)" "casefold q \<in> casefold ` set (map fst files)"
    using assms(2,3) by auto
  moreover have "casefold q \<notin> set (proper_prefixes slash (casefold p))" using calculation(2,3) parts(4) by blast
  moreover have "part \<notin> {[], ''.'', ''..''} \<and> \<not> ambiguous_part part" if "part \<in> set (split_on CHR ''/'' p)" for part
    using bspec [OF safe(5) that] bspec [OF safe(7) that] by simp
  ultimately show ?thesis using safe(1-4,6) by (intro conjI ballI) simp_all
qed

section \<open>A built manifest verifies\<close>

lemma join_append: "xs \<noteq> [] \<Longrightarrow> ys \<noteq> [] \<Longrightarrow> join [c] (xs @ ys) = join [c] xs @ c # join [c] ys"
  by (induction xs) (auto simp: join_Cons)

lemma proper_prefixes_prefix:
  assumes "d \<in> set (proper_prefixes c path)"
  shows "\<exists>t. path = d @ c # t"
proof -
  obtain i where i: "d = join [c] (take i (split_on c path))" "0 < i" "i < length (split_on c path)"
    using assms by (auto simp: proper_prefixes_def Let_def)
  have "path = join [c] (take i (split_on c path) @ drop i (split_on c path))"
    by (simp add: join_split_on)
  also have "\<dots> = d @ c # join [c] (drop i (split_on c path))"
    using i by (subst join_append) auto
  finally show ?thesis by blast
qed

lemma manifest_path_facts:
  "canonical_run_relative_path (PStr MANIFEST_PATH) = Inr MANIFEST_PATH"
  "proper_prefixes slash (casefold MANIFEST_PATH) = []" "proper_prefixes CHR ''/'' MANIFEST_PATH = []"
  "casefold (MANIFEST_PATH @ ''/'') = casefold MANIFEST_PATH @ [slash]"
  by code_simp+

lemma rmap_snoc: "rmap f xs = Inr ys \<Longrightarrow> f x = Inr y \<Longrightarrow> rmap f (xs @ [x]) = Inr (ys @ [y])"
  by (induction xs arbitrary: ys) auto

lemma rmap_canonical:
  "\<forall>p\<in>set ps. canonical_run_relative_path (PStr p) = Inr p \<Longrightarrow>
     rmap (\<lambda>p. canonical_run_relative_path (PStr p)) ps = Inr ps"
  by (induction ps) auto

lemma validate_run_paths_manifest:
  assumes ok: "validate_run_paths ps = Inr ()" and len: "int (length ps) < MAX_RUN_FILES"
    and new: "\<forall>p\<in>set ps. casefold p \<noteq> casefold MANIFEST_PATH
      \<and> \<not> starts_with (casefold (MANIFEST_PATH @ ''/'')) (casefold p)"
  shows "validate_run_paths (ps @ [MANIFEST_PATH]) = Inr ()"
proof -
  note parts = validate_run_paths_parts [OF ok]
  note canon = rmap_canonical [OF parts(1)]
  have canon': "rmap (\<lambda>p. canonical_run_relative_path (PStr p)) (ps @ [MANIFEST_PATH])
      = Inr (ps @ [MANIFEST_PATH])"
    using canon manifest_path_facts(1) by (rule rmap_snoc)
  have "casefold MANIFEST_PATH \<notin> set (proper_prefixes slash (casefold p))" if "p \<in> set ps" for p
    using proper_prefixes_prefix [of "casefold MANIFEST_PATH" slash "casefold p"] new that
    by (auto simp: manifest_path_facts(4) starts_with_iff)
  moreover have "distinct (map casefold (ps @ [MANIFEST_PATH]))" "MANIFEST_PATH \<notin> set ps"
    using parts(2) new by auto
  moreover have "directory_spellings (concat (map (proper_prefixes CHR ''/'') ps)) [] = Inr ()"
    using ok canon by (auto simp: validate_run_paths_def Let_def split: if_splits)
  ultimately show ?thesis
    unfolding validate_run_paths_def canon' rbind_simps Let_def
    using parts len manifest_path_facts by (auto simp: list_ex_iff)
qed

lemma verify_steps_intro:
  assumes "distinct (map fst files)" and "MANIFEST_PATH \<in> set (map fst files)"
    and "int (length (map fst files)) \<le> MAX_RUN_FILES"
    and "rmap (\<lambda>n. canonical_run_relative_path (PStr n)) (map fst files) = Inr (map fst files)"
    and "validate_run_paths (map fst files) = Inr ()" and "read_file files MANIFEST_PATH = Inr b"
    and "int (length b) \<le> MAX_MANIFEST_BYTES" and "int (sum_list (map (length \<circ> snd) files)) \<le> MAX_RUN_TOTAL_BYTES"
    and "rbind (utf8_decode b) json_loads = Inr v" and "parse_tree_manifest hash v = Inr m"
    and "sort (map fst files) = sort (MANIFEST_PATH # map relative_path (entries m))"
    and "rmap (\<lambda>e. rbind (read_file files (relative_path e)) (\<lambda>content.
          ensure (int (length content) = size e \<and> hash content = sha256 e) (ValueError ''content'')))
          (entries m) = Inr us"
    and "b = write_tree_manifest m" and "verify_manifest_identity m files = Inr ()"
  shows "verify_steps hash files = Inr m"
proof -
  have ok: "\<not> (\<not> distinct (map fst files) \<or> MANIFEST_PATH \<notin> set (map fst files)
      \<or> int (length (map fst files)) > MAX_RUN_FILES)"
    "\<not> (int (length b) > MAX_MANIFEST_BYTES \<or> int (sum_list (map (length \<circ> snd) files)) > MAX_RUN_TOTAL_BYTES)"
    using assms(1,2,3,7,8) by auto
  show ?thesis
    unfolding verify_steps_def Let_def raise_if_def
    by (simp only: ok assms(4,5,6,9,10,11,12,14) assms(13) [symmetric] if_False rbind_simps ensure_simps simp_thms)
qed

lemma built_parts:
  assumes "build_tree_manifest_from_artifacts hash name fingerprint artifacts = Inr m"
  defines "rows \<equiv> sort_key fst (filter (\<lambda>(path, content). path \<noteq> MANIFEST_PATH) artifacts)"
  shows "list_all2 (\<lambda>(path, content) e. relative_path e = path \<and> size e = int (length content)
      \<and> sha256 e = hash content \<and> entry_valid e) rows (entries m)"
    and "manifest_valid hash m"
proof -
  obtain es where es: "rmap (\<lambda>(path, content).
        MANIFEST_ENTRY (PStr path) (PInt (int (length content))) (PStr (hash content))) rows = Inr es"
    and t: "TREE_MANIFEST hash (PInt 1) (PStr name) (PStr fingerprint) es (PStr (content_root hash es)) = Inr m"
    using assms(1) by (auto simp: build_tree_manifest_from_artifacts_def rows_def)
  note tm = TREE_MANIFEST_Inr(1-5) [OF t]
  have "list_all2 (\<lambda>(path, content) e.
      MANIFEST_ENTRY (PStr path) (PInt (int (length content))) (PStr (hash content)) = Inr e) rows es"
    using es unfolding rmap_Inr_iff by (rule list_all2_mono) (simp split: prod.splits)
  then show rel: "list_all2 (\<lambda>(path, content) e. relative_path e = path \<and> size e = int (length content)
      \<and> sha256 e = hash content \<and> entry_valid e) rows (entries m)"
    unfolding tm(4) [symmetric]
    by (rule list_all2_mono) (auto dest: MANIFEST_ENTRY_Inr(1,2,3) MANIFEST_ENTRY_valid)
  then have "list_all entry_valid (entries m)"
    by (auto simp: list_all2_conv_all_nth list_all_length)
  with t tm show "manifest_valid hash m" by (simp add: manifest_valid_def)
qed

lemma built_verifies:
  assumes "build_tree_manifest_from_artifacts hash name fingerprint artifacts = Inr m"
    and "files = sort_key fst (filter (\<lambda>(path, content). path \<noteq> MANIFEST_PATH) artifacts)
      @ [(MANIFEST_PATH, write_tree_manifest m)]"
    and "int (length (write_tree_manifest m)) \<le> MAX_MANIFEST_BYTES"
    and "int (sum_list (map (length \<circ> snd) files)) \<le> MAX_RUN_TOTAL_BYTES"
    and "verify_manifest_identity m files = Inr ()"
  shows "verify_tree_manifest hash files = Inr m"
proof -
  let ?rows = "sort_key fst (filter (\<lambda>(path, content). path \<noteq> MANIFEST_PATH) artifacts)"
  note rel = built_parts(1) [OF assms(1)] and valid = built_parts(2) [OF assms(1)]
  have names: "map fst ?rows = map relative_path (entries m)"
    using rel by (auto simp: list_all2_conv_all_nth case_prod_beta intro: nth_equalityI)
  have tm: "distinct (map relative_path (entries m))" "int (length (entries m)) < MAX_RUN_FILES"
    "validate_run_paths (map relative_path (entries m)) = Inr ()"
    using valid TREE_MANIFEST_Inr(8-10) unfolding manifest_valid_def by (metis, metis, metis)
  have ev: "entry_valid e" if "e \<in> set (entries m)" for e
    using valid that by (auto simp: manifest_valid_def list_all_iff)
  have new: "\<forall>p\<in>set (map relative_path (entries m)). casefold p \<noteq> casefold MANIFEST_PATH
      \<and> \<not> starts_with (casefold (MANIFEST_PATH @ ''/'')) (casefold p)"
    using ev by (auto simp: entry_valid_def dest: MANIFEST_ENTRY_Inr(7,8))
  then have fresh: "MANIFEST_PATH \<notin> set (map relative_path (entries m))" by auto
  have nf: "map fst files = map relative_path (entries m) @ [MANIFEST_PATH]"
    using assms(2) names by simp
  have paths: "validate_run_paths (map fst files) = Inr ()"
    unfolding nf using tm new by (intro validate_run_paths_manifest) auto
  have dist: "distinct (map fst files)" unfolding nf using tm(1) fresh by simp
  have man: "read_file files MANIFEST_PATH = Inr (write_tree_manifest m)"
  proof -
    have "(MANIFEST_PATH, write_tree_manifest m) \<in> set files" using assms(2) by simp
    with dist have "map_of files MANIFEST_PATH = Some (write_tree_manifest m)" by (rule map_of_is_SomeI)
    then show ?thesis by (simp add: read_file_def)
  qed
  have content: "rbind (read_file files (relative_path e)) (\<lambda>c.
      ensure (int (length c) = size e \<and> hash c = sha256 e) (ValueError ''content'')) = Inr ()"
    if "e \<in> set (entries m)" for e
  proof -
    obtain i where i: "i < length (entries m)" "entries m ! i = e" using \<open>e \<in> set (entries m)\<close>
      by (auto simp: in_set_conv_nth)
    obtain c where "?rows ! i = (relative_path e, c)" "size e = int (length c)" "sha256 e = hash c"
      using list_all2_nthD2 [OF rel i(1)] i(2) by (cases "?rows ! i") auto
    moreover have "?rows ! i \<in> set ?rows" using i(1) list_all2_lengthD [OF rel] by (metis nth_mem)
    then have "?rows ! i \<in> set files" unfolding assms(2) set_append by (rule UnI1)
    ultimately have "map_of files (relative_path e) = Some c" using dist by (simp add: map_of_is_SomeI)
    with \<open>size e = int (length c)\<close> \<open>sha256 e = hash c\<close> show ?thesis by (simp add: read_file_def)
  qed
  have contents: "rmap (\<lambda>e. rbind (read_file files (relative_path e)) (\<lambda>c.
      ensure (int (length c) = size e \<and> hash c = sha256 e) (ValueError ''content''))) (entries m)
      = Inr (map (\<lambda>e. ()) (entries m))"
    using content by (intro rmap_total)
  have payload: "rbind (utf8_decode (write_tree_manifest m)) json_loads = Inr (json_canon (manifest_payload m))"
    by (simp add: write_tree_manifest_def document_bytes_def utf8_roundtrip json_loads_dumps wf_manifest_payload)
  have canon: "rmap (\<lambda>n. canonical_run_relative_path (PStr n)) (map fst files) = Inr (map fst files)"
    using validate_run_paths_parts(1) [OF paths] by (rule rmap_canonical)
  have sorted: "sort (map fst files) = sort (MANIFEST_PATH # map relative_path (entries m))"
    unfolding nf using tm(1) fresh
    by (intro sorted_distinct_set_unique) (auto simp del: sort_key_simps)
  have "verify_steps hash files = Inr m"
  proof (rule verify_steps_intro [OF dist _ _ canon paths man assms(3,4) payload
        parse_manifest_payload [OF valid] sorted contents refl assms(5)])
    show "MANIFEST_PATH \<in> set (map fst files)" unfolding nf by simp
    show "int (length (map fst files)) \<le> MAX_RUN_FILES" unfolding nf using tm(2) by simp
  qed
  then show ?thesis by simp
qed

text \<open>
  C23. What is built is verified: if the manifest of a list of artifacts can be built, then the
  revision that holds the artifacts and the bytes of that manifest verifies, and verification
  returns the manifest that was written, as long as the two size bounds hold and the identity
  files name the deck.
\<close>
theorem built_manifest_verifies:
  assumes "build_tree_manifest_from_artifacts hash name fingerprint artifacts = Inr m"
    and "files = sort_key fst (filter (\<lambda>(path, content). path \<noteq> MANIFEST_PATH) artifacts)
      @ [(MANIFEST_PATH, write_tree_manifest m)]"
    and "int (length (write_tree_manifest m)) \<le> MAX_MANIFEST_BYTES"
    and "int (sum_list (map (length \<circ> snd) files)) \<le> MAX_RUN_TOTAL_BYTES"
    and "verify_manifest_identity m files = Inr ()"
  shows "verify_tree_manifest hash files = Inr m"
  using assms by (rule built_verifies)

section \<open>A concrete run\<close>

text \<open>
  A revision with the two identity files and a hash that tells the identity file from every
  other content.
\<close>

definition demo_identity_file :: string where
  "demo_identity_file = document_bytes (\<lambda>n. PDict
     [(''deck_name'', PStr n), (''deck_fingerprint'', PStr (replicate 64 CHR ''0''))]) ''Shadow''"

definition demo_hash :: "string \<Rightarrow> string" where
  "demo_hash s = replicate 64 (if s = demo_identity_file then CHR ''0'' else CHR ''1'')"

definition demo_artifacts :: "(string \<times> string) list" where
  "demo_artifacts =
     [(''configure_summary.json'', demo_identity_file),
      (''04_package/reports/deck_identity.json'', demo_identity_file)]"

definition demo_entries :: "manifest_entry list" where
  "demo_entries =
     [\<lparr>relative_path = ''04_package/reports/deck_identity.json'',
        size = int (length demo_identity_file), sha256 = demo_hash demo_identity_file\<rparr>,
      \<lparr>relative_path = ''configure_summary.json'',
        size = int (length demo_identity_file), sha256 = demo_hash demo_identity_file\<rparr>]"

definition demo_manifest :: tree_manifest where
  "demo_manifest =
     \<lparr>schema_version = 1, deck_name = ''Shadow'', deck_fingerprint = replicate 64 CHR ''0'',
      entries = demo_entries, content_root_sha256 = content_root demo_hash demo_entries\<rparr>"

definition demo_files :: "(string \<times> string) list" where
  "demo_files =
     [(''04_package/reports/deck_identity.json'', demo_identity_file),
      (''configure_summary.json'', demo_identity_file),
      (MANIFEST_PATH, write_tree_manifest demo_manifest)]"

lemmas path_defs =
  canonical_run_relative_path_def canonical_relative_path_def relative_path_refused_def starts_with_char
  MAX_RUN_PATH_BYTES_def category_C_def ambiguous_part_def ends_with_def casefold_def fold_char_def
  lower_char_def rstrip_by_def WINDOWS_DEVICE_NAMES_def utf8_encode_def utf8_char_def code_def is_alpha_def
  starts_with_def

lemma demo_paths:
  "canonical_run_relative_path (PStr ''configure_summary.json'') = Inr ''configure_summary.json''"
  "canonical_run_relative_path (PStr ''04_package/reports/deck_identity.json'')
     = Inr ''04_package/reports/deck_identity.json''"
  by (auto simp: path_defs nat_digits.simps image_iff)

lemma demo_hash_ok: "is_sha256 (PStr (demo_hash s))" "is_sha256 (PStr (replicate 64 CHR ''0''))"
  by (auto simp: is_sha256_def demo_hash_def lower_def lower_char_def code_def list_all_iff)

lemma demo_root: "content_root demo_hash es = replicate 64 CHR ''1''" if "es \<noteq> []" "relative_path (hd es) = CHR ''0'' # p"
  using that by (cases es) (auto simp: content_root_def demo_hash_def utf8_encode_def utf8_char_def code_def
      demo_identity_file_def document_bytes_def json_dumps_def)

lemma demo_valid_paths: "validate_run_paths (map relative_path demo_entries) = Inr ()"
  by (simp add: validate_run_paths_def demo_entries_def demo_paths casefold_def fold_char_def code_def
      lower_char_def proper_prefixes_def MAX_RUN_FILES_def slash_def upt_rec dget_or_def dput.simps)

lemma strip_demo: "''Shadow'' = strip ''Shadow''"
  by code_simp

lemma demo_sort:
  "sort_key fst (filter (\<lambda>(path, content). path \<noteq> MANIFEST_PATH) demo_artifacts)
     = [(''04_package/reports/deck_identity.json'', demo_identity_file),
        (''configure_summary.json'', demo_identity_file)]"
  by (simp add: demo_artifacts_def MANIFEST_PATH_def less_list_code less_char_def)

lemma demo_entry:
  assumes "canonical_run_relative_path (PStr p) = Inr p" and "hd p \<in> {CHR ''0'', CHR ''c''}" and "0 \<le> n"
  shows "MANIFEST_ENTRY (PStr p) (PInt n) (PStr (demo_hash s)) = Inr \<lparr>relative_path = p, size = n, sha256 = demo_hash s\<rparr>"
  using assms by (cases p) (auto simp: MANIFEST_ENTRY_def demo_hash_ok casefold_def fold_char_def MANIFEST_PATH_def
      code_def lower_char_def starts_with_def)

lemma demo_entry_order:
  "sorted (map relative_path demo_entries)" "distinct (map relative_path demo_entries)"
  "int (length demo_entries) < MAX_RUN_FILES"
  by (simp_all add: demo_entries_def MAX_RUN_FILES_def less_eq_list_code less_char_def)

lemma demo_built:
  "build_tree_manifest_from_artifacts demo_hash ''Shadow'' (replicate 64 CHR ''0'') demo_artifacts
     = Inr demo_manifest"
proof -
  have root: "is_sha256 (PStr (content_root demo_hash demo_entries))"
    by (simp add: content_root_def demo_hash_ok)
  have tm: "TREE_MANIFEST demo_hash (PInt 1) (PStr ''Shadow'') (PStr (replicate 64 CHR ''0'')) demo_entries
      (PStr (content_root demo_hash demo_entries)) = Inr demo_manifest"
    unfolding TREE_MANIFEST_def demo_manifest_def
    using demo_valid_paths root demo_hash_ok(2) strip_demo demo_entry_order by simp
  show ?thesis
    unfolding build_tree_manifest_from_artifacts_def demo_sort
    by (simp add: demo_entry demo_paths tm [unfolded demo_entries_def])
qed

lemma demo_files_sorted:
  "demo_files = sort_key fst (filter (\<lambda>(path, content). path \<noteq> MANIFEST_PATH) demo_artifacts)
     @ [(MANIFEST_PATH, write_tree_manifest demo_manifest)]"
  by (simp add: demo_files_def demo_sort)

lemma demo_identity: "verify_manifest_identity demo_manifest demo_files = Inr ()"
proof -
  let ?d = "[(''deck_name'', PStr ''Shadow''), (''deck_fingerprint'', PStr (replicate 64 CHR ''0''))]"
  have wf: "wf_val (PDict ?d)" by (simp add: wf_dict_def)
  then have "mapping_json demo_identity_file = Inr (items (json_canon (PDict ?d)))"
    by (simp add: mapping_json_def demo_identity_file_def document_bytes_def utf8_roundtrip json_loads_dumps
        json_maps(3))
  moreover have "dget (items (json_canon (PDict ?d))) k = dget ?d k" if "k \<in> {''deck_name'', ''deck_fingerprint''}" for k
    using that wf by (auto simp: dget_json_canon dget_def)
  ultimately show ?thesis
    by (simp add: verify_manifest_identity_def read_file_def demo_files_def MANIFEST_PATH_def demo_manifest_def
        dget_def)
qed

lemma demo_lengths:
  "length demo_identity_file = 118" "length (write_tree_manifest demo_manifest) < 2000"
proof -
  have root: "content_root demo_hash demo_entries = replicate 64 CHR ''1''"
    by (rule demo_root) (simp_all add: demo_entries_def)
  note printing = document_bytes_def json_dumps_def utf8_encode_def json_string_def newline_def utf8_char_def code_def
    json_char_def int_text_def hex_digit_def nat_digits.simps
  show id: "length demo_identity_file = 118" by (simp add: demo_identity_file_def printing)
  then show "length (write_tree_manifest demo_manifest) < 2000"
    by (simp add: write_tree_manifest_def demo_manifest_def root)
       (simp add: manifest_payload_def demo_entries_def demo_hash_def printing)
qed

lemma demo_verified: "verify_tree_manifest demo_hash demo_files = Inr demo_manifest"
proof (rule built_verifies [OF demo_built demo_files_sorted _ _ demo_identity])
  show "int (length (write_tree_manifest demo_manifest)) \<le> MAX_MANIFEST_BYTES"
    "int (sum_list (map (length \<circ> snd) demo_files)) \<le> MAX_RUN_TOTAL_BYTES"
    using demo_lengths by (simp_all add: MAX_MANIFEST_BYTES_def MAX_RUN_TOTAL_BYTES_def demo_files_def)
qed

lemma verified_revision_exact_witness:
  "fst ` set demo_files = insert MANIFEST_PATH (relative_path ` set (entries demo_manifest))
    \<and> map_of demo_files MANIFEST_PATH = Some (write_tree_manifest demo_manifest)
    \<and> (\<exists>c. map_of demo_files (relative_path (hd (entries demo_manifest))) = Some c
         \<and> demo_hash c = sha256 (hd (entries demo_manifest)))"
proof -
  have "hd (entries demo_manifest) \<in> set (entries demo_manifest)"
    by (simp add: demo_manifest_def demo_entries_def)
  then show ?thesis using verified_revision_exact [OF demo_verified] by blast
qed

lemma demo_hash_injective:
  "\<forall>c\<in>snd ` set demo_files. \<forall>c'\<in>snd ` set demo_files. demo_hash c = demo_hash c' \<longrightarrow> c = c'"
  by (auto simp: demo_files_def demo_hash_def)

lemma verified_revision_determined_witness:
  "demo_manifest = demo_manifest \<and> map_of demo_files = map_of demo_files"
  by (rule verified_revision_determined [OF demo_verified demo_verified refl demo_hash_injective])

lemma verified_paths_safe_witness:
  "\<exists>p q. p = ''configure_summary.json'' \<and> q = MANIFEST_PATH
    \<and> hd p \<noteq> CHR ''/'' \<and> CHR 0x5C \<notin> set p \<and> casefold p \<noteq> casefold q
    \<and> casefold q \<notin> set (proper_prefixes slash (casefold p))"
proof -
  obtain p q where p: "p = ''configure_summary.json''" and q: "q = MANIFEST_PATH" by simp
  have names: "p \<in> fst ` set demo_files" "q \<in> fst ` set demo_files" "p \<noteq> q"
    by (simp_all add: p q demo_files_def MANIFEST_PATH_def)
  note safe = verified_paths_safe [OF demo_verified names(1,2)]
  from safe names(3) have "hd p \<noteq> CHR ''/'' \<and> CHR 0x5C \<notin> set p \<and> casefold p \<noteq> casefold q
    \<and> casefold q \<notin> set (proper_prefixes slash (casefold p))"
    by (elim conjE) (intro conjI; blast)
  with p q show ?thesis by blast
qed

lemma built_manifest_verifies_witness:
  "verify_tree_manifest demo_hash demo_files = Inr demo_manifest"
proof (rule built_manifest_verifies [OF demo_built demo_files_sorted _ _ demo_identity])
  show "int (length (write_tree_manifest demo_manifest)) \<le> MAX_MANIFEST_BYTES"
    "int (sum_list (map (length \<circ> snd) demo_files)) \<le> MAX_RUN_TOTAL_BYTES"
    using demo_lengths by (simp_all add: MAX_MANIFEST_BYTES_def MAX_RUN_TOTAL_BYTES_def demo_files_def)
qed

end
