(* ===== verification/TransactionJournal.thy ===== *)
theory TransactionJournal
  imports RelativePath
begin

text \<open>
  The journal of a transactional activation (\<open>src/src/hsconfig/runtime_transaction_journal.py\<close>):
  its phases, its cleanup entries, the conditions of a journal, its canonical bytes and their
  parser, and the order in which a journal may be succeeded by another. The theory
  TransactionRecovery holds the recovery of the directory of journals.
\<close>

section \<open>Data\<close>

datatype runtime_phase =
  PREPARED | RUNTIME_STAGED | RUNTIME_VERIFIED | INI_COMMITTED | STATE_COMMITTED | FINALIZED

type_synonym file_identity = "int \<times> int \<times> int"

record cleanup_entry =
  kind :: string
  relative_path :: string
  identity :: "file_identity option"

record runtime_journal =
  schema_version :: int
  transaction_id :: string
  deck_name :: string
  source_manifest_sha256 :: string
  state_key :: string
  logical_config_dir :: string
  package_root_sha256 :: string
  candidate_path :: string
  target_path :: string
  candidate_identity :: "file_identity option"
  target_identity :: "file_identity option"
  owns_target :: bool
  previous_config_dir :: "string option"
  next_config_dir :: string
  previous_ini_sha256 :: "string option"
  next_ini_sha256 :: string
  phase :: runtime_phase
  cleanup_started :: bool
  cleanup_entries :: "cleanup_entry list"
  cleanup_cursor :: int

definition RUNTIME_TRANSACTION_SCHEMA_VERSION :: int where "RUNTIME_TRANSACTION_SCHEMA_VERSION = 1"
definition MAX_RUNTIME_TRANSACTION_BYTES :: int where "MAX_RUNTIME_TRANSACTION_BYTES = 1024 * 1024"
definition SAFE_COMPONENT_LIMIT :: int where "SAFE_COMPONENT_LIMIT = 255"

fun phase_value :: "runtime_phase \<Rightarrow> string" where
  "phase_value PREPARED = ''prepared''"
| "phase_value RUNTIME_STAGED = ''runtime_staged''"
| "phase_value RUNTIME_VERIFIED = ''runtime_verified''"
| "phase_value INI_COMMITTED = ''ini_committed''"
| "phase_value STATE_COMMITTED = ''state_committed''"
| "phase_value FINALIZED = ''finalized''"

definition KEYS :: "string list" where
  "KEYS =
     [''schema_version'', ''transaction_id'', ''deck_name'', ''source_manifest_sha256'', ''state_key'',
      ''logical_config_dir'', ''package_root_sha256'', ''candidate_path'', ''target_path'',
      ''candidate_identity'', ''target_identity'', ''owns_target'', ''previous_config_dir'',
      ''next_config_dir'', ''previous_ini_sha256'', ''next_ini_sha256'', ''phase'', ''cleanup_started'',
      ''cleanup_entries'', ''cleanup_cursor'']"

definition CLEANUP_ENTRY_KEYS :: "string list" where
  "CLEANUP_ENTRY_KEYS = [''kind'', ''relative_path'', ''identity'']"

section \<open>Conditions\<close>

definition hex_text :: "nat \<Rightarrow> string \<Rightarrow> bool" where
  \<comment> \<open>a full match of \<open>[0-9a-f]{n}\<close>\<close>
  "hex_text n s = (length s = n \<and> list_all is_lower_hex s)"

definition is_transaction_id :: "string \<Rightarrow> bool" where "is_transaction_id s = hex_text 32 s"
definition is_sha256_hex :: "string \<Rightarrow> bool" where "is_sha256_hex s = hex_text 64 s"

definition is_lower_alnum :: "char \<Rightarrow> bool" where
  \<comment> \<open>\<open>[a-z0-9]\<close>\<close>
  "is_lower_alnum c = (let n = code c in (48 \<le> n \<and> n \<le> 57) \<or> (97 \<le> n \<and> n \<le> 122))"

definition is_state_key :: "string \<Rightarrow> bool" where
  \<comment> \<open>a full match of \<open>[a-z0-9][a-z0-9-]*--sha256-[0-9a-f]{64}\<close>; the last part has a fixed length\<close>
  "is_state_key s =
     (let n = length s; prefix = take (n - 73) s in
      74 \<le> n \<and> is_lower_alnum (hd prefix)
      \<and> list_all (\<lambda>c. is_lower_alnum c \<or> c = CHR ''-'') prefix
      \<and> take 9 (drop (n - 73) s) = ''--sha256-'' \<and> is_sha256_hex (drop (n - 64) s))"

definition valid_identity :: "file_identity option \<Rightarrow> bool" where
  "valid_identity v = (case v of None \<Rightarrow> True | Some (a, b, c) \<Rightarrow> 0 \<le> a \<and> 0 \<le> b \<and> 0 \<le> c)"

definition valid_deck_name :: "string \<Rightarrow> bool" where
  "valid_deck_name s =
     (s \<noteq> [] \<and> s = strip s \<and> int (length s) \<le> SAFE_COMPONENT_LIMIT
      \<and> \<not> (starts_with '';'' s \<or> starts_with ''#'' s)
      \<and> \<not> list_ex (\<lambda>c. c \<in> {CHR 0x0D, CHR 0x0A, CHR ''='', CHR 0x00}) s
      \<and> \<not> list_ex (\<lambda>c. code c < 32) s)"

definition valid_component :: "string \<Rightarrow> bool" where
  \<comment> \<open>\<open>Path(value).name == value\<close> asks for a single component\<close>
  "valid_component s =
     (s \<noteq> [] \<and> s = strip s \<and> int (length s) \<le> SAFE_COMPONENT_LIMIT
      \<and> s \<notin> {''.'', ''..''} \<and> last (split_on CHR ''/'' s) = s
      \<and> \<not> list_ex (\<lambda>c. c \<in> set ''<>:/|?*'' \<or> c \<in> {CHR 0x22, CHR 0x5C, CHR 0x00}) s
      \<and> \<not> list_ex (\<lambda>c. code c < 32) s
      \<and> \<not> (ends_with ''.'' s \<or> ends_with '' '' s))"

definition journal_error :: exn where
  "journal_error = ValueError ''runtime_transaction_journal_invalid''"

definition RuntimeCleanupEntry :: "pyval \<Rightarrow> pyval \<Rightarrow> file_identity option \<Rightarrow> cleanup_entry res" where
  "RuntimeCleanupEntry k path ident =
     (case canonical_run_relative_path path of
        Inl e \<Rightarrow> Inl (ValueError ''runtime_cleanup_entry_invalid'')
      | Inr canonical \<Rightarrow>
          if k \<notin> {PStr ''file'', PStr ''directory''} \<or> PStr canonical \<noteq> path \<or> \<not> valid_identity ident
          then Inl (ValueError ''runtime_cleanup_entry_invalid'')
          else Inr \<lparr>kind = py_str k, relative_path = canonical, identity = ident\<rparr>)"

definition cleanup_conditions :: "runtime_journal \<Rightarrow> bool" where
  "cleanup_conditions j =
     (distinct (map relative_path (cleanup_entries j))
      \<and> 0 \<le> cleanup_cursor j \<and> cleanup_cursor j \<le> int (length (cleanup_entries j))
      \<and> \<not> (cleanup_started j \<and> (phase j \<noteq> FINALIZED \<or> \<not> owns_target j))
      \<and> \<not> (\<not> cleanup_started j \<and> (cleanup_entries j \<noteq> [] \<or> cleanup_cursor j \<noteq> 0)))"

definition identity_conditions :: "runtime_journal \<Rightarrow> bool" where
  "identity_conditions j =
     (let candidate_with_identity = candidate_identity j \<noteq> None;
          target_with_identity = target_identity j \<noteq> None;
          committed = phase j \<in> {INI_COMMITTED, STATE_COMMITTED, FINALIZED};
          early = phase j \<in> {PREPARED, RUNTIME_STAGED} in
      \<not> (phase j \<in> {RUNTIME_STAGED, RUNTIME_VERIFIED} \<and> \<not> candidate_with_identity)
      \<and> \<not> (committed \<and> \<not> target_with_identity)
      \<and> \<not> (target_with_identity \<and> early)
      \<and> \<not> (owns_target j \<and> \<not> target_with_identity)
      \<and> \<not> (owns_target j \<and> early)
      \<and> \<not> (owns_target j \<and> candidate_identity j \<noteq> target_identity j))"

definition name_conditions :: "runtime_journal \<Rightarrow> bool" where
  "name_conditions j =
     (schema_version j = RUNTIME_TRANSACTION_SCHEMA_VERSION
      \<and> is_transaction_id (transaction_id j)
      \<and> valid_deck_name (deck_name j)
      \<and> is_sha256_hex (source_manifest_sha256 j)
      \<and> is_state_key (state_key j) \<and> int (length (state_key j)) \<le> SAFE_COMPONENT_LIMIT
      \<and> valid_component (logical_config_dir j)
      \<and> is_sha256_hex (package_root_sha256 j)
      \<and> next_config_dir j = logical_config_dir j @ ''--sha256-'' @ package_root_sha256 j
      \<and> valid_component (next_config_dir j)
      \<and> candidate_path j = ''.hsconfig/staging/'' @ transaction_id j
      \<and> target_path j = ''CustomConfig/'' @ next_config_dir j
      \<and> valid_identity (candidate_identity j) \<and> valid_identity (target_identity j)
      \<and> (case previous_config_dir j of None \<Rightarrow> True | Some d \<Rightarrow> valid_component d)
      \<and> (case previous_ini_sha256 j of None \<Rightarrow> True | Some d \<Rightarrow> is_sha256_hex d)
      \<and> is_sha256_hex (next_ini_sha256 j))"

definition RuntimeTransactionJournal :: "runtime_journal \<Rightarrow> runtime_journal res" where
  \<comment> \<open>\<open>__post_init__\<close>, on fields that have their types\<close>
  "RuntimeTransactionJournal j =
     (if name_conditions j \<and> cleanup_conditions j \<and> identity_conditions j then Inr j else Inl journal_error)"

section \<open>Bytes\<close>

definition identity_value :: "file_identity option \<Rightarrow> pyval" where
  "identity_value v = (case v of None \<Rightarrow> PNone | Some (a, b, c) \<Rightarrow> PList [PInt a, PInt b, PInt c])"

definition text_value :: "string option \<Rightarrow> pyval" where
  "text_value v = (case v of None \<Rightarrow> PNone | Some s \<Rightarrow> PStr s)"

definition entry_items :: "cleanup_entry \<Rightarrow> dict" where
  "entry_items e =
     [(''kind'', PStr (kind e)), (''relative_path'', PStr (relative_path e)),
      (''identity'', identity_value (identity e))]"

definition journal_items :: "runtime_journal \<Rightarrow> dict" where
  \<comment> \<open>\<open>asdict(journal)\<close> with the phase and the identities as JSON values\<close>
  "journal_items j =
     [(''schema_version'', PInt (schema_version j)), (''transaction_id'', PStr (transaction_id j)),
      (''deck_name'', PStr (deck_name j)), (''source_manifest_sha256'', PStr (source_manifest_sha256 j)),
      (''state_key'', PStr (state_key j)), (''logical_config_dir'', PStr (logical_config_dir j)),
      (''package_root_sha256'', PStr (package_root_sha256 j)), (''candidate_path'', PStr (candidate_path j)),
      (''target_path'', PStr (target_path j)),
      (''candidate_identity'', identity_value (candidate_identity j)),
      (''target_identity'', identity_value (target_identity j)), (''owns_target'', PBool (owns_target j)),
      (''previous_config_dir'', text_value (previous_config_dir j)),
      (''next_config_dir'', PStr (next_config_dir j)),
      (''previous_ini_sha256'', text_value (previous_ini_sha256 j)),
      (''next_ini_sha256'', PStr (next_ini_sha256 j)), (''phase'', PStr (phase_value (phase j))),
      (''cleanup_started'', PBool (cleanup_started j)),
      (''cleanup_entries'', PTuple (map (\<lambda>e. PDict (entry_items e)) (cleanup_entries j))),
      (''cleanup_cursor'', PInt (cleanup_cursor j))]"

definition journal_payload :: "runtime_journal \<Rightarrow> pyval" where
  "journal_payload j = PDict (journal_items j)"

definition runtime_transaction_journal_bytes :: "runtime_journal \<Rightarrow> string res" where
  "runtime_transaction_journal_bytes j =
     (let content = document_bytes journal_payload j in
      if int (length content) > MAX_RUNTIME_TRANSACTION_BYTES
      then Inl (ValueError ''runtime_transaction_journal_too_large'') else Inr content)"

section \<open>Parsing\<close>

definition parse_identity :: "pyval \<Rightarrow> file_identity option res" where
  "parse_identity v =
     (case v of
        PNone \<Rightarrow> Inr None
      | PList [PInt a, PInt b, PInt c] \<Rightarrow>
          if a < 0 \<or> b < 0 \<or> c < 0 then Inl (ValueError ''identity'') else Inr (Some (a, b, c))
      | _ \<Rightarrow> Inl (ValueError ''identity''))"

definition parse_cleanup_row :: "pyval \<Rightarrow> cleanup_entry res" where
  "parse_cleanup_row row =
     (if is_map row \<and> same_keys (items row) CLEANUP_ENTRY_KEYS then
        rbind (parse_identity (dget (items row) ''identity'')) (\<lambda>ident.
        if ident = None then Inl (ValueError ''cleanup identity'')
        else RuntimeCleanupEntry (dget (items row) ''kind'') (dget (items row) ''relative_path'') ident)
      else Inl (ValueError ''cleanup entry''))"

definition parse_phase :: "pyval \<Rightarrow> runtime_phase res" where
  \<comment> \<open>\<open>RuntimeTransactionPhase(value)\<close>\<close>
  "parse_phase v =
     (case find (\<lambda>p. v = PStr (phase_value p))
        [PREPARED, RUNTIME_STAGED, RUNTIME_VERIFIED, INI_COMMITTED, STATE_COMMITTED, FINALIZED] of
        None \<Rightarrow> Inl (ValueError ''phase'') | Some p \<Rightarrow> Inr p)"

text \<open>The types of the fields, which \<open>__post_init__\<close> checks.\<close>

definition as_text :: "pyval \<Rightarrow> string res" where
  "as_text v = (case v of PStr s \<Rightarrow> Inr s | _ \<Rightarrow> Inl journal_error)"

definition as_optional_text :: "pyval \<Rightarrow> string option res" where
  "as_optional_text v = (case v of PNone \<Rightarrow> Inr None | PStr s \<Rightarrow> Inr (Some s) | _ \<Rightarrow> Inl journal_error)"

definition as_bool :: "pyval \<Rightarrow> bool res" where
  "as_bool v = (case v of PBool b \<Rightarrow> Inr b | _ \<Rightarrow> Inl journal_error)"

definition as_int :: "pyval \<Rightarrow> int res" where
  "as_int v = (case v of PInt n \<Rightarrow> Inr n | _ \<Rightarrow> Inl journal_error)"

definition journal_from_payload :: "pyval \<Rightarrow> runtime_journal res" where
  "journal_from_payload payload =
     (if is_map payload \<and> same_keys (items payload) KEYS then
        (let p = items payload in
         rbind (parse_identity (dget p ''candidate_identity'')) (\<lambda>candidate.
         rbind (parse_identity (dget p ''target_identity'')) (\<lambda>target.
         case dget p ''cleanup_entries'' of
           PList rows \<Rightarrow>
             rbind (rmap parse_cleanup_row rows) (\<lambda>es.
             rbind (parse_phase (dget p ''phase'')) (\<lambda>ph.
             rbind (as_int (dget p ''schema_version'')) (\<lambda>version.
             rbind (as_text (dget p ''transaction_id'')) (\<lambda>transaction.
             rbind (as_text (dget p ''deck_name'')) (\<lambda>name.
             rbind (as_text (dget p ''source_manifest_sha256'')) (\<lambda>source.
             rbind (as_text (dget p ''state_key'')) (\<lambda>key.
             rbind (as_text (dget p ''logical_config_dir'')) (\<lambda>logical.
             rbind (as_text (dget p ''package_root_sha256'')) (\<lambda>root.
             rbind (as_text (dget p ''candidate_path'')) (\<lambda>cpath.
             rbind (as_text (dget p ''target_path'')) (\<lambda>tpath.
             rbind (as_bool (dget p ''owns_target'')) (\<lambda>owns.
             rbind (as_optional_text (dget p ''previous_config_dir'')) (\<lambda>pdir.
             rbind (as_text (dget p ''next_config_dir'')) (\<lambda>ndir.
             rbind (as_optional_text (dget p ''previous_ini_sha256'')) (\<lambda>pini.
             rbind (as_text (dget p ''next_ini_sha256'')) (\<lambda>nini.
             rbind (as_bool (dget p ''cleanup_started'')) (\<lambda>started.
             rbind (as_int (dget p ''cleanup_cursor'')) (\<lambda>cursor.
             RuntimeTransactionJournal
               \<lparr>schema_version = version, transaction_id = transaction, deck_name = name,
                source_manifest_sha256 = source, state_key = key, logical_config_dir = logical,
                package_root_sha256 = root, candidate_path = cpath, target_path = tpath,
                candidate_identity = candidate, target_identity = target, owns_target = owns,
                previous_config_dir = pdir, next_config_dir = ndir, previous_ini_sha256 = pini,
                next_ini_sha256 = nini, phase = ph, cleanup_started = started,
                cleanup_entries = es, cleanup_cursor = cursor\<rparr>))))))))))))))))))
         | _ \<Rightarrow> Inl (ValueError ''cleanup entries''))))
      else Inl (ValueError ''schema''))"

definition parse_steps :: "string \<Rightarrow> string option \<Rightarrow> runtime_journal res" where
  "parse_steps content expected =
     rbind (raise_if
         (content = [] \<or> int (length content) > MAX_RUNTIME_TRANSACTION_BYTES
          \<or> (case expected of None \<Rightarrow> False | Some t \<Rightarrow> \<not> is_transaction_id t))
       (ValueError ''content'')) (\<lambda>_.
     rbind (rbind (utf8_decode content) json_loads) (\<lambda>payload.
     rbind (journal_from_payload payload) (\<lambda>j.
     rbind (raise_if (expected \<noteq> None \<and> Some (transaction_id j) \<noteq> expected) (ValueError ''transaction'')) (\<lambda>_.
     rbind (runtime_transaction_journal_bytes j) (\<lambda>written.
     rbind (raise_if (content \<noteq> written) (ValueError ''noncanonical'')) (\<lambda>_. Inr j))))))"

definition parse_runtime_transaction_journal_bytes :: "string \<Rightarrow> string option \<Rightarrow> runtime_journal res" where
  "parse_runtime_transaction_journal_bytes content expected =
     (case parse_steps content expected of Inl e \<Rightarrow> Inl journal_error | Inr j \<Rightarrow> Inr j)"

section \<open>The journal is a document\<close>

definition entry_valid :: "cleanup_entry \<Rightarrow> bool" where
  \<comment> \<open>an entry that the constructor accepts and that has an identity\<close>
  "entry_valid e =
     (identity e \<noteq> None
      \<and> RuntimeCleanupEntry (PStr (kind e)) (PStr (relative_path e)) (identity e) = Inr e)"

definition journal_valid :: "runtime_journal \<Rightarrow> bool" where
  "journal_valid j = (list_all entry_valid (cleanup_entries j) \<and> RuntimeTransactionJournal j = Inr j)"

lemma RuntimeTransactionJournal_Inr:
  "RuntimeTransactionJournal i = Inr j \<longleftrightarrow>
     i = j \<and> name_conditions j \<and> cleanup_conditions j \<and> identity_conditions j"
  by (auto simp: RuntimeTransactionJournal_def)

lemma RuntimeCleanupEntry_Inr:
  assumes "RuntimeCleanupEntry k path ident = Inr e"
  shows "k = PStr (kind e)" and "path = PStr (relative_path e)" and "ident = identity e"
  using assms by (auto simp: RuntimeCleanupEntry_def split: sum.splits if_splits)

lemma parse_identity_value:
  "valid_identity v \<Longrightarrow> parse_identity (identity_value v) = Inr v"
  "json_canon (identity_value v) = identity_value v"
  by (auto simp: valid_identity_def parse_identity_def identity_value_def split: option.splits)

lemma text_value_simps [simp]:
  "as_optional_text (text_value v) = Inr v" "json_canon (text_value v) = text_value v"
  "wf_val (text_value v)" "wf_val (identity_value w)"
  by (auto simp: as_optional_text_def text_value_def identity_value_def split: option.splits)

lemma as_simps [simp]: "as_text (PStr s) = Inr s" "as_bool (PBool b) = Inr b" "as_int (PInt n) = Inr n"
  by (simp_all add: as_text_def as_bool_def as_int_def)

lemma parse_phase_value: "parse_phase (PStr (phase_value p)) = Inr p"
  by (cases p) (simp_all add: parse_phase_def)

lemma wf_entry_items: "wf_dict (entry_items e)"
  by (simp add: entry_items_def wf_dict_def)

lemma parse_cleanup_row_canon:
  assumes "entry_valid e"
  shows "parse_cleanup_row (json_canon (PDict (entry_items e))) = Inr e"
proof -
  have "same_keys (entry_items e) CLEANUP_ENTRY_KEYS"
    by (simp add: entry_items_def CLEANUP_ENTRY_KEYS_def same_keys_iff)
  moreover have "valid_identity (identity e)"
    using assms by (auto simp: entry_valid_def RuntimeCleanupEntry_def split: sum.splits if_splits)
  moreover have "dget (entry_items e) ''kind'' = PStr (kind e)"
    "dget (entry_items e) ''relative_path'' = PStr (relative_path e)"
    "dget (entry_items e) ''identity'' = identity_value (identity e)"
    by (simp_all add: entry_items_def dget_def)
  ultimately show ?thesis
    using assms
    by (auto simp: parse_cleanup_row_def same_keys_json_canon dget_json_canon [OF wf_entry_items]
        parse_identity_value entry_valid_def)
qed

lemma parse_cleanup_row_valid: "parse_cleanup_row row = Inr e \<Longrightarrow> entry_valid e"
  using RuntimeCleanupEntry_Inr by (fastforce simp: parse_cleanup_row_def entry_valid_def split: if_splits)

lemma wf_journal_payload: "wf_val (journal_payload j)"
  by (auto simp: journal_payload_def journal_items_def wf_dict_def wf_vals_iff wf_items_iff entry_items_def)

lemma journal_keys: "same_keys (journal_items j) KEYS"
  by (simp add: journal_items_def KEYS_def same_keys_iff insert_commute)

lemma journal_gets:
  "dget (journal_items j) ''schema_version'' = PInt (schema_version j)"
  "dget (journal_items j) ''transaction_id'' = PStr (transaction_id j)"
  "dget (journal_items j) ''deck_name'' = PStr (deck_name j)"
  "dget (journal_items j) ''source_manifest_sha256'' = PStr (source_manifest_sha256 j)"
  "dget (journal_items j) ''state_key'' = PStr (state_key j)"
  "dget (journal_items j) ''logical_config_dir'' = PStr (logical_config_dir j)"
  "dget (journal_items j) ''package_root_sha256'' = PStr (package_root_sha256 j)"
  "dget (journal_items j) ''candidate_path'' = PStr (candidate_path j)"
  "dget (journal_items j) ''target_path'' = PStr (target_path j)"
  "dget (journal_items j) ''candidate_identity'' = identity_value (candidate_identity j)"
  "dget (journal_items j) ''target_identity'' = identity_value (target_identity j)"
  "dget (journal_items j) ''owns_target'' = PBool (owns_target j)"
  "dget (journal_items j) ''previous_config_dir'' = text_value (previous_config_dir j)"
  "dget (journal_items j) ''next_config_dir'' = PStr (next_config_dir j)"
  "dget (journal_items j) ''previous_ini_sha256'' = text_value (previous_ini_sha256 j)"
  "dget (journal_items j) ''next_ini_sha256'' = PStr (next_ini_sha256 j)"
  "dget (journal_items j) ''phase'' = PStr (phase_value (phase j))"
  "dget (journal_items j) ''cleanup_started'' = PBool (cleanup_started j)"
  "dget (journal_items j) ''cleanup_entries'' = PTuple (map (\<lambda>e. PDict (entry_items e)) (cleanup_entries j))"
  "dget (journal_items j) ''cleanup_cursor'' = PInt (cleanup_cursor j)"
  by (simp_all add: journal_items_def dget_def)

lemma journal_eta:
  "\<lparr>schema_version = schema_version j, transaction_id = transaction_id j,
      deck_name = deck_name j, source_manifest_sha256 = source_manifest_sha256 j,
      state_key = state_key j, logical_config_dir = logical_config_dir j,
      package_root_sha256 = package_root_sha256 j, candidate_path = candidate_path j,
      target_path = target_path j, candidate_identity = candidate_identity j,
      target_identity = target_identity j, owns_target = owns_target j,
      previous_config_dir = previous_config_dir j, next_config_dir = next_config_dir j,
      previous_ini_sha256 = previous_ini_sha256 j, next_ini_sha256 = next_ini_sha256 j,
      phase = phase j, cleanup_started = cleanup_started j, cleanup_entries = cleanup_entries j,
      cleanup_cursor = cleanup_cursor j\<rparr> = j"
  by simp

lemma parse_journal_payload:
  assumes "journal_valid j"
  shows "journal_from_payload (json_canon (journal_payload j)) = Inr j"
proof -
  have wf: "wf_dict (journal_items j)" using wf_journal_payload [of j] by (simp add: journal_payload_def)
  have rows: "rmap parse_cleanup_row (map (\<lambda>e. json_canon (PDict (entry_items e))) (cleanup_entries j))
      = Inr (cleanup_entries j)"
    using assms parse_cleanup_row_canon
    by (auto simp: journal_valid_def list_all_iff rmap_Inr_iff list_all2_conv_all_nth simp del: json_canon.simps)
  have ids: "valid_identity (candidate_identity j)" "valid_identity (target_identity j)"
    using assms by (auto simp: journal_valid_def RuntimeTransactionJournal_Inr name_conditions_def)
  show ?thesis
    using assms
    by (simp add: journal_from_payload_def journal_payload_def same_keys_json_canon journal_keys
        dget_json_canon [OF wf] journal_gets json_maps(3) comp_def rows [simplified] parse_identity_value ids
        parse_phase_value journal_valid_def journal_eta)
qed

lemma rbind_elim: "rbind m f = Inr y \<Longrightarrow> (\<And>x. m = Inr x \<Longrightarrow> f x = Inr y \<Longrightarrow> P) \<Longrightarrow> P"
  by auto

lemma parse_journal_parts:
  assumes "journal_from_payload v = Inr j"
  obtains rows where "dget (items v) ''cleanup_entries'' = PList rows"
    and "rmap parse_cleanup_row rows = Inr (cleanup_entries j)" and "RuntimeTransactionJournal j = Inr j"
proof (cases "dget (items v) ''cleanup_entries''")
  case (PList rows)
  have keys: "(is_map v \<and> same_keys (items v) KEYS) = True"
    using assms by (auto simp: journal_from_payload_def split: if_splits)
  show ?thesis
    using assms
    unfolding journal_from_payload_def Let_def PList keys if_True pyval.simps
    by - ((erule rbind_elim)+, rule that [OF PList], auto simp: RuntimeTransactionJournal_Inr)
qed (use assms in \<open>auto simp: journal_from_payload_def Let_def split: if_splits\<close>)

lemma parse_journal_valid: "journal_from_payload v = Inr j \<Longrightarrow> journal_valid j"
proof -
  assume "journal_from_payload v = Inr j"
  then obtain rows where "rmap parse_cleanup_row rows = Inr (cleanup_entries j)"
    and ok: "RuntimeTransactionJournal j = Inr j" by (rule parse_journal_parts)
  then have "list_all2 (\<lambda>row e. parse_cleanup_row row = Inr e) rows (cleanup_entries j)"
    by (simp add: rmap_Inr_iff)
  then have "list_all entry_valid (cleanup_entries j)"
    by (auto simp: list_all2_conv_all_nth list_all_length dest: parse_cleanup_row_valid)
  with ok show ?thesis by (simp add: journal_valid_def)
qed

interpretation journal_document: json_document journal_payload journal_from_payload journal_valid
  by unfold_locales (auto simp: wf_journal_payload parse_journal_payload parse_journal_valid)

section \<open>Succession\<close>

fun phase_order :: "runtime_phase \<Rightarrow> int" where
  "phase_order PREPARED = 0"
| "phase_order RUNTIME_STAGED = 1"
| "phase_order RUNTIME_VERIFIED = 2"
| "phase_order INI_COMMITTED = 3"
| "phase_order STATE_COMMITTED = 4"
| "phase_order FINALIZED = 5"

definition immutable_fields_equal :: "runtime_journal \<Rightarrow> runtime_journal \<Rightarrow> bool" where
  "immutable_fields_equal p s =
     (schema_version p = schema_version s \<and> transaction_id p = transaction_id s \<and> deck_name p = deck_name s
      \<and> source_manifest_sha256 p = source_manifest_sha256 s \<and> state_key p = state_key s
      \<and> logical_config_dir p = logical_config_dir s \<and> package_root_sha256 p = package_root_sha256 s
      \<and> candidate_path p = candidate_path s \<and> target_path p = target_path s
      \<and> previous_config_dir p = previous_config_dir s \<and> next_config_dir p = next_config_dir s
      \<and> previous_ini_sha256 p = previous_ini_sha256 s \<and> next_ini_sha256 p = next_ini_sha256 s)"

definition is_monotonic_successor :: "runtime_journal \<Rightarrow> runtime_journal \<Rightarrow> bool" where
  "is_monotonic_successor p s =
     (if \<not> immutable_fields_equal p s then False
      else if phase_order (phase s) < phase_order (phase p) then False
      else if candidate_identity p \<notin> {None, candidate_identity s} then False
      else if target_identity p \<notin> {None, target_identity s} then False
      else if owns_target p \<and> \<not> owns_target s then False
      else if cleanup_started p then
        cleanup_started s \<and> cleanup_entries s = cleanup_entries p \<and> cleanup_cursor s \<ge> cleanup_cursor p
      else if cleanup_started s then
        phase p = FINALIZED \<and> owns_target p \<and> phase s = FINALIZED \<and> owns_target s \<and> cleanup_cursor s = 0
      else True)"

definition journal_progress_key :: "runtime_journal \<Rightarrow> int list" where
  "journal_progress_key j =
     [phase_order (phase j), bool_int (candidate_identity j \<noteq> None), bool_int (target_identity j \<noteq> None),
      bool_int (cleanup_started j), cleanup_cursor j]"

lemma phase_order_inj: "phase_order p = phase_order q \<longleftrightarrow> p = q"
  by (cases p; cases q) simp_all

lemma successor_refl: "is_monotonic_successor j j"
  by (simp add: is_monotonic_successor_def immutable_fields_equal_def)

lemma successor_parts:
  "is_monotonic_successor p s \<longleftrightarrow>
     immutable_fields_equal p s \<and> phase_order (phase p) \<le> phase_order (phase s)
     \<and> (candidate_identity p = None \<or> candidate_identity p = candidate_identity s)
     \<and> (target_identity p = None \<or> target_identity p = target_identity s)
     \<and> (owns_target p \<longrightarrow> owns_target s)
     \<and> (if cleanup_started p then
          cleanup_started s \<and> cleanup_entries s = cleanup_entries p \<and> cleanup_cursor p \<le> cleanup_cursor s
        else cleanup_started s \<longrightarrow> phase p = FINALIZED \<and> owns_target p \<and> phase s = FINALIZED \<and> owns_target s
          \<and> cleanup_cursor s = 0)"
  unfolding is_monotonic_successor_def not_less [symmetric]
  by (simp del: not_None_eq not_Some_eq split_paired_All split_paired_Ex not_less)

lemma lex5: "a \<le> a' \<Longrightarrow> b \<le> b' \<Longrightarrow> c \<le> c' \<Longrightarrow> d \<le> d' \<Longrightarrow> (d = d' \<Longrightarrow> e \<le> e')
    \<Longrightarrow> [a, b, c, d, e] \<le> [a', b', c', d', e' :: int]"
  by (auto simp: less_eq_list_code)

lemma successor_cursor:
  assumes "is_monotonic_successor p s" and "cleanup_conditions p" and "cleanup_conditions s"
    and "cleanup_started p = cleanup_started s"
  shows "cleanup_cursor p \<le> cleanup_cursor s" and "cleanup_entries p = cleanup_entries s"
  using assms by (cases "cleanup_started p"; simp add: successor_parts cleanup_conditions_def)+

lemma successor_key_le:
  assumes s: "is_monotonic_successor p s" and c: "cleanup_conditions p" "cleanup_conditions s"
  shows "journal_progress_key p \<le> journal_progress_key s"
  unfolding journal_progress_key_def
proof (rule lex5)
  note parts = s [unfolded successor_parts]
  show "phase_order (phase p) \<le> phase_order (phase s)" using parts by blast
  show "bool_int (candidate_identity p \<noteq> None) \<le> bool_int (candidate_identity s \<noteq> None)"
    "bool_int (target_identity p \<noteq> None) \<le> bool_int (target_identity s \<noteq> None)"
    "bool_int (cleanup_started p) \<le> bool_int (cleanup_started s)"
    using parts by (auto simp: bool_int_def)
  show "cleanup_cursor p \<le> cleanup_cursor s" if "bool_int (cleanup_started p) = bool_int (cleanup_started s)"
    using that successor_cursor [OF s c] by (auto simp: bool_int_def split: if_splits)
qed

lemma successor_antisym:
  assumes ps: "is_monotonic_successor p s" and sp: "is_monotonic_successor s p"
    and c: "cleanup_conditions p" "cleanup_conditions s"
  shows "p = s"
proof -
  note parts = ps [unfolded successor_parts] sp [unfolded successor_parts]
  have "phase p = phase s" using parts by (simp add: phase_order_inj [symmetric])
  moreover have "candidate_identity p = candidate_identity s" "target_identity p = target_identity s"
    "owns_target p = owns_target s" using parts by auto
  moreover have started: "cleanup_started p = cleanup_started s" using parts by (auto split: if_splits)
  moreover have "cleanup_entries p = cleanup_entries s" "cleanup_cursor p = cleanup_cursor s"
    using successor_cursor [OF ps c started] successor_cursor [OF sp c(2,1) started [symmetric]] by simp_all
  ultimately show ?thesis using parts(1) by (simp add: immutable_fields_equal_def)
qed

lemma journal_valid_parts:
  "journal_valid j \<Longrightarrow> name_conditions j \<and> cleanup_conditions j \<and> identity_conditions j"
  by (simp add: journal_valid_def RuntimeTransactionJournal_Inr)

lemma successor_transaction: "is_monotonic_successor p s \<Longrightarrow> transaction_id s = transaction_id p"
  by (simp add: is_monotonic_successor_def immutable_fields_equal_def split: if_splits)

section \<open>Reading\<close>

definition fits :: "runtime_journal \<Rightarrow> bool" where
  \<comment> \<open>the journal does not exceed the size limit\<close>
  "fits j = (int (length (document_bytes journal_payload j)) \<le> MAX_RUNTIME_TRANSACTION_BYTES)"

lemma bytes_Inr: "runtime_transaction_journal_bytes j = Inr b \<longleftrightarrow> fits j \<and> b = document_bytes journal_payload j"
  by (auto simp: runtime_transaction_journal_bytes_def fits_def Let_def)

lemma document_bytes_not_Nil: "document_bytes f x \<noteq> []"
  by (auto simp: document_bytes_def utf8_encode_def utf8_char_def Let_def)

lemma parse_steps_Inr:
  "parse_steps content expected = Inr j \<longleftrightarrow>
     journal_valid j \<and> runtime_transaction_journal_bytes j = Inr content
     \<and> (expected = None \<or> expected = Some (transaction_id j))"
proof
  assume "parse_steps content expected = Inr j"
  then show "journal_valid j \<and> runtime_transaction_journal_bytes j = Inr content
      \<and> (expected = None \<or> expected = Some (transaction_id j))"
    by (auto simp: parse_steps_def intro: parse_journal_valid)
next
  assume j: "journal_valid j \<and> runtime_transaction_journal_bytes j = Inr content
      \<and> (expected = None \<or> expected = Some (transaction_id j))"
  then have b: "content = document_bytes journal_payload j" "fits j" by (simp_all add: bytes_Inr)
  have "rbind (utf8_decode content) json_loads = Inr (json_canon (journal_payload j))"
    by (simp add: b document_bytes_def utf8_roundtrip json_loads_dumps wf_journal_payload)
  moreover have "is_transaction_id (transaction_id j)"
    using j journal_valid_parts [of j] by (simp add: name_conditions_def)
  ultimately show "parse_steps content expected = Inr j"
    using j b document_bytes_not_Nil [of journal_payload j] parse_journal_payload [of j]
    by (auto simp: parse_steps_def raise_if_def fits_def)
qed

lemma parse_Inr [simp]:
  "parse_runtime_transaction_journal_bytes content expected = Inr j \<longleftrightarrow> parse_steps content expected = Inr j"
  by (simp add: parse_runtime_transaction_journal_bytes_def split: sum.splits)

lemma parse_Inl:
  "parse_runtime_transaction_journal_bytes content expected = Inl e \<Longrightarrow> e = journal_error"
  by (simp add: parse_runtime_transaction_journal_bytes_def split: sum.splits)

section \<open>Properties\<close>

text \<open>
  C24. A journal file is read as the journal \<open>j\<close> if and only if \<open>j\<close> is a valid journal whose
  cleanup entries all have an identity, the bytes of the file are the canonical bytes of \<open>j\<close>
  within the size limit, and the expected transaction, where one is given, is that of \<open>j\<close>. So
  what is written reads back, and no other bytes read as the same journal.
\<close>
theorem journal_reads_back:
  "parse_runtime_transaction_journal_bytes content expected = Inr j \<longleftrightarrow>
     journal_valid j \<and> runtime_transaction_journal_bytes j = Inr content
     \<and> (expected = None \<or> expected = Some (transaction_id j))"
  by (simp add: parse_steps_Inr)

lemma canon_bytes_eq:
  assumes "document_bytes journal_payload i = document_bytes journal_payload j"
  shows "json_canon (journal_payload i) = json_canon (journal_payload j)"
  using arg_cong [OF assms, of "\<lambda>b. rbind (utf8_decode b) json_loads"]
  by (simp add: document_bytes_def utf8_roundtrip json_loads_dumps wf_journal_payload)

lemma unreadable_entry:
  assumes "journal_from_payload (json_canon (journal_payload j)) = Inr i" and "e \<in> set (cleanup_entries j)"
  shows "identity e \<noteq> None"
proof
  assume none: "identity e = None"
  have wf: "wf_dict (journal_items j)" using wf_journal_payload [of j] by (simp add: journal_payload_def)
  have rows: "dget (items (json_canon (journal_payload j))) ''cleanup_entries''
      = PList (map (\<lambda>e. json_canon (PDict (entry_items e))) (cleanup_entries j))"
    by (simp add: journal_payload_def dget_json_canon [OF wf] journal_gets json_maps(3) comp_def)
  from assms(1) obtain es where
    "rmap parse_cleanup_row (map (\<lambda>e. json_canon (PDict (entry_items e))) (cleanup_entries j)) = Inr es"
    using rows by (auto elim!: parse_journal_parts)
  with assms(2) obtain r where "parse_cleanup_row (json_canon (PDict (entry_items e))) = Inr r"
    by (auto simp: rmap_Inr_iff list_all2_conv_all_nth in_set_conv_nth simp del: json_canon.simps)
  moreover have "dget (entry_items e) ''identity'' = PNone"
    by (simp add: entry_items_def dget_def none identity_value_def)
  ultimately show False
    by (simp add: parse_cleanup_row_def dget_json_canon [OF wf_entry_items] parse_identity_def split: if_splits)
qed

lemma constructed_valid:
  assumes "RuntimeTransactionJournal j = Inr j"
    and "list_all (\<lambda>e. RuntimeCleanupEntry (PStr (kind e)) (PStr (relative_path e)) (identity e) = Inr e)
      (cleanup_entries j)"
  shows "journal_valid j \<longleftrightarrow> list_all (\<lambda>e. identity e \<noteq> None) (cleanup_entries j)"
  using assms by (auto simp: journal_valid_def entry_valid_def list_all_iff)

text \<open>
  C25. The constructors accept a cleanup entry without an identity, and the writer writes it, but
  no reader accepts the file: a journal that could be constructed and written can be read back
  if and only if all of its cleanup entries have an identity.
\<close>
theorem written_journal_readable:
  assumes "RuntimeTransactionJournal j = Inr j"
    and "list_all (\<lambda>e. RuntimeCleanupEntry (PStr (kind e)) (PStr (relative_path e)) (identity e) = Inr e)
      (cleanup_entries j)"
    and "runtime_transaction_journal_bytes j = Inr content"
  shows "parse_runtime_transaction_journal_bytes content None =
    (if list_all (\<lambda>e. identity e \<noteq> None) (cleanup_entries j) then Inr j else Inl journal_error)"
proof (cases "list_all (\<lambda>e. identity e \<noteq> None) (cleanup_entries j)")
  case False
  have unread: "parse_runtime_transaction_journal_bytes content None \<noteq> Inr i" for i
  proof
    assume "parse_runtime_transaction_journal_bytes content None = Inr i"
    then have i: "journal_valid i" "content = document_bytes journal_payload i"
      by (simp_all add: parse_steps_Inr bytes_Inr)
    from assms(3) have "content = document_bytes journal_payload j" by (simp add: bytes_Inr)
    with i(2) have "json_canon (journal_payload i) = json_canon (journal_payload j)"
      by (intro canon_bytes_eq) (simp only:)
    with parse_journal_payload [OF i(1)]
    have "journal_from_payload (json_canon (journal_payload j)) = Inr i" by (simp only:)
    then have "list_all (\<lambda>e. identity e \<noteq> None) (cleanup_entries j)"
      unfolding list_all_iff by (intro ballI unreadable_entry)
    with False show False by (rule notE)
  qed
  show ?thesis
  proof (cases "parse_runtime_transaction_journal_bytes content None")
    case (Inl e)
    then have "e = journal_error" by (rule parse_Inl)
    with Inl False show ?thesis by (simp only: if_False)
  next
    case (Inr i)
    with unread show ?thesis by blast
  qed
qed (use assms constructed_valid in \<open>simp add: parse_steps_Inr\<close>)

text \<open>
  C27. The order in which journals succeed each other is an order: no two distinct valid journals
  succeed each other, a successor belongs to the same transaction, and the progress key by
  which the recovery sorts never decreases along a succession.
\<close>
theorem succession_is_progress:
  assumes "is_monotonic_successor p s" and "journal_valid p" and "journal_valid s"
  shows "transaction_id s = transaction_id p \<and> journal_progress_key p \<le> journal_progress_key s
    \<and> (is_monotonic_successor s p \<longleftrightarrow> s = p)"
  using assms successor_antisym [of p s] successor_key_le [of p s] successor_transaction [of p s]
    successor_refl journal_valid_parts
  by blast

section \<open>A concrete transaction\<close>

definition demo_hex :: "nat \<Rightarrow> string" where "demo_hex n = replicate n CHR ''0''"

definition demo_journal :: "runtime_phase \<Rightarrow> file_identity option \<Rightarrow> file_identity option \<Rightarrow> bool \<Rightarrow> runtime_journal" where
  "demo_journal ph candidate target owns =
     \<lparr>schema_version = 1, transaction_id = demo_hex 32, deck_name = ''Shadow'',
      source_manifest_sha256 = demo_hex 64, state_key = ''s--sha256-'' @ demo_hex 64,
      logical_config_dir = ''Shadow'', package_root_sha256 = demo_hex 64,
      candidate_path = ''.hsconfig/staging/'' @ demo_hex 32,
      target_path = ''CustomConfig/Shadow--sha256-'' @ demo_hex 64,
      candidate_identity = candidate, target_identity = target, owns_target = owns,
      previous_config_dir = None, next_config_dir = ''Shadow--sha256-'' @ demo_hex 64,
      previous_ini_sha256 = None, next_ini_sha256 = demo_hex 64, phase = ph,
      cleanup_started = False, cleanup_entries = [], cleanup_cursor = 0\<rparr>"

lemma demo_hex_length [simp]: "length (demo_hex n) = n"
  by (simp add: demo_hex_def)

lemma demo_hex_ok: "is_transaction_id (demo_hex 32)" "is_sha256_hex (demo_hex 64)"
  by (simp_all add: is_transaction_id_def is_sha256_hex_def hex_text_def demo_hex_def list_all_iff is_lower_hex_def)

lemma strip_clean: "s = strip s \<longleftrightarrow> clean is_space s"
  by (metis strip_by_clean_iff strip_def)

lemma valid_componentI:
  assumes "s \<noteq> []" and "clean is_space s" and "int (length s) \<le> SAFE_COMPONENT_LIMIT" and "s \<notin> {''.'', ''..''}"
    and "last s \<notin> {CHR ''.'', CHR '' ''}"
    and "set s \<inter> (set ''<>:/|?*'' \<union> {CHR 0x22, CHR 0x5C, CHR 0x00}) = {}" and "\<forall>c\<in>set s. 32 \<le> code c"
  shows "valid_component s"
proof -
  have "\<not> ends_with [c] s" if "c \<in> {CHR ''.'', CHR '' ''}" for c
    using that assms(1,5) by (cases s rule: rev_cases) (auto simp: ends_with_def starts_with_def)
  moreover have "CHR ''/'' \<notin> set s" using assms(6) by auto
  then have "last (split_on CHR ''/'' s) = s" by (simp add: split_on_no_sep)
  moreover have "\<not> list_ex (\<lambda>c. c \<in> set ''<>:/|?*'' \<or> c \<in> {CHR 0x22, CHR 0x5C, CHR 0x00}) s"
    unfolding list_ex_iff using assms(6) by blast
  moreover have "\<not> list_ex (\<lambda>c. code c < 32) s" using assms(7) by (auto simp: list_ex_iff)
  ultimately show ?thesis
    unfolding valid_component_def strip_clean using assms(1-4) by blast
qed

lemma demo_component: "valid_component ''Shadow''" "valid_component (''Shadow--sha256-'' @ demo_hex 64)"
  by (rule valid_componentI; simp add: clean_def is_space_def code_def SAFE_COMPONENT_LIMIT_def demo_hex_def)+

lemma demo_names:
  assumes "valid_identity candidate" and "valid_identity target"
  shows "name_conditions (demo_journal ph candidate target owns)"
proof -
  have key: "is_state_key (''s--sha256-'' @ demo_hex 64)"
    using demo_hex_ok by (simp add: is_state_key_def Let_def demo_hex_def is_lower_alnum_def code_def)
  have deck: "valid_deck_name ''Shadow''"
    by (simp add: valid_deck_name_def strip_clean clean_def is_space_def code_def SAFE_COMPONENT_LIMIT_def
        starts_with_def)
  from key deck demo_hex_ok assms demo_component show ?thesis
    by (simp add: name_conditions_def demo_journal_def RUNTIME_TRANSACTION_SCHEMA_VERSION_def SAFE_COMPONENT_LIMIT_def)
qed

abbreviation demo_prepared :: runtime_journal where
  "demo_prepared \<equiv> demo_journal PREPARED None None False"

abbreviation demo_staged :: runtime_journal where
  "demo_staged \<equiv> demo_journal RUNTIME_STAGED (Some (1, 2, 3)) None False"

lemma demo_journals_valid: "journal_valid demo_prepared" "journal_valid demo_staged"
  by (simp_all add: journal_valid_def RuntimeTransactionJournal_Inr demo_names valid_identity_def)
     (simp_all add: demo_journal_def cleanup_conditions_def identity_conditions_def)

lemma demo_successor: "is_monotonic_successor demo_prepared demo_staged" "\<not> is_monotonic_successor demo_staged demo_prepared"
  by (simp_all add: is_monotonic_successor_def immutable_fields_equal_def demo_journal_def)

lemma succession_is_progress_witness:
  "transaction_id demo_staged = transaction_id demo_prepared
    \<and> journal_progress_key demo_prepared \<le> journal_progress_key demo_staged
    \<and> (is_monotonic_successor demo_staged demo_prepared \<longleftrightarrow> demo_staged = demo_prepared)"
  by (rule succession_is_progress [OF demo_successor(1) demo_journals_valid])

definition demo_unreadable :: runtime_journal where
  \<comment> \<open>a finished transaction whose only cleanup entry has no identity\<close>
  "demo_unreadable =
     (demo_journal FINALIZED (Some (1, 2, 3)) (Some (1, 2, 3)) True)
       \<lparr>cleanup_started := True, cleanup_entries := [\<lparr>kind = ''file'', relative_path = ''a'', identity = None\<rparr>]\<rparr>"

lemmas journal_printing = document_bytes_def journal_payload_def journal_items_def json_dumps_def utf8_encode_def
  json_string_def newline_def utf8_char_def code_def json_char_def int_text_def hex_digit_def nat_digits.simps
  identity_value_def text_value_def entry_items_def

lemma demo_fits: "fits demo_unreadable" "fits demo_prepared" "fits demo_staged"
  by (simp_all add: fits_def MAX_RUNTIME_TRANSACTION_BYTES_def demo_unreadable_def demo_journal_def demo_hex_def
      journal_printing)

lemma written_journal_readable_witness:
  "parse_runtime_transaction_journal_bytes (document_bytes journal_payload demo_unreadable) None = Inl journal_error"
proof -
  have a: "canonical_run_relative_path (PStr ''a'') = Inr ''a''" by code_simp
  have j: "RuntimeTransactionJournal demo_unreadable = Inr demo_unreadable"
    using demo_names [of "Some (1, 2, 3)" "Some (1, 2, 3)" FINALIZED True]
    by (simp add: RuntimeTransactionJournal_Inr valid_identity_def demo_unreadable_def name_conditions_def)
       (simp add: demo_journal_def cleanup_conditions_def identity_conditions_def)
  have e: "list_all (\<lambda>e. RuntimeCleanupEntry (PStr (kind e)) (PStr (relative_path e)) (identity e) = Inr e)
      (cleanup_entries demo_unreadable)"
    by (simp add: demo_unreadable_def demo_journal_def RuntimeCleanupEntry_def a valid_identity_def)
  have "\<not> list_all (\<lambda>e. identity e \<noteq> None) (cleanup_entries demo_unreadable)"
    by (simp add: demo_unreadable_def)
  then show ?thesis
    using written_journal_readable [OF j e] demo_fits(1) by (simp add: bytes_Inr)
qed

end
