(* ===== verification/TransactionRecovery.thy ===== *)
theory TransactionRecovery
  imports TransactionJournal
begin

text \<open>
  The recovery of the directory of transaction journals
  (\<open>load_runtime_transaction_journals\<close> in \<open>src/src/hsconfig/runtime_transaction_journal.py\<close>):
  after a crash a transaction has a final journal file, temporary files of interrupted writes, or
  both. Recovery selects the furthest journal of each transaction, promotes it and removes the
  other readable temporaries.

  The directory is the association list of its entries in the order in which it is scanned; an
  entry says whether it is a plain file with one link. Nobody else changes the directory
  meanwhile, so the checks of file identities, which detect this, always succeed.
\<close>

section \<open>The directory\<close>

record dir_entry =
  plain :: bool
  content :: string

type_synonym directory = "(string \<times> dir_entry) list"

definition MAX_RUNTIME_TRANSACTION_FILES :: int where "MAX_RUNTIME_TRANSACTION_FILES = 1024"

datatype entry_name = FinalName string | TempName string

definition transaction_entry :: "string \<Rightarrow> entry_name option" where
  \<comment> \<open>a full match of \<open>_TRANSACTION_ENTRY\<close>\<close>
  "transaction_entry s =
     (if hex_text 32 (take 32 s) \<and> drop 32 s = ''.json'' then Some (FinalName (take 32 s))
      else if take 1 s = ''.'' \<and> hex_text 32 (take 32 (drop 1 s)) \<and> take 6 (drop 33 s) = ''.json.''
        \<and> hex_text 32 (take 32 (drop 39 s)) \<and> drop 71 s = ''.tmp''
      then Some (TempName (take 32 (drop 1 s)))
      else None)"

definition final_path :: "string \<Rightarrow> string" where
  "final_path t = t @ ''.json''"

definition store_error :: exn where
  "store_error = ValueError ''runtime_transaction_store_invalid''"

fun scan_from :: "int \<Rightarrow> directory \<Rightarrow> (string \<times> entry_name) list res" where
  \<comment> \<open>the scan, with the number of entries seen; no two entries of a directory have the same name,
    so no final is seen twice\<close>
  "scan_from n [] = Inr []"
| "scan_from n ((name, e) # d) =
     (if n \<ge> MAX_RUNTIME_TRANSACTION_FILES then Inl (ValueError ''bounds'')
      else if \<not> plain e then Inl (ValueError ''entry'')
      else (case transaction_entry name of
              None \<Rightarrow> Inl (ValueError ''entry'')
            | Some m \<Rightarrow> rbind (scan_from (n + 1) d) (\<lambda>rows. Inr ((name, m) # rows))))"

definition final_of :: "(string \<times> entry_name) list \<Rightarrow> string \<Rightarrow> string option" where
  \<comment> \<open>\<open>finals.get(transaction_id)\<close>\<close>
  "final_of rows t = map_option fst (find (\<lambda>(n, m). m = FinalName t) rows)"

definition temps_of :: "(string \<times> entry_name) list \<Rightarrow> string \<Rightarrow> string list" where
  \<comment> \<open>\<open>temps.get(transaction_id, [])\<close>\<close>
  "temps_of rows t = map fst (filter (\<lambda>(n, m). m = TempName t) rows)"

fun entry_transaction :: "entry_name \<Rightarrow> string" where
  "entry_transaction (FinalName t) = t"
| "entry_transaction (TempName t) = t"

section \<open>Reading, replacing and removing files\<close>

definition read_journal :: "directory \<Rightarrow> string \<Rightarrow> string option \<Rightarrow> runtime_journal res" where
  \<comment> \<open>\<open>_read_runtime_transaction_journal\<close>\<close>
  "read_journal d name expected =
     (case map_of d name of
        None \<Rightarrow> Inl journal_error
      | Some e \<Rightarrow>
          if \<not> plain e \<or> int (length (content e)) > MAX_RUNTIME_TRANSACTION_BYTES then Inl journal_error
          else
            rbind (parse_runtime_transaction_journal_bytes (content e) expected) (\<lambda>j.
            if expected = None \<and> name \<noteq> final_path (transaction_id j) then Inl journal_error else Inr j))"

definition secure_replace :: "string \<Rightarrow> string \<Rightarrow> directory \<Rightarrow> directory" where
  "secure_replace source target d =
     (case map_of d source of None \<Rightarrow> d | Some e \<Rightarrow> dput target e (dpop source d))"

definition secure_unlink :: "string \<Rightarrow> directory \<Rightarrow> directory" where
  "secure_unlink name d = dpop name d"

section \<open>Selecting the furthest journal\<close>

definition valid_temps :: "directory \<Rightarrow> string \<Rightarrow> string list \<Rightarrow> (runtime_journal \<times> string) list" where
  \<comment> \<open>the temporaries that can be read; the others are skipped\<close>
  "valid_temps d t names =
     concat (map (\<lambda>n. case read_journal d n (Some t) of Inl e \<Rightarrow> [] | Inr j \<Rightarrow> [(j, n)]) names)"

definition select_step ::
    "runtime_journal \<times> string \<Rightarrow> runtime_journal option \<times> string option
      \<Rightarrow> (runtime_journal option \<times> string option) res" where
  "select_step = (\<lambda>(candidate, path) (selected, selected_temp).
     (case selected of
        None \<Rightarrow>
          if phase candidate \<noteq> PREPARED \<or> candidate_identity candidate \<noteq> None \<or> target_identity candidate \<noteq> None
          then Inl (ValueError ''initial'') else Inr (Some candidate, Some path)
      | Some s \<Rightarrow>
          if candidate = s \<or> is_monotonic_successor candidate s then Inr (selected, selected_temp)
          else if \<not> is_monotonic_successor s candidate then Inl (ValueError ''successor'')
          else Inr (Some candidate, Some path)))"

definition select_journal ::
    "runtime_journal option \<Rightarrow> (runtime_journal \<times> string) list
      \<Rightarrow> (runtime_journal option \<times> string option) res" where
  "select_journal final temps =
     rfold select_step (sort_key (\<lambda>(j, n). journal_progress_key j) temps) (final, None)"

section \<open>One transaction\<close>

definition promote :: "directory \<Rightarrow> string \<Rightarrow> string option \<Rightarrow> directory" where
  "promote d t selected_temp =
     (case selected_temp of None \<Rightarrow> d | Some n \<Rightarrow> secure_replace n (final_path t) d)"

definition remove_temps :: "(runtime_journal \<times> string) list \<Rightarrow> string option \<Rightarrow> directory \<Rightarrow> directory" where
  "remove_temps temps selected_temp d =
     fold secure_unlink (filter (\<lambda>n. Some n \<noteq> selected_temp) (map snd temps)) d"

definition recover_transaction ::
    "string option \<Rightarrow> string list \<Rightarrow> string \<Rightarrow> directory \<Rightarrow> directory \<times> runtime_journal option res" where
  \<comment> \<open>the directory afterwards, and the journal of the transaction, if there is one\<close>
  "recover_transaction final_name temp_names t d =
     (case (case final_name of None \<Rightarrow> Inr None
            | Some n \<Rightarrow> rbind (read_journal d n (Some t)) (\<lambda>j. Inr (Some j))) of
        Inl e \<Rightarrow> (d, Inl e)
      | Inr final \<Rightarrow>
          (let temps = valid_temps d t temp_names in
           case select_journal final temps of
             Inl e \<Rightarrow> (d, Inl e)
           | Inr (selected, selected_temp) \<Rightarrow>
               (let d1 = promote d t selected_temp in
                if selected_temp \<noteq> None \<and> map_option Inr selected \<noteq> Some (read_journal d1 (final_path t) None)
                then (d1, Inl (ValueError ''promotion''))
                else
                  (let d2 = remove_temps temps selected_temp d1 in
                   if selected = None \<and> temp_names = [] then (d2, Inl (ValueError ''missing''))
                   else (d2, Inr selected)))))"

section \<open>The directory of journals\<close>

fun recover_all ::
    "(string \<times> entry_name) list \<Rightarrow> string list \<Rightarrow> string list \<Rightarrow> directory
      \<Rightarrow> directory \<times> runtime_journal list res" where
  "recover_all rows protected [] d = (d, Inr [])"
| "recover_all rows protected (t # ts) d =
     (if t \<in> set protected then
        if temps_of rows t \<noteq> [] then (d, Inl (ValueError ''protected temp''))
        else recover_all rows protected ts d
      else
        (case recover_transaction (final_of rows t) (temps_of rows t) t d of
           (d1, Inl e) \<Rightarrow> (d1, Inl e)
         | (d1, Inr result) \<Rightarrow>
             (case recover_all rows protected ts d1 of
                (d2, Inl e) \<Rightarrow> (d2, Inl e)
              | (d2, Inr js) \<Rightarrow> (d2, Inr ((case result of None \<Rightarrow> [] | Some j \<Rightarrow> [j]) @ js)))))"

definition load_runtime_transaction_journals ::
    "string list \<Rightarrow> directory option \<Rightarrow> directory option \<times> runtime_journal list res" where
  \<comment> \<open>the transactions directory, if it exists, afterwards, and the journals; every error is
    raised again as one error\<close>
  "load_runtime_transaction_journals protected dir =
     (if \<not> list_all is_transaction_id protected then (dir, Inl store_error)
      else
        (case dir of
           None \<Rightarrow> (None, Inr [])
         | Some d \<Rightarrow>
             (case scan_from 0 d of
                Inl e \<Rightarrow> (Some d, Inl store_error)
              | Inr rows \<Rightarrow>
                  (case recover_all rows protected (sorted_set (map (entry_transaction \<circ> snd) rows)) d of
                     (d1, Inl e) \<Rightarrow> (Some d1, Inl store_error)
                   | (d1, Inr js) \<Rightarrow> (Some d1, Inr js)))))"

section \<open>Writing\<close>

text \<open>
  The writer can be stopped by an exception at every call of the operating system and at every
  call of its fault hook. The points of the source, in their order: before the temporary is
  created (\<open>OPEN\<close>: the directory or the file cannot be opened); between its creation and the
  reading of its identity (\<open>FSTAT\<close>); in a write that may have stored a part of the bytes (\<open>WRITE\<close>);
  in flushing it (\<open>FSYNC\<close>) and closing and reading it back (\<open>READ_BACK\<close>); in the validation of the directory
  and before the rename (\<open>REPLACE\<close>); after the rename, in the rest of \<open>secure_replace\<close> (\<open>REPLACED\<close>); in
  flushing the directory (\<open>PARENT_FLUSH\<close>); and the six calls of the hook. The cleanup after an error
  can fail too (\<open>CLEANUP\<close>), which the source only notes at the error.
\<close>

datatype fault_point =
  BEFORE_TEMP_WRITE | OPEN | FSTAT | WRITE | AFTER_TEMP_WRITE | FSYNC | AFTER_TEMP_FLUSH | READ_BACK | BEFORE_REPLACE
  | REPLACE | REPLACED | AFTER_REPLACE | PARENT_FLUSH | AFTER_PARENT_FLUSH | CLEANUP

type_synonym faults = "fault_point \<Rightarrow> exn option"

definition first_fault :: "faults \<Rightarrow> fault_point list \<Rightarrow> exn option" where
  \<comment> \<open>the exception of the first of the points that raises\<close>
  "first_fault fault points = (case List.map_filter fault points of [] \<Rightarrow> None | e # _ \<Rightarrow> Some e)"

definition temp_path :: "string \<Rightarrow> string \<Rightarrow> string" where
  "temp_path t nonce = ''.'' @ t @ ''.json.'' @ nonce @ ''.tmp''"

definition remove_pending :: "faults \<Rightarrow> string \<Rightarrow> directory \<Rightarrow> directory" where
  \<comment> \<open>the cleanup of the temporary whose identity is known\<close>
  "remove_pending fault pending d = (if fault CLEANUP = None then secure_unlink pending d else d)"

definition write_runtime_transaction_journal ::
    "string \<Rightarrow> runtime_journal \<Rightarrow> string \<Rightarrow> faults \<Rightarrow> nat \<Rightarrow> directory \<Rightarrow> directory \<times> unit res" where
  \<comment> \<open>writes to the file \<open>target\<close> of the directory \<open>.hsconfig/transactions\<close>; \<open>landed\<close> is the number of bytes
    that a write stores before it fails\<close>
  "write_runtime_transaction_journal target j nonce fault landed d =
     (if target \<noteq> final_path (transaction_id j) then (d, Inl journal_error)
      else
        (case runtime_transaction_journal_bytes j of
           Inl e \<Rightarrow> (d, Inl e)
         | Inr bytes \<Rightarrow>
             (case first_fault fault [BEFORE_TEMP_WRITE, OPEN] of
                Some e \<Rightarrow> (d, Inl e)
              | None \<Rightarrow>
                  (let pending = temp_path (transaction_id j) nonce;
                       holding = (\<lambda>b. dput pending \<lparr>plain = True, content = b\<rparr> d) in
                   if dhas d pending then (d, Inl FileExistsError)
                   else
                     (case fault FSTAT of
                        Some e \<Rightarrow> (holding [], Inl e)
                      | None \<Rightarrow>
                     (case fault WRITE of
                        Some e \<Rightarrow> (remove_pending fault pending (holding (take landed bytes)), Inl e)
                      | None \<Rightarrow>
                     (case first_fault fault [AFTER_TEMP_WRITE, FSYNC, AFTER_TEMP_FLUSH, READ_BACK, BEFORE_REPLACE, REPLACE] of
                        Some e \<Rightarrow> (remove_pending fault pending (holding bytes), Inl e)
                      | None \<Rightarrow>
                          (let d2 = secure_replace pending target (holding bytes) in
                           case first_fault fault [REPLACED, AFTER_REPLACE, PARENT_FLUSH, AFTER_PARENT_FLUSH] of
                             Some e \<Rightarrow> (d2, Inl e)
                           | None \<Rightarrow> (d2, Inr ())))))))))"

section \<open>Names and files\<close>

lemma hex_text_append: "hex_text n s \<Longrightarrow> take n (s @ r) = s \<and> drop n (s @ r) = r"
  by (simp add: hex_text_def)

lemma transaction_entry_final: "transaction_entry n = Some (FinalName t) \<longleftrightarrow> hex_text 32 t \<and> n = final_path t"
proof
  assume "transaction_entry n = Some (FinalName t)"
  then have "hex_text 32 t" "t = take 32 n" "drop 32 n = ''.json''"
    by (auto simp: transaction_entry_def split: if_splits)
  then show "hex_text 32 t \<and> n = final_path t" by (metis append_take_drop_id final_path_def)
next
  assume hex: "hex_text 32 t \<and> n = final_path t"
  then have "take 32 n = t" "drop 32 n = ''.json''" by (simp_all only: final_path_def hex_text_append)
  with hex show "transaction_entry n = Some (FinalName t)" by (simp only: transaction_entry_def simp_thms if_True)
qed

lemma transaction_entry_hex: "transaction_entry n = Some m \<Longrightarrow> hex_text 32 (entry_transaction m)"
  by (auto simp: transaction_entry_def split: if_splits)

lemma final_path_inj [simp]: "final_path t = final_path u \<longleftrightarrow> t = u"
  by (simp add: final_path_def)

lemma scan_from_Inr:
  "0 \<le> n \<Longrightarrow> n \<le> MAX_RUNTIME_TRANSACTION_FILES \<Longrightarrow>
   scan_from n d = Inr rows \<longleftrightarrow>
     n + int (length d) \<le> MAX_RUNTIME_TRANSACTION_FILES
     \<and> (\<forall>(name, e)\<in>set d. plain e \<and> transaction_entry name \<noteq> None)
     \<and> rows = map (\<lambda>(name, e). (name, the (transaction_entry name))) d"
proof (induction n d arbitrary: rows rule: scan_from.induct)
  case (2 n name e d)
  show ?case
  proof (cases "n < MAX_RUNTIME_TRANSACTION_FILES \<and> plain e \<and> transaction_entry name \<noteq> None")
    case True
    with 2 show ?thesis by auto
  next
    case False
    then show ?thesis by (auto split: option.splits)
  qed
qed auto

lemma final_of_iff:
  assumes "rows = map (\<lambda>(name, e). (name, the (transaction_entry name))) d"
    and "\<forall>(name, e)\<in>set d. transaction_entry name \<noteq> None" and "hex_text 32 t"
  shows "final_of rows t = (if map_of d (final_path t) = None then None else Some (final_path t))"
proof (cases "final_of rows t")
  case None
  then have "final_path t \<notin> fst ` set d"
    using assms transaction_entry_final [of "final_path t" t]
    by (force simp: final_of_def find_None_iff)
  with None show ?thesis by (simp add: map_of_eq_None_iff)
next
  case (Some n)
  then obtain m where "(n, m) \<in> set rows" "m = FinalName t"
    by (auto simp: final_of_def find_Some_iff) (metis nth_mem)
  with assms obtain e where "(n, e) \<in> set d" "transaction_entry n = Some (FinalName t)" by auto
  then have "n = final_path t" "n \<in> fst ` set d" by (auto simp: transaction_entry_final intro: rev_image_eqI)
  with Some show ?thesis by (simp add: map_of_eq_None_iff)
qed

lemma temps_of_iff:
  assumes "rows = map (\<lambda>(name, e). (name, the (transaction_entry name))) d"
    and "\<forall>(name, e)\<in>set d. transaction_entry name \<noteq> None"
  shows "n \<in> set (temps_of rows t) \<longleftrightarrow> map_of d n \<noteq> None \<and> transaction_entry n = Some (TempName t)"
proof
  assume "n \<in> set (temps_of rows t)"
  then obtain e where "(n, e) \<in> set d" "the (transaction_entry n) = TempName t"
    using assms(1) by (auto simp: temps_of_def)
  with assms(2) show "map_of d n \<noteq> None \<and> transaction_entry n = Some (TempName t)"
    by (force simp: map_of_eq_None_iff)
next
  assume n: "map_of d n \<noteq> None \<and> transaction_entry n = Some (TempName t)"
  then obtain e where "(n, e) \<in> set d" by (auto dest: map_of_SomeD)
  with n assms(1) show "n \<in> set (temps_of rows t)" by (force simp: temps_of_def)
qed

lemma map_of_replace: "map_of (secure_replace n f d) =
    (case map_of d n of None \<Rightarrow> map_of d | Some e \<Rightarrow> (map_of d)(n := None, f \<mapsto> e))"
  by (simp add: secure_replace_def split: option.split)

lemma map_of_promote: "map_of (promote d t sel) =
    (case sel of None \<Rightarrow> map_of d | Some n \<Rightarrow>
       (case map_of d n of None \<Rightarrow> map_of d | Some e \<Rightarrow> (map_of d)(n := None, final_path t \<mapsto> e)))"
  by (simp add: promote_def map_of_replace split: option.split)

lemma map_of_unlinks: "map_of (fold secure_unlink ns d) n = (if n \<in> set ns then None else map_of d n)"
  by (induction ns arbitrary: d) (auto simp: secure_unlink_def)

lemma map_of_remove_temps: "map_of (remove_temps temps sel d) n =
    (if n \<in> snd ` set temps \<and> Some n \<noteq> sel then None else map_of d n)"
  by (auto simp: remove_temps_def map_of_unlinks)

lemma read_journal_cong: "map_of d n = map_of d' n \<Longrightarrow> read_journal d n = read_journal d' n"
  by (simp add: read_journal_def fun_eq_iff)

lemma valid_temps_cong: "\<forall>n\<in>set ns. map_of d n = map_of d' n \<Longrightarrow> valid_temps d t ns = valid_temps d' t ns"
  unfolding valid_temps_def using read_journal_cong [of d _ d'] by (intro arg_cong [of _ _ concat] map_cong) auto

lemma valid_temps_set: "(j, n) \<in> set (valid_temps d t ns) \<longleftrightarrow> n \<in> set ns \<and> read_journal d n (Some t) = Inr j"
  by (auto simp: valid_temps_def split: sum.splits)

section \<open>What is selected\<close>

lemma select_step_Inr:
  assumes "select_step (c, n) (sel, tmp) = Inr (sel', tmp')"
  shows "\<exists>s. sel' = Some s \<and> is_monotonic_successor\<^sup>*\<^sup>* c s"
    and "\<And>s0. sel = Some s0 \<Longrightarrow> \<exists>s. sel' = Some s \<and> is_monotonic_successor\<^sup>*\<^sup>* s0 s"
    and "(sel', tmp') = (sel, tmp) \<or> (sel', tmp') = (Some c, Some n)"
  using assms by (auto simp: select_step_def split: option.splits if_splits)

lemma select_fold:
  assumes "rfold select_step cs (sel, tmp) = Inr (sel', tmp')"
  shows "(\<forall>s0. sel = Some s0 \<longrightarrow> (\<exists>s. sel' = Some s \<and> is_monotonic_successor\<^sup>*\<^sup>* s0 s))
    \<and> (\<forall>(c, n)\<in>set cs. \<exists>s. sel' = Some s \<and> is_monotonic_successor\<^sup>*\<^sup>* c s)
    \<and> ((sel', tmp') = (sel, tmp) \<or> (\<exists>(c, n)\<in>set cs. (sel', tmp') = (Some c, Some n)))"
  using assms
proof (induction cs arbitrary: sel tmp)
  case (Cons cn cs)
  obtain c n where cn: "cn = (c, n)" by force
  from Cons.prems obtain sel1 tmp1 where step: "select_step (c, n) (sel, tmp) = Inr (sel1, tmp1)"
    and rest: "rfold select_step cs (sel1, tmp1) = Inr (sel', tmp')"
    by (auto simp: cn)
  note ih = Cons.IH [OF rest]
  have reach: "\<exists>s. sel' = Some s \<and> is_monotonic_successor\<^sup>*\<^sup>* x s"
    if "\<exists>s. sel1 = Some s \<and> is_monotonic_successor\<^sup>*\<^sup>* x s" for x
  proof -
    from that obtain s1 where s1: "sel1 = Some s1" "is_monotonic_successor\<^sup>*\<^sup>* x s1" by blast
    with ih obtain s where "sel' = Some s" "is_monotonic_successor\<^sup>*\<^sup>* s1 s" by blast
    with s1 show ?thesis by (blast intro: rtranclp_trans)
  qed
  have "\<exists>s. sel' = Some s \<and> is_monotonic_successor\<^sup>*\<^sup>* c s" by (rule reach [OF select_step_Inr(1) [OF step]])
  moreover have "\<forall>s0. sel = Some s0 \<longrightarrow> (\<exists>s. sel' = Some s \<and> is_monotonic_successor\<^sup>*\<^sup>* s0 s)"
    using reach select_step_Inr(2) [OF step] by blast
  moreover have "(sel', tmp') = (sel, tmp) \<or> (\<exists>(c, n)\<in>set (cn # cs). (sel', tmp') = (Some c, Some n))"
    using select_step_Inr(3) [OF step] ih by (auto simp: cn)
  ultimately show ?case using ih by (simp add: cn)
qed simp

lemma select_journal_Inr:
  assumes "select_journal final cs = Inr (sel, tmp)"
  shows "\<And>f. final = Some f \<Longrightarrow> \<exists>s. sel = Some s \<and> is_monotonic_successor\<^sup>*\<^sup>* f s"
    and "\<And>c n. (c, n) \<in> set cs \<Longrightarrow> \<exists>s. sel = Some s \<and> is_monotonic_successor\<^sup>*\<^sup>* c s"
    and "(sel, tmp) = (final, None) \<or> (\<exists>c n. (c, n) \<in> set cs \<and> sel = Some c \<and> tmp = Some n)"
  using select_fold [OF assms [unfolded select_journal_def]] by auto

lemma select_journal_Nil [simp]: "select_journal final [] = Inr (final, None)"
  by (simp add: select_journal_def)

section \<open>What happens to one transaction\<close>

definition settled :: "directory \<Rightarrow> string \<Rightarrow> string option \<Rightarrow> string list \<Rightarrow> runtime_journal option \<Rightarrow> bool" where
  \<comment> \<open>the files of a transaction after its recovery with the given result\<close>
  "settled d t final_name temp_names result =
     (valid_temps d t temp_names = []
      \<and> (case result of
           None \<Rightarrow> final_name = None \<and> temp_names \<noteq> []
         | Some j \<Rightarrow> final_name = Some (final_path t) \<and> read_journal d (final_path t) (Some t) = Inr j))"

lemma settled_fixed:
  "settled d t final_name temp_names result \<Longrightarrow>
     recover_transaction final_name temp_names t d = (d, Inr result)"
  by (auto simp: settled_def recover_transaction_def promote_def remove_temps_def split: option.splits)

lemma recover_transaction_Inr:
  assumes "recover_transaction final_name temp_names t d = (d', Inr result)"
  obtains final tmp where
    "(case final_name of None \<Rightarrow> Inr None | Some n \<Rightarrow> rbind (read_journal d n (Some t)) (\<lambda>j. Inr (Some j)))
       = (Inr final :: runtime_journal option res)"
    and "select_journal final (valid_temps d t temp_names) = Inr (result, tmp)"
    and "tmp \<noteq> None \<Longrightarrow> \<exists>j. result = Some j \<and> read_journal (promote d t tmp) (final_path t) None = Inr j"
    and "d' = remove_temps (valid_temps d t temp_names) tmp (promote d t tmp)"
    and "result = None \<Longrightarrow> temp_names \<noteq> []"
  using assms
  by (auto simp: recover_transaction_def Let_def split: sum.splits if_splits prod.splits)

lemma read_journal_id: "read_journal d n (Some t) = Inr j \<Longrightarrow> transaction_id j = t"
  by (auto simp: read_journal_def parse_steps_Inr split: option.splits if_splits)

lemma read_final_None:
  "read_journal d (final_path t) (Some t) = Inr j \<longleftrightarrow> read_journal d (final_path t) None = Inr j"
  by (auto simp: read_journal_def parse_steps_Inr split: option.splits)

lemma read_journal_map_of: "read_journal d n e = Inr j \<Longrightarrow> map_of d n \<noteq> None"
  by (auto simp: read_journal_def split: option.splits)

definition dir_ok :: "directory \<Rightarrow> bool" where
  \<comment> \<open>a directory that can be scanned\<close>
  "dir_ok d = (wf_dict d \<and> int (length d) \<le> MAX_RUNTIME_TRANSACTION_FILES
     \<and> (\<forall>(n, e)\<in>set d. plain e \<and> transaction_entry n \<noteq> None))"

lemma length_dpop: "length (dpop k d) \<le> length d" "k \<in> fst ` set d \<Longrightarrow> length (dpop k d) < length d"
proof -
  show "length (dpop k d) \<le> length d" by (simp add: dpop_def)
  assume "k \<in> fst ` set d"
  then obtain kv where "kv \<in> set d" "\<not> (\<lambda>(k', v). k' \<noteq> k) kv" by force
  then show "length (dpop k d) < length d" unfolding dpop_def by (rule length_filter_less)
qed

lemma length_dput: "length (dput k v d) \<le> Suc (length d)"
  by (induction k v d rule: dput.induct) auto

lemma set_dput: "set (dput k v d) \<subseteq> insert (k, v) (set d)"
  by (induction k v d rule: dput.induct) auto

lemma dir_ok_unlink: "dir_ok d \<Longrightarrow> dir_ok (secure_unlink n d)"
  using length_dpop(1) [of n d] by (auto simp: dir_ok_def secure_unlink_def) (auto simp: dpop_def)

lemma dir_ok_replace: "dir_ok d \<Longrightarrow> hex_text 32 t \<Longrightarrow> dir_ok (secure_replace n (final_path t) d)"
proof (cases "map_of d n")
  case (Some e)
  assume ok: "dir_ok d" and hex: "hex_text 32 t"
  from Some have e: "(n, e) \<in> set d" by (rule map_of_SomeD)
  then have "length (dpop n d) < length d" by (intro length_dpop(2)) force
  then have "length (dput (final_path t) e (dpop n d)) \<le> length d"
    using length_dput [of "final_path t" e "dpop n d"] by simp
  moreover have "\<forall>(k, v)\<in>set (dput (final_path t) e (dpop n d)). plain v \<and> transaction_entry k \<noteq> None"
    using set_dput [of "final_path t" e "dpop n d"] e ok hex transaction_entry_final [of "final_path t" t]
    by (fastforce simp: dir_ok_def dpop_def)
  ultimately show ?thesis using ok Some by (auto simp: dir_ok_def secure_replace_def)
qed (simp add: secure_replace_def)

lemma dir_ok_remove_temps: "dir_ok d \<Longrightarrow> dir_ok (remove_temps temps sel d)"
  unfolding remove_temps_def
  by (induction "filter (\<lambda>n. Some n \<noteq> sel) (map snd temps)" arbitrary: d temps)
     (auto simp: dir_ok_unlink intro!: fold_invariant [where P = dir_ok and Q = "\<lambda>_. True"])

lemma dir_ok_recover:
  assumes "dir_ok d" and "hex_text 32 t"
  shows "dir_ok (fst (recover_transaction final_name temp_names t d))"
  using assms
  by (auto simp: recover_transaction_def Let_def promote_def dir_ok_replace dir_ok_remove_temps
      split: sum.splits option.splits)

section \<open>The outcome of a transaction\<close>

definition outcome :: "directory \<Rightarrow> directory \<Rightarrow> string \<Rightarrow> runtime_journal option \<Rightarrow> bool" where
  "outcome d d' t result =
     ((\<forall>n. transaction_entry n = Some (TempName t) \<longrightarrow>
         map_of d' n = (if \<exists>c. read_journal d n (Some t) = Inr c then None else map_of d n))
      \<and> (case result of
           None \<Rightarrow> map_of d' (final_path t) = None
             \<and> (\<exists>n. transaction_entry n = Some (TempName t) \<and> map_of d' n \<noteq> None)
         | Some j \<Rightarrow> read_journal d' (final_path t) None = Inr j)
      \<and> (\<forall>n c. transaction_entry n \<in> {Some (FinalName t), Some (TempName t)} \<and> read_journal d n (Some t) = Inr c
           \<longrightarrow> (\<exists>j. result = Some j \<and> is_monotonic_successor\<^sup>*\<^sup>* c j)))"

definition grouped :: "directory \<Rightarrow> string \<Rightarrow> string option \<Rightarrow> string list \<Rightarrow> bool" where
  "grouped d t final_name temp_names =
     (hex_text 32 t \<and> final_name = (if map_of d (final_path t) = None then None else Some (final_path t))
      \<and> (\<forall>n. n \<in> set temp_names \<longleftrightarrow> map_of d n \<noteq> None \<and> transaction_entry n = Some (TempName t)))"

lemma recover_transaction_frame:
  assumes "recover_transaction final_name temp_names t d = (d', Inr result)" and "grouped d t final_name temp_names"
    and "transaction_entry n \<notin> {Some (FinalName t), Some (TempName t)}"
  shows "map_of d' n = map_of d n"
proof -
  obtain final tmp d1 where sel: "select_journal final (valid_temps d t temp_names) = Inr (result, tmp)"
    and d': "d' = remove_temps (valid_temps d t temp_names) tmp (promote d t tmp)"
    by (rule recover_transaction_Inr [OF assms(1)])
  have temps: "n \<notin> set temp_names" "n \<noteq> final_path t"
    using assms(2,3) transaction_entry_final by (auto simp: grouped_def)
  have "tmp \<noteq> Some n"
    using select_journal_Inr(3) [OF sel] temps(1) by (auto simp: valid_temps_set)
  moreover have "n \<notin> snd ` set (valid_temps d t temp_names)" using temps(1) by (auto simp: valid_temps_set)
  ultimately show ?thesis
    using temps(2) by (auto simp: d' map_of_remove_temps map_of_promote split: option.splits)
qed

lemma recover_transaction_outcome:
  assumes rec: "recover_transaction final_name temp_names t d = (d', Inr result)"
    and grouped: "grouped d t final_name temp_names"
  shows "outcome d d' t result"
proof -
  let ?temps = "valid_temps d t temp_names"
  obtain final tmp where
    fin: "(case final_name of None \<Rightarrow> Inr None | Some n \<Rightarrow> rbind (read_journal d n (Some t)) (\<lambda>j. Inr (Some j)))
       = (Inr final :: runtime_journal option res)"
    and sel: "select_journal final ?temps = Inr (result, tmp)"
    and prom: "tmp \<noteq> None \<Longrightarrow> \<exists>j. result = Some j \<and> read_journal (promote d t tmp) (final_path t) None = Inr j"
    and d': "d' = remove_temps ?temps tmp (promote d t tmp)" and missing: "result = None \<Longrightarrow> temp_names \<noteq> []"
    by (rule recover_transaction_Inr [OF rec]) blast
  have temp: "n \<in> set temp_names \<longleftrightarrow> map_of d n \<noteq> None \<and> transaction_entry n = Some (TempName t)" for n
    using grouped by (simp add: grouped_def)
  have ft: "transaction_entry (final_path t) = Some (FinalName t)" "final_path t \<notin> set temp_names"
    using grouped temp transaction_entry_final [of "final_path t" t] by (auto simp: grouped_def)
  have names: "(\<exists>c. (c, n) \<in> set ?temps) \<longleftrightarrow>
      transaction_entry n = Some (TempName t) \<and> (\<exists>c. read_journal d n (Some t) = Inr c)" for n
    using temp read_journal_map_of [of d n] by (fastforce simp: valid_temps_set)
  have tmp: "\<exists>c. (c, n) \<in> set ?temps" if "tmp = Some n" for n
    using select_journal_Inr(3) [OF sel] that by auto
  have gone: "map_of d' n = (if \<exists>c. read_journal d n (Some t) = Inr c then None else map_of d n)"
    if n: "transaction_entry n = Some (TempName t)" for n
  proof -
    have nf: "n \<noteq> final_path t" using n ft(1) by auto
    have "map_of (promote d t tmp) n = (if tmp = Some n then None else map_of d n)"
      using nf by (auto simp: map_of_promote split: option.splits)
    then show ?thesis
      using names [of n] tmp [of n] n by (auto simp: d' map_of_remove_temps image_iff)
  qed
  have keep: "read_journal d' (final_path t) e = read_journal (promote d t tmp) (final_path t) e" for e
    using ft(2) by (intro fun_cong [OF read_journal_cong]) (auto simp: d' map_of_remove_temps valid_temps_set)
  have reach: "\<exists>j. result = Some j \<and> is_monotonic_successor\<^sup>*\<^sup>* c j"
    if entry: "transaction_entry n \<in> {Some (FinalName t), Some (TempName t)}" and c: "read_journal d n (Some t) = Inr c" for n c
  proof -
    consider "n = final_path t" | "n \<in> set temp_names"
      using entry transaction_entry_final [of n t] read_journal_map_of [OF c] temp [of n] by auto
    then show ?thesis
    proof cases
      case 1
      then have "final = Some c"
        using fin c grouped read_journal_map_of [OF c] by (auto simp: grouped_def)
      then show ?thesis by (rule select_journal_Inr(1) [OF sel])
    next
      case 2
      then show ?thesis using select_journal_Inr(2) [OF sel, of c n] c by (simp add: valid_temps_set)
    qed
  qed
  have result: "case result of
      None \<Rightarrow> map_of d' (final_path t) = None \<and> (\<exists>n. transaction_entry n = Some (TempName t) \<and> map_of d' n \<noteq> None)
    | Some j \<Rightarrow> read_journal d' (final_path t) None = Inr j"
  proof (cases result)
    case None
    with select_journal_Inr(1) [OF sel] have "final = None" by (cases final) auto
    with fin grouped have "map_of d (final_path t) = None"
      by (auto simp: grouped_def split: if_splits)
    moreover from None select_journal_Inr(2) [OF sel] have "?temps = []"
      by (cases ?temps) (auto simp del: select_journal_Nil)
    moreover from this tmp have "tmp = None" by (cases tmp) auto
    ultimately have "d' = d" "map_of d (final_path t) = None" by (simp_all add: d' remove_temps_def promote_def)
    moreover obtain n where "n \<in> set temp_names" using None missing by (cases temp_names) auto
    ultimately show ?thesis using None temp by auto
  next
    case (Some j)
    show ?thesis
    proof (cases tmp)
      case None
      with select_journal_Inr(3) [OF sel] Some have "final = Some j" by auto
      with fin grouped have "read_journal d (final_path t) (Some t) = Inr j"
        by (auto simp: grouped_def split: if_splits)
      then show ?thesis using Some None keep by (simp add: read_final_None promote_def)
    next
      case (Some n)
      with prom \<open>result = Some j\<close> keep show ?thesis by simp
    qed
  qed
  show ?thesis unfolding outcome_def using gone result reach by blast
qed

section \<open>The whole directory\<close>

lemma outcome_cong:
  assumes "outcome d d' t result"
    and "\<And>n. transaction_entry n \<in> {Some (FinalName t), Some (TempName t)} \<Longrightarrow> map_of d n = map_of e n"
    and "\<And>n. transaction_entry n \<in> {Some (FinalName t), Some (TempName t)} \<Longrightarrow> map_of d' n = map_of e' n"
    and "hex_text 32 t"
  shows "outcome e e' t result"
proof -
  have f: "transaction_entry (final_path t) = Some (FinalName t)"
    using assms(4) transaction_entry_final by blast
  have r: "read_journal d n = read_journal e n"
    if "transaction_entry n \<in> {Some (FinalName t), Some (TempName t)}" for n
    using assms(2) [OF that] by (rule read_journal_cong)
  have "read_journal d' (final_path t) = read_journal e' (final_path t)" "map_of d' (final_path t) = map_of e' (final_path t)"
    using assms(3) [of "final_path t"] f by (auto intro: read_journal_cong)
  then have result: "case result of
      None \<Rightarrow> map_of e' (final_path t) = None \<and> (\<exists>n. transaction_entry n = Some (TempName t) \<and> map_of e' n \<noteq> None)
    | Some j \<Rightarrow> read_journal e' (final_path t) None = Inr j"
    using assms(1,3) unfolding outcome_def by (cases result) auto
  have "map_of e' n = (if \<exists>c. read_journal e n (Some t) = Inr c then None else map_of e n)"
    if n: "transaction_entry n = Some (TempName t)" for n
    using assms(1,2,3) r [of n] n unfolding outcome_def by auto
  moreover have "\<exists>j. result = Some j \<and> is_monotonic_successor\<^sup>*\<^sup>* c j"
    if n: "transaction_entry n \<in> {Some (FinalName t), Some (TempName t)}" "read_journal e n (Some t) = Inr c" for n c
    using assms(1) n r [OF n(1)] unfolding outcome_def by metis
  ultimately show ?thesis using result unfolding outcome_def by blast
qed

lemma grouped_cong:
  assumes "grouped d t final_name temp_names"
    and "\<And>n. transaction_entry n \<in> {Some (FinalName t), Some (TempName t)} \<Longrightarrow> map_of d n = map_of e n"
  shows "grouped e t final_name temp_names"
  using assms transaction_entry_final [of "final_path t" t] by (auto simp: grouped_def)

definition journals_of :: "string list \<Rightarrow> string list \<Rightarrow> (string \<Rightarrow> runtime_journal option) \<Rightarrow> runtime_journal list" where
  "journals_of protected ts f =
     concat (map (\<lambda>t. case f t of None \<Rightarrow> [] | Some j \<Rightarrow> [j]) (filter (\<lambda>t. t \<notin> set protected) ts))"

lemma journals_of_Cons:
  "t \<notin> set protected \<Longrightarrow>
     journals_of protected (t # ts) f = (case f t of None \<Rightarrow> [] | Some j \<Rightarrow> [j]) @ journals_of protected ts f"
  by (simp add: journals_of_def)

lemma journals_of_cong: "t \<notin> set ts \<Longrightarrow> journals_of protected ts (f(t := r)) = journals_of protected ts f"
  unfolding journals_of_def by (intro arg_cong [of _ _ concat] map_cong) auto

lemma recover_all_outcome:
  assumes "recover_all rows protected ts d = (d', Inr js)" and "distinct ts" and "dir_ok d"
    and "\<forall>t\<in>set ts. grouped d t (final_of rows t) (temps_of rows t)"
  shows "\<exists>f. js = journals_of protected ts f \<and> dir_ok d'
    \<and> (\<forall>t\<in>set ts. if t \<in> set protected then temps_of rows t = [] else outcome d d' t (f t))
    \<and> (\<forall>n. (\<forall>t\<in>set ts. t \<in> set protected \<or> transaction_entry n \<notin> {Some (FinalName t), Some (TempName t)})
         \<longrightarrow> map_of d' n = map_of d n)"
  using assms
proof (induction ts arbitrary: d js)
  case Nil
  then show ?case by (auto simp: journals_of_def)
next
  case (Cons t ts)
  show ?case
  proof (cases "t \<in> set protected")
    case True
    with Cons.prems(1) have tn: "temps_of rows t = []" and rest: "recover_all rows protected ts d = (d', Inr js)"
      by (auto split: if_splits)
    from Cons.IH [OF rest] Cons.prems obtain f where "js = journals_of protected ts f" "dir_ok d'"
      "\<forall>t\<in>set ts. if t \<in> set protected then temps_of rows t = [] else outcome d d' t (f t)"
      "\<forall>n. (\<forall>t\<in>set ts. t \<in> set protected \<or> transaction_entry n \<notin> {Some (FinalName t), Some (TempName t)})
         \<longrightarrow> map_of d' n = map_of d n"
      by auto
    with True tn show ?thesis by (intro exI [of _ f]) (simp add: journals_of_def)
  next
    case False
    with Cons.prems(1) obtain d1 r js1 where
      rec: "recover_transaction (final_of rows t) (temps_of rows t) t d = (d1, Inr r)"
      and rest: "recover_all rows protected ts d1 = (d', Inr js1)"
      and js: "js = (case r of None \<Rightarrow> [] | Some j \<Rightarrow> [j]) @ js1"
      by (auto split: prod.splits sum.splits)
    have grp: "grouped d t (final_of rows t) (temps_of rows t)" using Cons.prems(4) by simp
    then have hex: "hex_text 32 t" by (simp add: grouped_def)
    note out = recover_transaction_outcome [OF rec grp] and frame = recover_transaction_frame [OF rec grp]
    have other: "map_of d1 n = map_of d n"
      if "transaction_entry n \<in> {Some (FinalName u), Some (TempName u)}" "u \<in> set ts" for n u
    proof (rule frame)
      have "u \<noteq> t" using that(2) Cons.prems(2) by auto
      with that(1) show "transaction_entry n \<notin> {Some (FinalName t), Some (TempName t)}" by auto
    qed
    have "dir_ok d1" using dir_ok_recover [OF Cons.prems(3) hex, of "final_of rows t" "temps_of rows t"] rec by simp
    moreover have "\<forall>u\<in>set ts. grouped d1 u (final_of rows u) (temps_of rows u)"
      using Cons.prems(4) other by (auto intro: grouped_cong)
    ultimately obtain f where f: "js1 = journals_of protected ts f" "dir_ok d'"
      "\<forall>u\<in>set ts. if u \<in> set protected then temps_of rows u = [] else outcome d1 d' u (f u)"
      "\<forall>n. (\<forall>u\<in>set ts. u \<in> set protected \<or> transaction_entry n \<notin> {Some (FinalName u), Some (TempName u)})
         \<longrightarrow> map_of d' n = map_of d1 n"
      using Cons.IH [OF rest] Cons.prems(2) by auto
    have later: "map_of d1 n = map_of d' n"
      if n: "transaction_entry n \<in> {Some (FinalName t), Some (TempName t)}" for n
    proof -
      have "transaction_entry n \<notin> {Some (FinalName u), Some (TempName u)}" if "u \<in> set ts" for u
        using n that Cons.prems(2) by (cases "u = t") auto
      then have "map_of d' n = map_of d1 n" using f(4) by blast
      then show ?thesis by (rule sym)
    qed
    have "outcome d d' t r" by (rule outcome_cong [OF out refl later hex])
    moreover have "outcome d d' u (f u)" if u: "u \<in> set ts" "u \<notin> set protected" for u
    proof -
      have o: "outcome d1 d' u (f u)" using f(3) u by auto
      have hexu: "hex_text 32 u" using Cons.prems(4) u(1) by (auto simp: grouped_def)
      show ?thesis by (rule outcome_cong [OF o other [OF _ u(1)] refl hexu])
    qed
    moreover have "t \<notin> set ts" using Cons.prems(2) by simp
    moreover have "js = journals_of protected (t # ts) (f(t := r))"
      using js f(1) False journals_of_cong [OF \<open>t \<notin> set ts\<close>, of protected f r] by (simp add: journals_of_Cons)
    moreover have "map_of d' n = map_of d n"
      if n: "\<forall>u\<in>set (t # ts). u \<in> set protected \<or> transaction_entry n \<notin> {Some (FinalName u), Some (TempName u)}" for n
    proof -
      have "map_of d' n = map_of d1 n" using n f(4) by (meson list.set_intros(2))
      also have "\<dots> = map_of d n" using n False by (intro frame) auto
      finally show ?thesis .
    qed
    moreover have "\<forall>u\<in>set (t # ts). if u \<in> set protected then temps_of rows u = [] else outcome d d' u ((f(t := r)) u)"
      using calculation(1-3) f(3) False by (simp add: fun_upd_def)
    ultimately show ?thesis using f(2) by blast
  qed
qed

definition transactions :: "directory \<Rightarrow> string list" where
  \<comment> \<open>the identifiers of the transactions that have a file\<close>
  "transactions d = sorted_set (map (\<lambda>(n, e). entry_transaction (the (transaction_entry n))) d)"

lemma transactions_iff:
  assumes "dir_ok d"
  shows "t \<in> set (transactions d) \<longleftrightarrow>
    (\<exists>n. map_of d n \<noteq> None \<and> transaction_entry n \<in> {Some (FinalName t), Some (TempName t)})"
proof
  assume "t \<in> set (transactions d)"
  then obtain n e where n: "(n, e) \<in> set d" "t = entry_transaction (the (transaction_entry n))"
    by (auto simp: transactions_def)
  moreover from n(1) assms obtain m where "transaction_entry n = Some m" by (auto simp: dir_ok_def)
  moreover have "map_of d n \<noteq> None" using n(1) by (auto simp: map_of_eq_None_iff intro: rev_image_eqI)
  ultimately show "\<exists>n. map_of d n \<noteq> None \<and> transaction_entry n \<in> {Some (FinalName t), Some (TempName t)}"
    by (intro exI [of _ n]) (cases m; simp)
next
  assume "\<exists>n. map_of d n \<noteq> None \<and> transaction_entry n \<in> {Some (FinalName t), Some (TempName t)}"
  then obtain n e where "(n, e) \<in> set d" "entry_transaction (the (transaction_entry n)) = t"
    by (fastforce dest: map_of_SomeD)
  then show "t \<in> set (transactions d)" by (force simp: transactions_def)
qed

lemma dir_ok_grouped:
  assumes "dir_ok d" and "scan_from 0 d = Inr rows" and "hex_text 32 t"
  shows "grouped d t (final_of rows t) (temps_of rows t)"
proof -
  have rows: "rows = map (\<lambda>(name, e). (name, the (transaction_entry name))) d"
    using assms(2) by (simp add: scan_from_Inr MAX_RUNTIME_TRANSACTION_FILES_def)
  moreover have entries: "\<forall>(name, e)\<in>set d. transaction_entry name \<noteq> None" using assms(1) by (auto simp: dir_ok_def)
  ultimately show ?thesis
    using assms(3) final_of_iff [OF rows entries] temps_of_iff [OF rows entries] by (simp add: grouped_def)
qed

lemma transactions_hex: "dir_ok d \<Longrightarrow> t \<in> set (transactions d) \<Longrightarrow> hex_text 32 t"
  using transaction_entry_hex by (force simp: transactions_iff)

lemma scan_dir_ok:
  assumes "dir_ok d"
  obtains rows where "scan_from 0 d = Inr rows"
    and "sorted_set (map (entry_transaction \<circ> snd) rows) = transactions d"
proof -
  have "scan_from 0 d = Inr (map (\<lambda>(name, e). (name, the (transaction_entry name))) d)"
    using assms by (simp add: scan_from_Inr MAX_RUNTIME_TRANSACTION_FILES_def dir_ok_def)
  moreover have "sorted_set (map (entry_transaction \<circ> snd) (map (\<lambda>(name, e). (name, the (transaction_entry name))) d))
      = transactions d"
    by (simp add: transactions_def comp_def case_prod_unfold)
  ultimately show thesis by (rule that)
qed

lemma load_Inr:
  assumes "load_runtime_transaction_journals protected (Some d) = (Some d', Inr js)" and "wf_dict d"
  obtains rows f where "dir_ok d" and "scan_from 0 d = Inr rows" and "list_all is_transaction_id protected"
    and "js = journals_of protected (transactions d) f" and "dir_ok d'"
    and "\<And>t. t \<in> set (transactions d) \<Longrightarrow> t \<notin> set protected \<Longrightarrow> outcome d d' t (f t)"
    and "\<And>t. t \<in> set (transactions d) \<Longrightarrow> t \<in> set protected \<Longrightarrow> temps_of rows t = []"
    and "\<And>n. (\<forall>t\<in>set (transactions d). t \<in> set protected
        \<or> transaction_entry n \<notin> {Some (FinalName t), Some (TempName t)}) \<Longrightarrow> map_of d' n = map_of d n"
proof -
  from assms(1) obtain rows where prot: "list_all is_transaction_id protected" and scan: "scan_from 0 d = Inr rows"
    and rec: "recover_all rows protected (sorted_set (map (entry_transaction \<circ> snd) rows)) d = (d', Inr js)"
    by (auto simp: load_runtime_transaction_journals_def split: if_splits sum.splits prod.splits)
  have ok: "dir_ok d"
    using scan assms(2) by (simp add: scan_from_Inr MAX_RUNTIME_TRANSACTION_FILES_def dir_ok_def)
  then have ts: "sorted_set (map (entry_transaction \<circ> snd) rows) = transactions d"
    using scan by (auto elim: scan_dir_ok)
  have "\<forall>t\<in>set (transactions d). grouped d t (final_of rows t) (temps_of rows t)"
    using dir_ok_grouped [OF ok scan] transactions_hex [OF ok] by blast
  then obtain f where "js = journals_of protected (transactions d) f" "dir_ok d'"
    "\<forall>t\<in>set (transactions d). if t \<in> set protected then temps_of rows t = [] else outcome d d' t (f t)"
    "\<forall>n. (\<forall>t\<in>set (transactions d). t \<in> set protected \<or> transaction_entry n \<notin> {Some (FinalName t), Some (TempName t)})
         \<longrightarrow> map_of d' n = map_of d n"
    using recover_all_outcome [OF rec [unfolded ts] _ ok] by (auto simp: transactions_def)
  with ok scan prot show thesis by (intro that [of rows f]) auto
qed

lemma outcome_id: "outcome d d' t (Some j) \<Longrightarrow> transaction_id j = t"
  by (auto simp: outcome_def read_final_None [symmetric] dest: read_journal_id)

lemma journals_of_ids:
  "\<forall>t\<in>set ts. t \<notin> set protected \<longrightarrow> (\<forall>j. f t = Some j \<longrightarrow> transaction_id j = t) \<Longrightarrow>
     map transaction_id (journals_of protected ts f) = filter (\<lambda>t. t \<notin> set protected \<and> f t \<noteq> None) ts"
  by (induction ts) (auto simp: journals_of_def)

lemma in_journals_of: "t \<in> set ts \<Longrightarrow> t \<notin> set protected \<Longrightarrow> f t = Some j \<Longrightarrow> j \<in> set (journals_of protected ts f)"
  by (auto simp: journals_of_def intro!: bexI [of _ t])

lemma recover_all_settled:
  "\<forall>t\<in>set ts. if t \<in> set protected then temps_of rows t = []
     else settled d t (final_of rows t) (temps_of rows t) (f t) \<Longrightarrow>
   recover_all rows protected ts d = (d, Inr (journals_of protected ts f))"
  by (induction ts) (auto simp: journals_of_def settled_fixed)

lemma outcome_settled:
  assumes "outcome d d' t r" and "grouped d' t final_name temp_names"
  shows "settled d' t final_name temp_names r"
proof -
  have "\<not> (j, n) \<in> set (valid_temps d' t temp_names)" for j n
  proof
    assume "(j, n) \<in> set (valid_temps d' t temp_names)"
    then have n: "n \<in> set temp_names" "read_journal d' n (Some t) = Inr j" by (simp_all add: valid_temps_set)
    with assms(2) have "map_of d' n \<noteq> None" "transaction_entry n = Some (TempName t)" by (simp_all add: grouped_def)
    with assms(1) have "map_of d' n = map_of d n" "\<nexists>c. read_journal d n (Some t) = Inr c"
      by (auto simp: outcome_def split: if_splits)
    with n(2) read_journal_cong [of d' n d] show False by simp
  qed
  then have "valid_temps d' t temp_names = []" by (cases "valid_temps d' t temp_names") auto
  moreover have "case r of None \<Rightarrow> final_name = None \<and> temp_names \<noteq> []
      | Some j \<Rightarrow> final_name = Some (final_path t) \<and> read_journal d' (final_path t) (Some t) = Inr j"
  proof (cases r)
    case None
    with assms obtain n where "n \<in> set temp_names" "final_name = None" by (auto simp: outcome_def grouped_def)
    with None show ?thesis by auto
  next
    case (Some j)
    with assms(1) have "read_journal d' (final_path t) None = Inr j" by (simp add: outcome_def)
    with Some assms(2) show ?thesis
      using read_journal_map_of [of d' "final_path t" None j] by (auto simp: grouped_def read_final_None)
  qed
  ultimately show ?thesis by (simp add: settled_def)
qed

lemma transactions_same:
  assumes ok: "dir_ok d" "dir_ok d'"
    and out: "\<And>t. t \<in> set (transactions d) \<Longrightarrow> t \<notin> set protected \<Longrightarrow> outcome d d' t (f t)"
    and unprotected: "\<And>n t. transaction_entry n \<in> {Some (FinalName t), Some (TempName t)} \<Longrightarrow>
      t \<in> set protected \<or> t \<notin> set (transactions d) \<Longrightarrow> map_of d' n = map_of d n"
  shows "transactions d' = transactions d"
proof -
  have "t \<in> set (transactions d') \<longleftrightarrow> t \<in> set (transactions d)" for t
  proof (cases "t \<in> set protected \<or> t \<notin> set (transactions d)")
    case True
    then have "map_of d' n = map_of d n" if "transaction_entry n \<in> {Some (FinalName t), Some (TempName t)}" for n
      using that unprotected by blast
    then show ?thesis using transactions_iff [OF ok(1)] transactions_iff [OF ok(2)] by metis
  next
    case False
    then have o: "outcome d d' t (f t)" and hex: "hex_text 32 t"
      using out transactions_hex [OF ok(1)] by auto
    have "\<exists>n. map_of d' n \<noteq> None \<and> transaction_entry n \<in> {Some (FinalName t), Some (TempName t)}"
    proof (cases "f t")
      case None
      with o show ?thesis by (auto simp: outcome_def)
    next
      case (Some j)
      with o have "map_of d' (final_path t) \<noteq> None"
        using read_journal_map_of by (auto simp: outcome_def)
      then show ?thesis using hex transaction_entry_final by blast
    qed
    with False transactions_iff [OF ok(2)] show ?thesis by blast
  qed
  then have "set (transactions d') = set (transactions d)" by blast
  then show ?thesis
    by (intro sorted_distinct_set_unique) (simp_all add: transactions_def del: set_sorted_set)
qed

section \<open>Properties\<close>

text \<open>
  C28. Recovery never loses progress: every journal of an unprotected transaction that could be
  read before, be it the final one or a temporary, is followed in the order of succession by the
  journal that recovery returns for the transaction, and that journal is the content of the
  final file afterwards.
\<close>
theorem recovery_keeps_progress:
  assumes "load_runtime_transaction_journals protected (Some d) = (Some d', Inr js)" and "wf_dict d"
    and "t \<notin> set protected" and "transaction_entry n \<in> {Some (FinalName t), Some (TempName t)}"
    and "read_journal d n (Some t) = Inr c"
  shows "\<exists>j\<in>set js. transaction_id j = t \<and> is_monotonic_successor\<^sup>*\<^sup>* c j
    \<and> read_journal d' (final_path t) None = Inr j"
proof -
  obtain rows f where ok: "dir_ok d" and js: "js = journals_of protected (transactions d) f"
    and out: "\<And>t. t \<in> set (transactions d) \<Longrightarrow> t \<notin> set protected \<Longrightarrow> outcome d d' t (f t)"
    by (rule load_Inr [OF assms(1,2)]) blast
  have t: "t \<in> set (transactions d)"
    using transactions_iff [OF ok] assms(4) read_journal_map_of [OF assms(5)] by blast
  note o = out [OF t assms(3)]
  then obtain j where j: "f t = Some j" "is_monotonic_successor\<^sup>*\<^sup>* c j"
    using assms(4,5) unfolding outcome_def by blast
  with o have "read_journal d' (final_path t) None = Inr j" "transaction_id j = t"
    using outcome_id by (simp_all add: outcome_def)
  with j js in_journals_of [of t "transactions d" protected f j, OF t assms(3)] show ?thesis by blast
qed

text \<open>
  C29. Recovery is idempotent: after a recovery that succeeded, another one with the same
  protected transactions changes nothing and returns the same journals, at most one for each
  transaction and in the order of their identifiers.
\<close>
theorem recovery_idempotent:
  assumes "load_runtime_transaction_journals protected (Some d) = (Some d', Inr js)" and "wf_dict d"
  shows "load_runtime_transaction_journals protected (Some d') = (Some d', Inr js)
    \<and> sorted (map transaction_id js) \<and> distinct (map transaction_id js)"
proof -
  obtain rows f where ok: "dir_ok d" "dir_ok d'" and scan: "scan_from 0 d = Inr rows"
    and prot: "list_all is_transaction_id protected" and js: "js = journals_of protected (transactions d) f"
    and out: "\<And>t. t \<in> set (transactions d) \<Longrightarrow> t \<notin> set protected \<Longrightarrow> outcome d d' t (f t)"
    and ptemps: "\<And>t. t \<in> set (transactions d) \<Longrightarrow> t \<in> set protected \<Longrightarrow> temps_of rows t = []"
    and frame: "\<And>n. (\<forall>t\<in>set (transactions d). t \<in> set protected
        \<or> transaction_entry n \<notin> {Some (FinalName t), Some (TempName t)}) \<Longrightarrow> map_of d' n = map_of d n"
    by (rule load_Inr [OF assms]) blast
  obtain rows' where scan': "scan_from 0 d' = Inr rows'"
    and ts': "sorted_set (map (entry_transaction \<circ> snd) rows') = transactions d'"
    by (rule scan_dir_ok [OF ok(2)])
  have unprotected: "map_of d' n = map_of d n"
    if "transaction_entry n \<in> {Some (FinalName t), Some (TempName t)}" "t \<in> set protected \<or> t \<notin> set (transactions d)"
    for n t using that by (intro frame) auto
  have ts: "transactions d' = transactions d"
    using ok out unprotected by (rule transactions_same)
  have "if t \<in> set protected then temps_of rows' t = []
      else settled d' t (final_of rows' t) (temps_of rows' t) (f t)" if t: "t \<in> set (transactions d)" for t
  proof -
    note hex = transactions_hex [OF ok(1) t]
    note g = dir_ok_grouped [OF ok(1) scan hex] and g' = dir_ok_grouped [OF ok(2) scan' hex]
    show ?thesis
    proof (cases "t \<in> set protected")
      case True
      have "n \<notin> set (temps_of rows' t)" for n
      proof
        assume "n \<in> set (temps_of rows' t)"
        with g' have n: "map_of d' n \<noteq> None" "transaction_entry n = Some (TempName t)" by (simp_all add: grouped_def)
        with unprotected [of n t] True have "map_of d n \<noteq> None" by simp
        with n(2) g have "n \<in> set (temps_of rows t)" unfolding grouped_def by blast
        with ptemps [OF t True] show False by simp
      qed
      then show ?thesis using True by (cases "temps_of rows' t") auto
    next
      case False
      then show ?thesis using outcome_settled [OF out [OF t False] g'] by simp
    qed
  qed
  then have "recover_all rows' protected (transactions d) d' = (d', Inr js)"
    unfolding js by (intro recover_all_settled) blast
  then have again: "load_runtime_transaction_journals protected (Some d') = (Some d', Inr js)"
    by (simp add: load_runtime_transaction_journals_def prot scan' ts' ts)
  have "map transaction_id js = filter (\<lambda>t. t \<notin> set protected \<and> f t \<noteq> None) (transactions d)"
    unfolding js using out outcome_id by (intro journals_of_ids) metis
  with again show ?thesis by (simp add: transactions_def sorted_filter [of id, simplified])
qed

lemma write_outcomes:
  assumes "write_runtime_transaction_journal target j nonce fault landed d = (d', r)"
  defines "pending \<equiv> temp_path (transaction_id j) nonce"
  obtains (refused) e where "d' = d" "r = Inl e"
  | (empty) bytes e where "runtime_transaction_journal_bytes j = Inr bytes" "\<not> dhas d pending" "fault FSTAT = Some e"
      "d' = dput pending \<lparr>plain = True, content = []\<rparr> d" "r = Inl e"
  | (stopped) bytes b e where "runtime_transaction_journal_bytes j = Inr bytes" "\<not> dhas d pending"
      "b = take landed bytes \<or> b = bytes" "d' = remove_pending fault pending (dput pending \<lparr>plain = True, content = b\<rparr> d)"
      "r = Inl e"
  | (replaced) bytes where "runtime_transaction_journal_bytes j = Inr bytes" "\<not> dhas d pending"
      "d' = secure_replace pending (final_path (transaction_id j)) (dput pending \<lparr>plain = True, content = bytes\<rparr> d)"
proof (cases "target = final_path (transaction_id j) \<and> (\<exists>b. runtime_transaction_journal_bytes j = Inr b)
    \<and> first_fault fault [BEFORE_TEMP_WRITE, OPEN] = None \<and> \<not> dhas d pending")
  case False
  with assms(1) have "d' = d \<and> (\<exists>e. r = Inl e)"
    by (auto simp: write_runtime_transaction_journal_def Let_def pending_def split: if_splits sum.splits option.splits)
  then show thesis using refused by blast
next
  case True
  then obtain bytes where bytes: "runtime_transaction_journal_bytes j = Inr bytes" and fresh: "\<not> dhas d pending" by blast
  let ?holding = "\<lambda>b. dput pending \<lparr>plain = True, content = b\<rparr> d"
  let ?last = "first_fault fault [AFTER_TEMP_WRITE, FSYNC, AFTER_TEMP_FLUSH, READ_BACK, BEFORE_REPLACE, REPLACE]"
  note run = assms(1) [unfolded write_runtime_transaction_journal_def Let_def, folded pending_def]
  show thesis
  proof (cases "fault FSTAT")
    case (Some e)
    then show thesis using empty [OF bytes fresh Some] run True bytes by simp
  next
    case no_stat: None
    show thesis
    proof (cases "fault WRITE")
      case (Some e)
      then show thesis using stopped [OF bytes fresh disjI1 [OF refl]] run True bytes no_stat by auto
    next
      case no_write: None
      show thesis
      proof (cases ?last)
        case (Some e)
        then show thesis using stopped [OF bytes fresh disjI2 [OF refl]] run True bytes no_stat no_write by auto
      next
        case None
        then have "d' = secure_replace pending (final_path (transaction_id j)) (?holding bytes)"
          using run True bytes no_stat no_write by (auto split: option.splits)
        then show thesis by (rule replaced [OF bytes fresh])
      qed
    qed
  qed
qed

definition leftover :: "runtime_journal \<Rightarrow> faults \<Rightarrow> nat \<Rightarrow> dir_entry \<Rightarrow> bool" where
  \<comment> \<open>what a stopped writer may leave under the name of its temporary: an empty file if the identity
    could not be read, and if the cleanup failed what had been written\<close>
  "leftover j fault landed e = (\<exists>bytes. runtime_transaction_journal_bytes j = Inr bytes \<and> plain e
     \<and> (fault FSTAT \<noteq> None \<and> content e = [] \<or> fault CLEANUP \<noteq> None \<and> (content e = take landed bytes \<or> content e = bytes)))"


section \<open>A concrete directory\<close>

text \<open>The final journal of a prepared transaction, and the temporary of its next journal.\<close>

definition demo_file :: "runtime_journal \<Rightarrow> dir_entry" where
  "demo_file j = \<lparr>plain = True, content = document_bytes journal_payload j\<rparr>"

definition demo_temp_name :: string where
  "demo_temp_name = ''.'' @ demo_hex 32 @ ''.json.'' @ demo_hex 32 @ ''.tmp''"

definition demo_directory :: directory where
  "demo_directory = [(final_path (demo_hex 32), demo_file demo_prepared), (demo_temp_name, demo_file demo_staged)]"

definition demo_recovered :: directory where
  "demo_recovered = [(final_path (demo_hex 32), demo_file demo_staged)]"

lemma demo_hex_text: "hex_text 32 (demo_hex 32)"
  using demo_hex_ok(1) by (simp add: is_transaction_id_def)

lemma demo_entry_names: "transaction_entry demo_temp_name = Some (TempName (demo_hex 32))"
  "transaction_entry (final_path (demo_hex 32)) = Some (FinalName (demo_hex 32))"
  "demo_temp_name \<noteq> final_path (demo_hex 32)"
proof -
  show "transaction_entry (final_path (demo_hex 32)) = Some (FinalName (demo_hex 32))"
    using demo_hex_text transaction_entry_final by blast
  show "demo_temp_name \<noteq> final_path (demo_hex 32)" by (simp add: demo_temp_name_def final_path_def demo_hex_def)
  have "drop 32 demo_temp_name \<noteq> ''.json''" "take 1 demo_temp_name = ''.''"
    "take 32 (drop 1 demo_temp_name) = demo_hex 32" "take 6 (drop 33 demo_temp_name) = ''.json.''"
    "take 32 (drop 39 demo_temp_name) = demo_hex 32" "drop 71 demo_temp_name = ''.tmp''"
    by (simp_all add: demo_temp_name_def demo_hex_def)
  then show "transaction_entry demo_temp_name = Some (TempName (demo_hex 32))"
    unfolding transaction_entry_def using demo_hex_text by (simp only: simp_thms if_True if_False)
qed

lemma demo_parse:
  "parse_runtime_transaction_journal_bytes (document_bytes journal_payload j) (Some (demo_hex 32)) = Inr j"
  "parse_runtime_transaction_journal_bytes (document_bytes journal_payload j) None = Inr j"
  if "j \<in> {demo_prepared, demo_staged}"
  using that demo_journals_valid demo_fits(2,3)
  by (auto simp: parse_steps_Inr bytes_Inr) (auto simp: demo_journal_def)

lemma demo_reads:
  assumes "map_of d n = Some (demo_file j)" and "j \<in> {demo_prepared, demo_staged}"
  shows "read_journal d n (Some (demo_hex 32)) = Inr j"
    and "n = final_path (demo_hex 32) \<Longrightarrow> read_journal d n None = Inr j"
proof -
  have size: "\<not> int (length (content (demo_file j))) > MAX_RUNTIME_TRANSACTION_BYTES" "plain (demo_file j)"
    using assms(2) demo_fits(2,3) by (auto simp: demo_file_def fits_def)
  have "transaction_id j = demo_hex 32" using assms(2) by (auto simp: demo_journal_def)
  then show "read_journal d n (Some (demo_hex 32)) = Inr j"
    and "n = final_path (demo_hex 32) \<Longrightarrow> read_journal d n None = Inr j"
    using assms(1) size demo_parse [OF assms(2)] by (auto simp: read_journal_def demo_file_def)
qed

lemma demo_recover:
  "recover_transaction (Some (final_path (demo_hex 32))) [demo_temp_name] (demo_hex 32) demo_directory
     = (demo_recovered, Inr (Some demo_staged))"
proof -
  have reads: "read_journal demo_directory (final_path (demo_hex 32)) (Some (demo_hex 32)) = Inr demo_prepared"
    "read_journal demo_directory demo_temp_name (Some (demo_hex 32)) = Inr demo_staged"
    using demo_entry_names(3) by (intro demo_reads; simp add: demo_directory_def)+
  have neq: "demo_staged \<noteq> demo_prepared" by (simp add: demo_journal_def)
  have sel: "select_journal (Some demo_prepared) [(demo_staged, demo_temp_name)] = Inr (Some demo_staged, Some demo_temp_name)"
    using demo_successor neq by (simp add: select_journal_def select_step_def)
  have prom: "promote demo_directory (demo_hex 32) (Some demo_temp_name) = demo_recovered"
    using demo_entry_names(3) by (simp add: promote_def secure_replace_def demo_directory_def demo_recovered_def dpop_def)
  have reread: "read_journal demo_recovered (final_path (demo_hex 32)) None = Inr demo_staged"
    by (intro demo_reads) (simp_all add: demo_recovered_def)
  have temps: "valid_temps demo_directory (demo_hex 32) [demo_temp_name] = [(demo_staged, demo_temp_name)]"
    by (simp add: valid_temps_def reads)
  show ?thesis
    unfolding recover_transaction_def temps
    by (simp add: reads sel prom reread remove_temps_def)
qed

lemma demo_load:
  "load_runtime_transaction_journals [] (Some demo_directory) = (Some demo_recovered, Inr [demo_staged])"
proof -
  let ?rows = "[(final_path (demo_hex 32), FinalName (demo_hex 32)), (demo_temp_name, TempName (demo_hex 32))]"
  have scan: "scan_from 0 demo_directory = Inr ?rows"
    by (simp add: demo_directory_def demo_entry_names demo_file_def MAX_RUNTIME_TRANSACTION_FILES_def)
  have ids: "sorted_set (map (entry_transaction \<circ> snd) ?rows) = [demo_hex 32]"
    by (simp add: sorted_set_def)
  have rows: "final_of ?rows (demo_hex 32) = Some (final_path (demo_hex 32))"
    "temps_of ?rows (demo_hex 32) = [demo_temp_name]"
    by (simp_all add: final_of_def temps_of_def)
  show ?thesis
    unfolding load_runtime_transaction_journals_def
    by (simp add: scan ids [simplified] rows demo_recover)
qed

lemma demo_wf: "wf_dict demo_directory"
  using demo_entry_names(3) by (simp add: demo_directory_def wf_dict_def)

lemma recovery_keeps_progress_witness:
  "is_monotonic_successor\<^sup>*\<^sup>* demo_prepared demo_staged"
proof -
  have "read_journal demo_directory (final_path (demo_hex 32)) (Some (demo_hex 32)) = Inr demo_prepared"
    by (intro demo_reads) (simp_all add: demo_directory_def)
  from recovery_keeps_progress [OF demo_load demo_wf _ _ this] demo_entry_names(2) show ?thesis by simp
qed

lemma recovery_idempotent_witness:
  "load_runtime_transaction_journals [] (Some demo_recovered) = (Some demo_recovered, Inr [demo_staged])"
  using recovery_idempotent [OF demo_load demo_wf] by blast

definition failing_flush :: faults where
  \<comment> \<open>the flush of the temporary fails, and so does its removal\<close>
  "failing_flush p = (if p = FSYNC \<or> p = CLEANUP then Some (OSError ''fsync'') else None)"


end
