(* ===== verification/DeckConfigIni.thy ===== *)
theory DeckConfigIni
  imports RelativePath
begin

text \<open>
  Editing \<open>DeckConfig.ini\<close> (\<open>src/src/hsconfig/deck_config_ini.py\<close>): finding the mapping of a
  deck in the \<open>[CONFIGS]\<close> section, and rendering the file with another configuration directory
  for that deck while every other byte stays as it is. The file system around it is an argument:
  the content of the file, \<open>None\<close> if there is none.
\<close>

section \<open>Lines\<close>

definition is_break :: "char \<Rightarrow> bool" where
  \<comment> \<open>the line boundaries of \<open>str.splitlines\<close> below 256: LF, VT, FF, CR, FS, GS, RS and NEL\<close>
  "is_break c = (let n = code c in (10 \<le> n \<and> n \<le> 13) \<or> (28 \<le> n \<and> n \<le> 30) \<or> n = 133)"

abbreviation CR :: char where "CR \<equiv> CHR 0x0D"
abbreviation LF :: char where "LF \<equiv> CHR 0x0A"

fun splitlines :: "string \<Rightarrow> string \<Rightarrow> string list" where
  \<comment> \<open>\<open>text.splitlines(keepends=True)\<close>, with the line read so far\<close>
  "splitlines acc [] = (if acc = [] then [] else [acc])"
| "splitlines acc (c # cs) =
     (if c = CR \<and> cs \<noteq> [] \<and> hd cs = LF then (acc @ [CR, LF]) # splitlines [] (tl cs)
      else if is_break c then (acc @ [c]) # splitlines [] cs
      else splitlines (acc @ [c]) cs)"

definition split_row :: "string \<Rightarrow> string \<times> string" where
  "split_row row =
     (if ends_with [CR, LF] row then (take (length row - 2) row, [CR, LF])
      else if ends_with [CR] row \<or> ends_with [LF] row then (butlast row, [last row])
      else (row, []))"

definition split_lines :: "string \<Rightarrow> (string \<times> string) list" where
  "split_lines t = map split_row (splitlines [] t)"

definition join_lines :: "(string \<times> string) list \<Rightarrow> string" where
  \<comment> \<open>\<open>"".join(line + newline for line, newline in lines)\<close>\<close>
  "join_lines ls = concat (map (\<lambda>(line, ending). line @ ending) ls)"

definition is_section :: "string \<Rightarrow> bool" where
  "is_section v = (2 \<le> length v \<and> starts_with ''['' v \<and> ends_with '']'' v)"

definition configs_header :: "string \<Rightarrow> bool" where
  "configs_header stripped = (casefold stripped = map code ''[configs]'')"

definition first_newline :: "string \<Rightarrow> string option" where
  "first_newline t =
     (case dropWhile (\<lambda>c. c \<noteq> CR \<and> c \<noteq> LF) t of
        [] \<Rightarrow> None
      | c # cs \<Rightarrow> if c = CR then (if cs \<noteq> [] \<and> hd cs = LF then Some [CR, LF] else Some [CR]) else Some [LF])"

section \<open>Mappings\<close>

definition key_of :: "string \<Rightarrow> string" where
  \<comment> \<open>\<open>line.split("=", 1)[0].strip()\<close>\<close>
  "key_of line = strip (takeWhile (\<lambda>c. c \<noteq> CHR ''='') line)"

definition value_of :: "string \<Rightarrow> string" where
  \<comment> \<open>\<open>line.split("=", 1)[1].strip()\<close>\<close>
  "value_of line = strip (drop 1 (dropWhile (\<lambda>c. c \<noteq> CHR ''='') line))"

definition is_mapping :: "nat list \<Rightarrow> string \<Rightarrow> bool" where
  "is_mapping target line =
     (let stripped = strip line in
      stripped \<noteq> [] \<and> \<not> (starts_with '';'' stripped \<or> starts_with ''#'' stripped)
      \<and> CHR ''='' \<in> set line \<and> casefold (key_of line) = target)"

fun mapping_scan :: "nat list \<Rightarrow> nat \<Rightarrow> bool \<Rightarrow> (string \<times> string) list \<Rightarrow> nat list" where
  "mapping_scan target i in_configs [] = []"
| "mapping_scan target i in_configs ((line, ending) # ls) =
     (let stripped = strip line in
      if is_section stripped then mapping_scan target (Suc i) (configs_header stripped) ls
      else (if in_configs \<and> is_mapping target line then [i] else [])
           @ mapping_scan target (Suc i) in_configs ls)"

definition mapping_indexes :: "string \<Rightarrow> string \<Rightarrow> nat list" where
  "mapping_indexes t deck_name = mapping_scan (casefold deck_name) 0 False (split_lines t)"

definition mapping_values :: "string \<Rightarrow> string \<Rightarrow> string list" where
  "mapping_values t deck_name =
     (let lines = split_lines t in map (\<lambda>i. value_of (fst (lines ! i))) (mapping_indexes t deck_name))"

section \<open>Inserting a mapping\<close>

definition ends_with_newline :: "string \<Rightarrow> bool" where
  "ends_with_newline t = (ends_with [CR] t \<or> ends_with [LF] t)"

definition insert_line ::
    "(string \<times> string) list \<Rightarrow> nat \<Rightarrow> string \<Rightarrow> string \<Rightarrow> bool \<Rightarrow> (string \<times> string) list" where
  "insert_line lines i v nl had_final_newline =
     (if i < length lines then take i lines @ (v, nl) # drop i lines
      else if lines = [] then [(v, if had_final_newline then nl else [])]
      else if snd (last lines) \<noteq> [] then lines @ [(v, if had_final_newline then nl else [])]
      else butlast lines @ [(fst (last lines), nl), (v, [])])"

fun configs_range :: "nat \<Rightarrow> nat option \<Rightarrow> (string \<times> string) list \<Rightarrow> (nat \<times> nat option) option" where
  \<comment> \<open>the loop that finds the first \<open>[CONFIGS]\<close> section (its line is the second argument once
    it has been found) and the section after it\<close>
  "configs_range i start [] = map_option (\<lambda>s. (s, None)) start"
| "configs_range i start ((line, ending) # ls) =
     (if \<not> is_section (strip line) then configs_range (Suc i) start ls
      else (case start of
              Some s \<Rightarrow> Some (s, Some i)
            | None \<Rightarrow> configs_range (Suc i) (if configs_header (strip line) then Some i else None) ls))"

definition insert_mapping :: "string \<Rightarrow> string \<Rightarrow> string \<Rightarrow> string" where
  "insert_mapping t deck_name config_dir =
     (let nl = (case first_newline t of None \<Rightarrow> [LF] | Some n \<Rightarrow> n);
          mapping = deck_name @ '' = '' @ config_dir;
          lines = split_lines t in
      case configs_range 0 None lines of
        Some (s, configs_end) \<Rightarrow>
          join_lines (insert_line lines (case configs_end of Some e \<Rightarrow> e | None \<Rightarrow> length lines) mapping nl
            (ends_with_newline t))
      | None \<Rightarrow>
          if t = [] then ''[CONFIGS]'' @ nl @ mapping
          else (if ends_with_newline t then t else t @ nl) @ ''[CONFIGS]'' @ nl @ mapping
               @ (if ends_with_newline t then nl else []))"

section \<open>Names\<close>

definition MAX_NAME_LENGTH :: int where "MAX_NAME_LENGTH = 255"
definition MAX_DECK_CONFIG_BYTES :: int where "MAX_DECK_CONFIG_BYTES = 1024 * 1024"

definition WINDOWS_RESERVED :: "string list" where
  \<comment> \<open>the superscripts one, two and three are the code points 185, 178 and 179\<close>
  "WINDOWS_RESERVED =
     [''con'', ''prn'', ''aux'', ''nul'']
     @ concat (map (\<lambda>c. [''com'' @ [c], ''lpt'' @ [c]]) (''123456789'' @ [CHR 0xB9, CHR 0xB2, CHR 0xB3]))"

definition unsafe_deck_name :: "string \<Rightarrow> bool" where
  "unsafe_deck_name v =
     (v = [] \<or> v \<noteq> strip v \<or> int (length v) > MAX_NAME_LENGTH
      \<or> starts_with '';'' v \<or> starts_with ''#'' v
      \<or> list_ex (\<lambda>c. c \<in> {CR, LF, CHR ''='', CHR 0x00}) v \<or> list_ex (\<lambda>c. code c < 32) v)"

definition validate_deck_name :: "string \<Rightarrow> unit res" where
  "validate_deck_name v = raise_if (unsafe_deck_name v) (ValueError ''deck_config_ini_unsafe_deck_name'')"

definition unsafe_config_dir :: "string \<Rightarrow> bool" where
  \<comment> \<open>\<open>Path(value).name != value\<close> asks for a single component\<close>
  "unsafe_config_dir v =
     (v = [] \<or> v \<noteq> strip v \<or> int (length v) > MAX_NAME_LENGTH \<or> v \<in> {''.'', ''..''}
      \<or> last (split_on CHR ''/'' v) \<noteq> v
      \<or> list_ex (\<lambda>c. c \<in> set ''<>:/|?*'' \<or> c \<in> {CHR 0x22, CHR 0x5C, CHR 0x00}) v
      \<or> list_ex (\<lambda>c. code c < 32) v \<or> ends_with ''.'' v \<or> ends_with '' '' v
      \<or> casefold (rstrip_by (\<lambda>c. c \<in> {CHR '' '', CHR ''.''}) (hd (split_on CHR ''.'' v)))
         \<in> set (map (map code) WINDOWS_RESERVED))"

definition validate_config_dir :: "string \<Rightarrow> unit res" where
  "validate_config_dir v = raise_if (unsafe_config_dir v) (ValueError ''deck_config_ini_unsafe_config_dir'')"

section \<open>Reading and rendering\<close>

record deck_config_snapshot =
  existed :: bool
  content :: "string option"
  sha256 :: "string option"
  selected_config_dir :: "string option"

definition utf8_bom :: string where "utf8_bom = [CHR 0xEF, CHR 0xBB, CHR 0xBF]"

definition decode_config :: "string \<Rightarrow> (string \<times> bool) res" where
  \<comment> \<open>\<open>_decode\<close>: the codec \<open>utf-8-sig\<close> skips one byte order mark\<close>
  "decode_config bytes =
     (case utf8_decode (if starts_with utf8_bom bytes then drop 3 bytes else bytes) of
        Inl e \<Rightarrow> Inl (ValueError ''deck_config_ini_invalid_encoding'')
      | Inr t \<Rightarrow> Inr (t, starts_with utf8_bom bytes))"

definition read_deck_config ::
    "(string \<Rightarrow> string) \<Rightarrow> string option \<Rightarrow> string \<Rightarrow> deck_config_snapshot res" where
  "read_deck_config hash file deck_name =
     rbind (validate_deck_name deck_name) (\<lambda>_.
     case file of
       None \<Rightarrow> Inr \<lparr>existed = False, content = None, sha256 = None, selected_config_dir = None\<rparr>
     | Some bytes \<Rightarrow>
         if int (length bytes) > MAX_DECK_CONFIG_BYTES then Inl (ValueError ''deck_config_ini_too_large'')
         else
           rbind (decode_config bytes) (\<lambda>(t, has_bom).
           let mappings = mapping_values t deck_name in
           if length mappings > 1 then Inl (ValueError ''deck_config_ini_ambiguous_mapping'')
           else
             (let selected = (case mappings of [] \<Rightarrow> None | v # _ \<Rightarrow> Some v) in
              rbind (case selected of None \<Rightarrow> Inr () | Some v \<Rightarrow> validate_config_dir v) (\<lambda>_.
              Inr \<lparr>existed = True, content = Some bytes, sha256 = Some (hash bytes),
                   selected_config_dir = selected\<rparr>))))"

definition replace_value :: "string \<Rightarrow> string \<Rightarrow> string" where
  \<comment> \<open>the line with another value; the blanks around the value stay\<close>
  "replace_value line config_dir =
     (let before = takeWhile (\<lambda>c. c \<noteq> CHR ''='') line;
          region = drop 1 (dropWhile (\<lambda>c. c \<noteq> CHR ''='') line);
          blank = (\<lambda>c. c = CHR '' '' \<or> c = CHR 0x09);
          leading = take (length region - length (lstrip_by blank region)) region;
          trailing = drop (length (rstrip_by blank region)) region in
      before @ ''='' @ leading @ config_dir @ trailing)"

definition render_text :: "string \<Rightarrow> string \<Rightarrow> string \<Rightarrow> string option res" where
  \<comment> \<open>the new text, or \<open>None\<close> if the original bytes are returned\<close>
  "render_text t deck_name config_dir =
     (let matches = mapping_indexes t deck_name in
      if length matches > 1 then Inl (ValueError ''deck_config_ini_ambiguous_mapping'')
      else
        (case matches of
           i # _ \<Rightarrow>
             (let lines = split_lines t; (line, ending) = lines ! i in
              if value_of line = config_dir then Inr None
              else Inr (Some (join_lines (lines[i := (replace_value line config_dir, ending)]))))
         | [] \<Rightarrow> Inr (Some (insert_mapping t deck_name config_dir))))"

definition render_deck_config :: "deck_config_snapshot \<Rightarrow> string \<Rightarrow> string \<Rightarrow> string res" where
  "render_deck_config snapshot deck_name config_dir =
     rbind (validate_deck_name deck_name) (\<lambda>_.
     rbind (validate_config_dir config_dir) (\<lambda>_.
     rbind (raise_if (existed snapshot \<noteq> (content snapshot \<noteq> None)) (ValueError ''deck_config_ini_invalid_snapshot'')) (\<lambda>_.
     let original = (case content snapshot of None \<Rightarrow> [] | Some b \<Rightarrow> b) in
     rbind (decode_config original) (\<lambda>(t, has_bom).
     rbind (render_text t deck_name config_dir) (\<lambda>rendered.
     case rendered of
       None \<Rightarrow> Inr original
     | Some r \<Rightarrow> Inr ((if has_bom then utf8_bom else []) @ utf8_encode r))))))"

section \<open>Lines and text\<close>

definition plain :: "string \<Rightarrow> bool" where
  \<comment> \<open>a text whose only line boundaries are CR and LF\<close>
  "plain t = list_all (\<lambda>c. is_break c \<longrightarrow> c = CR \<or> c = LF) t"

definition no_break :: "string \<Rightarrow> bool" where
  "no_break l = list_all (\<lambda>c. \<not> is_break c) l"

lemma breaks [simp]: "is_break CR" "is_break LF"
  by (simp_all add: is_break_def code_def)

fun wf_lines :: "(string \<times> string) list \<Rightarrow> bool" where
  \<comment> \<open>the lines of a plain text: only the last may have no ending, and no CR is split from its LF\<close>
  "wf_lines [] = True"
| "wf_lines ((l, e) # ls) =
     (no_break l \<and> wf_lines ls
      \<and> (if ls = [] then e \<in> {[CR], [LF], [CR, LF]} \<or> (e = [] \<and> l \<noteq> [])
         else e \<in> {[CR], [LF], [CR, LF]} \<and> \<not> (e = [CR] \<and> starts_with [LF] (join_lines ls))))"

lemma join_lines_simps [simp]:
  "join_lines [] = []" "join_lines ((l, e) # ls) = l @ e @ join_lines ls"
  "join_lines (xs @ ys) = join_lines xs @ join_lines ys"
  by (simp_all add: join_lines_def)

lemma splitlines_skip: "no_break l \<Longrightarrow> splitlines acc (l @ r) = splitlines (acc @ l) r"
proof (induction l arbitrary: acc)
  case (Cons c l)
  then have "c \<noteq> CR" "\<not> is_break c" by (auto simp: no_break_def)
  then show ?case using Cons by (simp add: no_break_def)
qed simp

lemma no_break_last: "no_break l \<Longrightarrow> l \<noteq> [] \<Longrightarrow> last l \<noteq> CR \<and> last l \<noteq> LF"
  using breaks by (metis last_in_set list_all_iff no_break_def)

lemma split_row_line: "no_break l \<Longrightarrow> e \<in> {[CR], [LF], [CR, LF]} \<or> e = [] \<Longrightarrow> split_row (l @ e) = (l, e)"
proof -
  assume l: "no_break l" and e: "e \<in> {[CR], [LF], [CR, LF]} \<or> e = []"
  have "last l \<noteq> CR \<and> last l \<noteq> LF" if "l \<noteq> []"
    using l that by (rule no_break_last)
  with e show ?thesis
    by (cases l rule: rev_cases) (auto simp: split_row_def ends_with_def starts_with_def butlast_append)
qed

lemma splitlines_ending:
  assumes "e \<in> {[CR], [LF], [CR, LF]}" and "\<not> (e = [CR] \<and> starts_with [LF] r)"
  shows "splitlines l (e @ r) = (l @ e) # splitlines [] r"
  using assms by (cases r) (auto simp: starts_with_def)

lemma split_lines_join: "wf_lines ls \<Longrightarrow> split_lines (join_lines ls) = ls"
proof (induction ls rule: wf_lines.induct)
  case (2 l e ls)
  show ?case
  proof (cases "e = []")
    case True
    with 2 show ?thesis using splitlines_skip [of l "[]" "[]"] split_row_line [of l "[]"]
      by (auto simp: split_lines_def split: if_splits)
  next
    case False
    with 2 have e: "e \<in> {[CR], [LF], [CR, LF]}" "\<not> (e = [CR] \<and> starts_with [LF] (join_lines ls))"
      by (auto simp: starts_with_def split: if_splits)
    with 2 show ?thesis
      using splitlines_skip [of l "[]" "e @ join_lines ls"] splitlines_ending [OF e, of l] split_row_line [of l e]
      by (auto simp: split_lines_def)
  qed
qed (simp add: split_lines_def)

lemma splitlines_wf:
  "no_break acc \<Longrightarrow> plain t \<Longrightarrow>
     wf_lines (map split_row (splitlines acc t)) \<and> join_lines (map split_row (splitlines acc t)) = acc @ t"
proof (induction acc t rule: splitlines.induct)
  case (1 acc)
  then show ?case using split_row_line [of acc "[]"] by (auto simp: no_break_def)
next
  case (2 acc c cs)
  consider (crlf) "c = CR \<and> cs \<noteq> [] \<and> hd cs = LF" | (br) "\<not> (c = CR \<and> cs \<noteq> [] \<and> hd cs = LF)" "is_break c"
    | (char) "\<not> is_break c" by blast
  then show ?case
  proof cases
    case crlf
    then obtain ds where cs: "cs = LF # ds" by (cases cs) auto
    with 2 crlf have "wf_lines (map split_row (splitlines [] ds))"
      "join_lines (map split_row (splitlines [] ds)) = ds"
      by (auto simp: plain_def no_break_def)
    then show ?thesis using crlf cs 2(4) split_row_line [of acc "[CR, LF]"] by auto
  next
    case br
    with 2(5) have c: "c = CR \<or> c = LF" by (auto simp: plain_def)
    from 2(2) [OF br] 2(5) have ih: "wf_lines (map split_row (splitlines [] cs))"
      "join_lines (map split_row (splitlines [] cs)) = cs"
      by (auto simp: plain_def no_break_def)
    have "splitlines acc (c # cs) = (acc @ [c]) # splitlines [] cs" using br by auto
    moreover have "\<not> ([c] = [CR] \<and> starts_with [LF] cs)" using br(1) by (cases cs) (auto simp: starts_with_def)
    ultimately show ?thesis using ih 2(4) c split_row_line [of acc "[c]"] by auto
  next
    case char
    then have "c \<noteq> CR" by auto
    with char 2(3) 2(4,5) show ?thesis by (auto simp: plain_def no_break_def)
  qed
qed

lemma split_lines_wf: "plain t \<Longrightarrow> wf_lines (split_lines t)"
  and join_split_lines: "plain t \<Longrightarrow> join_lines (split_lines t) = t"
  using splitlines_wf [of "[]" t] by (auto simp: split_lines_def no_break_def)

section \<open>Scanning\<close>

fun values_in :: "nat list \<Rightarrow> bool \<Rightarrow> string list \<Rightarrow> string list" where
  \<comment> \<open>the values of the mappings of a deck, on the lines without their endings\<close>
  "values_in target c [] = []"
| "values_in target c (l # ls) =
     (if is_section (strip l) then values_in target (configs_header (strip l)) ls
      else (if c \<and> is_mapping target l then [value_of l] else []) @ values_in target c ls)"

fun state_after :: "bool \<Rightarrow> string list \<Rightarrow> bool" where
  "state_after c [] = c"
| "state_after c (l # ls) = state_after (if is_section (strip l) then configs_header (strip l) else c) ls"

lemma values_in_append: "values_in target c (xs @ ys) = values_in target c xs @ values_in target (state_after c xs) ys"
  by (induction xs arbitrary: c) auto

lemma state_after_append: "state_after c (xs @ ys) = state_after (state_after c xs) ys"
  by (induction xs arbitrary: c) auto

lemma mapping_scan_values:
  "map (\<lambda>i. value_of (fst ((pre @ ls) ! i))) (mapping_scan target (length pre) c ls)
     = values_in target c (map fst ls)"
proof (induction ls arbitrary: pre c)
  case (Cons le ls)
  obtain l e where le: "le = (l, e)" by force
  have "map (\<lambda>i. value_of (fst ((pre @ le # ls) ! i))) (mapping_scan target (Suc (length pre)) c' ls)
      = values_in target c' (map fst ls)" for c'
    using Cons.IH [of "pre @ [le]"] by simp
  then show ?case by (simp add: le Let_def)
qed simp

lemma mapping_values_in: "mapping_values t deck = values_in (casefold deck) False (map fst (split_lines t))"
  using mapping_scan_values [of "[]" "split_lines t"] by (simp add: mapping_values_def mapping_indexes_def)

lemma mapping_scan_length: "length (mapping_scan target i c ls) = length (values_in target c (map fst ls))"
  by (induction ls arbitrary: i c) (auto simp: Let_def)

lemma mapping_scan_bounds:
  "i \<in> set (mapping_scan target k c ls) \<Longrightarrow> k \<le> i \<and> i < k + length ls"
  by (induction ls arbitrary: k c) (fastforce simp: Let_def split: if_splits)+

lemma mapping_scan_split:
  "i \<in> set (mapping_scan target k c ls) \<Longrightarrow>
     \<exists>xs l e ys. ls = xs @ (l, e) # ys \<and> i = k + length xs \<and> state_after c (map fst xs)
       \<and> \<not> is_section (strip l) \<and> is_mapping target l"
proof (induction ls arbitrary: k c)
  case (Cons le ls)
  obtain l e where le: "le = (l, e)" by force
  show ?case
  proof (cases "\<not> is_section (strip l) \<and> c \<and> is_mapping target l \<and> i = k")
    case True
    then show ?thesis by (intro exI [of _ "[]"] exI [of _ l] exI [of _ e] exI [of _ ls]) (simp add: le)
  next
    case False
    let ?c = "if is_section (strip l) then configs_header (strip l) else c"
    have "i \<in> set (mapping_scan target (Suc k) ?c ls)"
      using Cons.prems False by (auto simp: le Let_def split: if_splits)
    from Cons.IH [OF this] obtain xs l' e' ys where "ls = xs @ (l', e') # ys" "i = Suc k + length xs"
      "state_after ?c (map fst xs)" "\<not> is_section (strip l')" "is_mapping target l'" by blast
    then show ?thesis
      by (intro exI [of _ "le # xs"] exI [of _ l'] exI [of _ e'] exI [of _ ys]) (simp add: le)
  qed
qed simp

section \<open>One line\<close>

lemma until_equals:
  "CHR ''='' \<notin> set b \<Longrightarrow> takeWhile (\<lambda>c. c \<noteq> CHR ''='') (b @ CHR ''='' # r) = b"
  "CHR ''='' \<notin> set b \<Longrightarrow> dropWhile (\<lambda>c. c \<noteq> CHR ''='') (b @ CHR ''='' # r) = CHR ''='' # r"
  by (induction b) auto

lemma key_of_append: "CHR ''='' \<notin> set b \<Longrightarrow> key_of (b @ CHR ''='' # r) = strip b"
  by (simp add: key_of_def until_equals)

lemma value_of_append: "CHR ''='' \<notin> set b \<Longrightarrow> value_of (b @ CHR ''='' # r) = strip r"
  by (simp add: value_of_def until_equals)

lemma line_split: "CHR ''='' \<in> set line \<Longrightarrow>
    \<exists>b r. line = b @ CHR ''='' # r \<and> CHR ''='' \<notin> set b"
  by (meson split_list_first)

lemma not_space_eq: "\<not> is_space CHR ''=''" "\<not> is_space CHR ''[''" "\<not> is_space CHR '']''"
  by (simp_all add: is_space_def code_def)

lemma strip_decomp: "\<exists>u v. s = u @ strip s @ v \<and> list_all is_space u \<and> list_all is_space v"
proof -
  obtain u where u: "s = u @ lstrip_by is_space s" "list_all is_space u" using lstrip_by_suffix by blast
  obtain v where v: "lstrip_by is_space s = strip s @ v" "list_all is_space v"
    using rstrip_by_prefix [of "lstrip_by is_space s" is_space] by (auto simp: strip_def strip_by_def)
  from u(1) v(1) have "s = u @ strip s @ v" by simp
  with u(2) v(2) show ?thesis by blast
qed

lemma clean_strip: "clean is_space (strip s)"
  by (simp add: strip_def clean_strip_by)

lemma strip_padded: "list_all is_space u \<Longrightarrow> list_all is_space v \<Longrightarrow> clean is_space x \<Longrightarrow> strip (u @ x @ v) = x"
  by (simp add: strip_def strip_by_padded)

lemma strip_line:
  assumes "strip b \<noteq> []"
  shows "\<exists>m. strip (b @ CHR ''='' # r) = strip b @ m"
    and "strip r \<noteq> [] \<Longrightarrow> \<exists>m. strip (b @ CHR ''='' # r) = strip b @ m @ strip r"
proof -
  obtain u w where b: "b = u @ strip b @ w" "list_all is_space u" using strip_decomp by blast
  have hd: "\<not> is_space (hd (strip b))" using clean_strip [of b] assms by (simp add: clean_def)
  obtain u2 v2 where r: "r = u2 @ strip r @ v2" "list_all is_space u2" "list_all is_space v2"
    using strip_decomp by blast
  show two: "\<exists>m. strip (b @ CHR ''='' # r) = strip b @ m @ strip r" if "strip r \<noteq> []"
  proof -
    let ?x = "strip b @ w @ CHR ''='' # u2 @ strip r"
    have "clean is_space ?x" using hd assms that clean_strip [of r] by (simp add: clean_def)
    then have "strip (u @ ?x @ v2) = ?x" using b(2) r(3) by (intro strip_padded)
    moreover have "u @ ?x @ v2 = b @ CHR ''='' # r" using b(1) r(1) by (metis append.assoc append_Cons)
    ultimately have "strip (b @ CHR ''='' # r) = ?x" by simp
    then show ?thesis by (intro exI [of _ "w @ CHR ''='' # u2"]) simp
  qed
  show "\<exists>m. strip (b @ CHR ''='' # r) = strip b @ m"
  proof (cases "strip r = []")
    case False
    with two show ?thesis by auto
  next
    case True
    let ?x = "strip b @ w @ ''=''"
    have "list_all is_space r" using r True by (metis append_Nil list_all_append)
    moreover have "clean is_space ?x" using hd assms not_space_eq by (simp add: clean_def)
    ultimately have stripped: "strip (u @ ?x @ r) = ?x" using b(2) by (intro strip_padded)
    have "b @ CHR ''='' # r = u @ ?x @ r" using b(1) by (metis append.assoc append_Cons append_Nil)
    then show ?thesis by (simp only: stripped) blast
  qed
qed

lemma is_mapping_line:
  assumes "CHR ''='' \<notin> set b" and "strip b \<noteq> []"
  shows "is_mapping target (b @ CHR ''='' # r) \<longleftrightarrow>
    hd (strip b) \<noteq> CHR '';'' \<and> hd (strip b) \<noteq> CHR ''#'' \<and> casefold (strip b) = target"
proof -
  obtain m where "strip (b @ CHR ''='' # r) = strip b @ m" using strip_line(1) [OF assms(2)] by blast
  then show ?thesis
    using assms by (cases "strip b") (auto simp: is_mapping_def key_of_append starts_with_def)
qed

lemma is_section_line:
  assumes "strip b \<noteq> []" and "strip r \<noteq> []"
  shows "is_section (strip (b @ CHR ''='' # r)) \<longleftrightarrow>
    starts_with ''['' (strip b) \<and> ends_with '']'' (strip r)"
proof -
  obtain m where "strip (b @ CHR ''='' # r) = strip b @ m @ strip r" using strip_line(2) [OF assms] by blast
  then show ?thesis
    using assms
    by (cases "strip b"; cases "strip r" rule: rev_cases) (auto simp: is_section_def starts_with_def ends_with_def)
qed

lemma replace_value_parts:
  assumes "CHR ''='' \<notin> set b"
  obtains u v where "replace_value (b @ CHR ''='' # r) d = b @ CHR ''='' # u @ d @ v"
    and "list_all is_space u" and "list_all is_space v" and "set u \<subseteq> set r" and "set v \<subseteq> set r"
proof -
  let ?blank = "\<lambda>c. c = CHR '' '' \<or> c = CHR 0x09"
  have space: "?blank c \<Longrightarrow> is_space c" for c by (auto simp: is_space_def code_def)
  obtain u where u: "r = u @ lstrip_by ?blank r" "list_all ?blank u" using lstrip_by_suffix by blast
  obtain v where v: "r = rstrip_by ?blank r @ v" "list_all ?blank v" using rstrip_by_prefix by blast
  have "take (length r - length (lstrip_by ?blank r)) r = u" "drop (length (rstrip_by ?blank r)) r = v"
    using u(1) v(1) by (metis append_eq_conv_conj add_diff_cancel_right' length_append, metis append_eq_conv_conj)
  then have "replace_value (b @ CHR ''='' # r) d = b @ CHR ''='' # u @ d @ v"
    using assms by (simp add: replace_value_def until_equals)
  moreover have "list_all is_space u" "list_all is_space v" using u(2) v(2) space by (auto simp: list_all_iff)
  moreover have "set u \<subseteq> set r" "set v \<subseteq> set r" using u(1) v(1) by (metis set_append Un_upper1, metis set_append Un_upper2)
  ultimately show thesis by (rule that)
qed

section \<open>Well-formed lines under editing\<close>

abbreviation endings :: "string set" where "endings \<equiv> {[CR], [LF], [CR, LF]}"

lemma no_break_start: "no_break l \<Longrightarrow> l \<noteq> [] \<Longrightarrow> \<not> starts_with [LF] (l @ r)"
  by (cases l) (auto simp: no_break_def starts_with_def)

lemma wf_start: "wf_lines ys \<Longrightarrow> ys \<noteq> [] \<Longrightarrow> fst (hd ys) \<noteq> [] \<Longrightarrow> \<not> starts_with [LF] (join_lines ys)"
  by (cases ys) (auto dest: no_break_start)

lemma wf_append:
  "wf_lines xs \<Longrightarrow> xs = [] \<or> snd (last xs) \<noteq> [] \<Longrightarrow> wf_lines ys \<Longrightarrow> ys \<noteq> [] \<Longrightarrow> fst (hd ys) \<noteq> []
     \<Longrightarrow> wf_lines (xs @ ys)"
proof (induction xs rule: wf_lines.induct)
  case (2 l e ls)
  show ?case
  proof (cases "ls = []")
    case True
    with 2 show ?thesis using wf_start [of ys] by auto
  next
    case False
    with 2 have "wf_lines (ls @ ys)" by auto
    moreover have "starts_with [LF] (join_lines (ls @ ys)) \<longleftrightarrow> starts_with [LF] (join_lines ls)"
    proof -
      have "join_lines ls \<noteq> []" using False 2(2) by (cases ls) (auto split: if_splits)
      then show ?thesis by (cases "join_lines ls") (auto simp: starts_with_def)
    qed
    ultimately show ?thesis using False 2(2) by auto
  qed
qed simp

lemma wf_take_drop: "wf_lines (xs @ ys) \<Longrightarrow> wf_lines ys \<and> (ys \<noteq> [] \<longrightarrow> wf_lines xs \<and> (xs = [] \<or> snd (last xs) \<noteq> []))"
proof (induction xs)
  case (Cons le xs)
  obtain l e where le: "le = (l, e)" by force
  with Cons.prems have rest: "wf_lines (xs @ ys)" by simp
  have e: "ys \<noteq> [] \<Longrightarrow> e \<in> endings \<and> \<not> (e = [CR] \<and> starts_with [LF] (join_lines xs @ join_lines ys))"
    using Cons.prems by (auto simp: le split: if_splits)
  have "starts_with [LF] (join_lines xs) \<Longrightarrow> starts_with [LF] (join_lines xs @ join_lines ys)"
    by (auto simp: starts_with_iff)
  with Cons.IH [OF rest] e Cons.prems show ?case by (cases "xs = []") (auto simp: le)
qed simp

lemma wf_replace:
  assumes "wf_lines (xs @ (l, e) # ys)" and "no_break l'" and "l' \<noteq> []"
  shows "wf_lines (xs @ (l', e) # ys)"
proof -
  have "wf_lines ((l, e) # ys)" by (rule wf_take_drop [OF assms(1), THEN conjunct1])
  then have "wf_lines ((l', e) # ys)" using assms(2,3) by (cases "ys = []") auto
  with wf_take_drop [OF assms(1)] assms(3) show ?thesis by (intro wf_append) auto
qed

definition close_last :: "(string \<times> string) list \<Rightarrow> string \<Rightarrow> (string \<times> string) list" where
  \<comment> \<open>the lines with an ending of the last one\<close>
  "close_last xs nl = (if snd (last xs) = [] then butlast xs @ [(fst (last xs), nl)] else xs)"

lemma close_last_parts:
  assumes "xs \<noteq> []"
  shows "map fst (close_last xs nl) = map fst xs"
    and "join_lines (close_last xs nl) = join_lines xs @ (if snd (last xs) = [] then nl else [])"
    and "nl \<noteq> [] \<Longrightarrow> snd (last (close_last xs nl)) \<noteq> []"
    and "wf_lines xs \<Longrightarrow> nl \<in> endings \<Longrightarrow> wf_lines (close_last xs nl)"
proof -
  obtain ys l e where xs: "xs = ys @ [(l, e)]" using assms by (cases xs rule: rev_cases) force+
  show "map fst (close_last xs nl) = map fst xs"
    "join_lines (close_last xs nl) = join_lines xs @ (if snd (last xs) = [] then nl else [])"
    "nl \<noteq> [] \<Longrightarrow> snd (last (close_last xs nl)) \<noteq> []"
    by (simp_all add: xs close_last_def)
  assume wf: "wf_lines xs" and nl: "nl \<in> endings"
  show "wf_lines (close_last xs nl)"
  proof (cases "e = []")
    case True
    with wf have "l \<noteq> []" "no_break l" "wf_lines ys" "ys = [] \<or> snd (last ys) \<noteq> []"
      using wf_take_drop [of ys "[(l, e)]"] by (auto simp: xs)
    then show ?thesis using True nl by (auto simp: xs close_last_def intro!: wf_append)
  qed (use wf in \<open>simp add: xs close_last_def\<close>)
qed

lemma ends_with_newline_iff:
  assumes "wf_lines xs" and "xs \<noteq> []"
  shows "ends_with_newline (join_lines xs) \<longleftrightarrow> snd (last xs) \<noteq> []"
proof -
  obtain ys l e where xs: "xs = ys @ [(l, e)]" using assms(2) by (cases xs rule: rev_cases) force+
  have le: "no_break l" "e \<in> endings \<or> (e = [] \<and> l \<noteq> [])" using wf_take_drop [of ys "[(l, e)]"] assms(1) by (auto simp: xs)
  show ?thesis
  proof (cases "e = []")
    case True
    with le have "last l \<noteq> CR" "last l \<noteq> LF" "l \<noteq> []" using no_break_last [of l] by auto
    then have "\<not> ends_with_newline (l :: string)" "\<not> ends_with_newline (join_lines ys @ l)"
      by (cases l rule: rev_cases; auto simp: ends_with_newline_def ends_with_def starts_with_def)+
    then show ?thesis by (simp add: xs True)
  next
    case False
    with le have "e \<in> endings" by blast
    then show ?thesis by (auto simp: xs ends_with_newline_def ends_with_def starts_with_def)
  qed
qed

lemma first_newline_ending: "(case first_newline t of None \<Rightarrow> [LF] | Some n \<Rightarrow> n) \<in> endings"
  by (auto simp: first_newline_def split: list.splits)

lemma insert_line_fst:
  "n \<le> length lines \<Longrightarrow> map fst (insert_line lines n v nl f) = take n (map fst lines) @ v # drop n (map fst lines)"
  by (cases lines rule: rev_cases) (auto simp: insert_line_def take_map drop_map)

lemma insert_line_wf:
  assumes "wf_lines (xs @ ys)" and "ys = [] \<or> fst (hd ys) \<noteq> []" and "nl \<in> endings" and "no_break v" and "v \<noteq> []"
  shows "wf_lines (insert_line (xs @ ys) (length xs) v nl f)"
proof (cases "ys = []")
  case False
  then have split: "insert_line (xs @ ys) (length xs) v nl f = xs @ (v, nl) # ys" by (simp add: insert_line_def)
  note parts = wf_take_drop [OF assms(1)]
  have "wf_lines ((v, nl) # ys)" using parts assms False wf_start [of ys] by auto
  with parts False assms(5) show ?thesis unfolding split by (intro wf_append) auto
next
  case True
  show ?thesis
  proof (cases "xs = []")
    case True
    then show ?thesis using assms(3,4,5) \<open>ys = []\<close> by (auto simp: insert_line_def)
  next
    case False
    have new: "insert_line (xs @ ys) (length xs) v nl f
        = close_last xs nl @ [(v, if f \<and> snd (last xs) \<noteq> [] then nl else [])]"
      using True False by (simp add: insert_line_def close_last_def)
    show ?thesis
      unfolding new using assms True False close_last_parts(3,4) [OF False, of nl] by (intro wf_append) auto
  qed
qed

section \<open>Names in a line\<close>

lemma casefold_Nil [simp]: "casefold s = [] \<longleftrightarrow> s = []"
  by (cases s) (simp_all add: casefold_def fold_char_def)

lemma casefold_start: "casefold x = casefold y \<Longrightarrow> starts_with ''['' x \<longleftrightarrow> starts_with ''['' y"
proof -
  have hd: "starts_with ''['' x \<longleftrightarrow> x \<noteq> [] \<and> hd (casefold x) = 91" for x
  proof (cases x)
    case (Cons c s)
    have "code (lower_char c) = 91 \<longleftrightarrow> c = CHR ''[''"
    proof
      assume "code (lower_char c) = 91"
      then have "code c = 91 \<or> (code c + 32 = 91 \<and> 65 \<le> code c) \<or> (192 \<le> code c \<and> code c + 32 = 91)"
        using code_less_256 [of c] by (auto simp: lower_char_def Let_def split: if_splits)
      then have "code c = code CHR ''[''" by (auto simp: code_def [of "CHR ''[''"])
      then show "c = CHR ''[''" by (metis char_of_code)
    qed (simp add: lower_char_def code_def)
    moreover have "code CHR ''['' = 91" by (simp add: code_def)
    ultimately show ?thesis
      by (auto simp: Cons casefold_def fold_char_def starts_with_def)
  qed (simp add: casefold_def starts_with_def)
  assume "casefold x = casefold y"
  then show ?thesis unfolding hd by (metis casefold_Nil)
qed

definition clean_name :: "string \<Rightarrow> bool" where
  \<comment> \<open>a name without the line boundary NEL, which the validators let through\<close>
  "clean_name v = (CHR 0x85 \<notin> set v)"

lemma no_break_name: "list_all (\<lambda>c. \<not> code c < 32) v \<Longrightarrow> clean_name v \<Longrightarrow> no_break v"
proof -
  assume v: "list_all (\<lambda>c. \<not> code c < 32) v" and c: "clean_name v"
  have "\<not> is_break x" if "x \<in> set v" for x
  proof
    assume "is_break x"
    moreover have "\<not> code x < 32" using v that by (auto simp: list_all_iff)
    ultimately have "code x = code CHR 0x85" by (auto simp: is_break_def Let_def code_def [of "CHR 0x85"])
    then have "x = CHR 0x85" by (metis char_of_code)
    with that c show False by (simp add: clean_name_def)
  qed
  then show ?thesis by (simp add: no_break_def list_all_iff)
qed

lemma deck_name_ok:
  assumes "\<not> unsafe_deck_name v"
  shows "v \<noteq> []" and "strip v = v" and "CHR ''='' \<notin> set v" and "hd v \<noteq> CHR '';''" and "hd v \<noteq> CHR ''#''"
    and "list_all (\<lambda>c. \<not> code c < 32) v"
  using assms by (cases v; auto simp: unsafe_deck_name_def starts_with_def list_ex_iff list_all_iff)+

lemma config_dir_ok:
  assumes "\<not> unsafe_config_dir v"
  shows "v \<noteq> []" and "strip v = v" and "list_all (\<lambda>c. \<not> code c < 32) v"
  using assms by (auto simp: unsafe_config_dir_def list_ex_iff list_all_iff)

definition reads_as_section :: "string \<Rightarrow> string \<Rightarrow> bool" where
  \<comment> \<open>the line \<open>name = dir\<close> would be taken for a section header\<close>
  "reads_as_section name dir = (starts_with ''['' name \<and> ends_with '']'' dir)"

lemma mapping_line:
  assumes name: "\<not> unsafe_deck_name name" and dir: "\<not> unsafe_config_dir dir" "\<not> reads_as_section name dir"
    and l: "l = b @ CHR ''='' # r" "CHR ''='' \<notin> set b" "casefold (strip b) = casefold name"
      "hd (strip b) \<noteq> CHR '';''" "hd (strip b) \<noteq> CHR ''#''" "strip r = dir"
  shows "\<not> is_section (strip l)" and "is_mapping target l \<longleftrightarrow> target = casefold name" and "value_of l = dir"
proof -
  have "strip b \<noteq> []" using l(3) deck_name_ok(1) [OF name] by (metis casefold_Nil)
  then show "\<not> is_section (strip l)"
    using l dir config_dir_ok(1) [OF dir(1)] casefold_start [OF l(3)]
    by (simp add: is_section_line reads_as_section_def)
  show "is_mapping target l \<longleftrightarrow> target = casefold name"
    using is_mapping_line [OF l(2) \<open>strip b \<noteq> []\<close>] l by auto
  show "value_of l = dir" using l by (simp add: value_of_append)
qed

section \<open>What rendering does to the mappings\<close>

definition edited :: "string \<Rightarrow> string \<Rightarrow> string \<Rightarrow> (string \<times> string) list \<Rightarrow> (string \<times> string) list \<Rightarrow> bool" where
  \<comment> \<open>the lines of the new text are well-formed, the mapping of the deck is the given one and
    those of the others are as before\<close>
  "edited name dir t ls ls' =
     (wf_lines ls' \<and> values_in (casefold name) False (map fst ls') = [dir]
      \<and> (\<forall>target. target \<noteq> casefold name \<longrightarrow>
           values_in target False (map fst ls') = values_in target False (map fst ls)))"

lemma replace_edited:
  assumes name: "\<not> unsafe_deck_name name" and dir: "\<not> unsafe_config_dir dir" "\<not> reads_as_section name dir" "clean_name dir"
    and t: "plain t" and match: "mapping_indexes t name = [i]" and line: "split_lines t ! i = (l, e)"
  shows "edited name dir t (split_lines t) ((split_lines t)[i := (replace_value l dir, e)])"
proof -
  obtain xs l' e' ys where ls: "split_lines t = xs @ (l', e') # ys" "i = length xs"
    and st: "state_after False (map fst xs)" and sec: "\<not> is_section (strip l')" and map: "is_mapping (casefold name) l'"
    using mapping_scan_split [of i "casefold name" 0 False "split_lines t"] match by (auto simp: mapping_indexes_def)
  have le: "l' = l" "e' = e" using line ls by (simp_all add: nth_append)
  obtain b r where br: "l = b @ CHR ''='' # r" "CHR ''='' \<notin> set b"
    using line_split [of l] map le by (auto simp: is_mapping_def Let_def)
  have key: "casefold (strip b) = casefold name" using map le br by (simp add: is_mapping_def Let_def key_of_append)
  then have nb: "strip b \<noteq> []" using deck_name_ok(1) [OF name] by (metis casefold_Nil)
  have start: "hd (strip b) \<noteq> CHR '';''" "hd (strip b) \<noteq> CHR ''#''"
    using map le br(1) is_mapping_line [OF br(2) nb] by auto
  obtain u v where new: "replace_value l dir = b @ CHR ''='' # u @ dir @ v"
    and uv: "list_all is_space u" "list_all is_space v" "set u \<subseteq> set r" "set v \<subseteq> set r"
    using replace_value_parts [OF br(2), of r dir] br(1) by blast
  have "clean is_space dir" using config_dir_ok(2) [OF dir(1)] by (metis clean_strip)
  then have "strip (u @ dir @ v) = dir" by (rule strip_padded [OF uv(1,2)])
  note new_line = mapping_line [OF name dir(1,2) new br(2) key start this]
  have wf: "wf_lines (xs @ (l, e) # ys)" using split_lines_wf [OF t] ls le by simp
  then have "no_break l" using wf_take_drop [of xs "(l, e) # ys"] by auto
  then have "no_break (replace_value l dir)"
    using uv(3,4) no_break_name [OF config_dir_ok(3) [OF dir(1)] dir(3)] new br(1)
    by (auto simp: no_break_def list_all_iff)
  then have wf': "wf_lines (xs @ (replace_value l dir, e) # ys)"
    using wf by (rule_tac wf_replace) (auto simp: new)
  have upd: "(split_lines t)[i := (replace_value l dir, e)] = xs @ (replace_value l dir, e) # ys"
    using ls by simp
  have "length (values_in (casefold name) False (map fst (split_lines t))) = 1"
    using match mapping_scan_length [of "casefold name" 0 False "split_lines t"] by (simp add: mapping_indexes_def)
  then have none: "values_in (casefold name) False (map fst xs) = []" "values_in (casefold name) True (map fst ys) = []"
    using st sec map by (simp_all add: ls values_in_append)
  have old_line: "\<not> is_mapping target l" if "target \<noteq> casefold name" for target
    using that is_mapping_line [OF br(2) nb, of target r] br(1) key by auto
  show ?thesis
    unfolding edited_def upd
    using wf' none st sec map new_line old_line by (simp add: ls le values_in_append)
qed

lemma values_section: "ls = [] \<or> is_section (strip (hd ls)) \<Longrightarrow> ls \<noteq> [] \<Longrightarrow> values_in target c ls = values_in target c' ls"
  by (cases ls) auto

lemma configs_range_open:
  "configs_range k (Some s) ls = Some (s', n) \<Longrightarrow>
     \<exists>xs ys. ls = xs @ ys \<and> state_after True (map fst xs)
       \<and> (case n of None \<Rightarrow> ys = [] | Some e \<Rightarrow> e = k + length xs \<and> ys \<noteq> [] \<and> is_section (strip (fst (hd ys))))"
proof (induction ls arbitrary: k)
  case (Cons le ls)
  obtain l e where le: "le = (l, e)" by force
  show ?case
  proof (cases "is_section (strip l)")
    case True
    with Cons.prems show ?thesis by (intro exI [of _ "[]"] exI [of _ "le # ls"]) (auto simp: le)
  next
    case False
    with Cons.prems have "configs_range (Suc k) (Some s) ls = Some (s', n)" by (simp add: le)
    from Cons.IH [OF this] obtain xs ys where "ls = xs @ ys" "state_after True (map fst xs)"
      "case n of None \<Rightarrow> ys = [] | Some e \<Rightarrow> e = Suc k + length xs \<and> ys \<noteq> [] \<and> is_section (strip (fst (hd ys)))"
      by blast
    with False show ?thesis
      by (intro exI [of _ "le # xs"] exI [of _ ys]) (auto simp: le split: option.splits)
  qed
qed auto

lemma configs_range_found:
  "configs_range k None ls = Some (s', n) \<Longrightarrow>
     \<exists>xs ys. ls = xs @ ys \<and> state_after c (map fst xs)
       \<and> (case n of None \<Rightarrow> ys = [] | Some e \<Rightarrow> e = k + length xs \<and> ys \<noteq> [] \<and> is_section (strip (fst (hd ys))))"
proof (induction ls arbitrary: k c)
  case (Cons le ls)
  obtain l e where le: "le = (l, e)" by force
  have "\<exists>xs ys. ls = xs @ ys
      \<and> state_after (if is_section (strip l) then configs_header (strip l) else c) (map fst xs)
      \<and> (case n of None \<Rightarrow> ys = [] | Some e \<Rightarrow> e = Suc k + length xs \<and> ys \<noteq> [] \<and> is_section (strip (fst (hd ys))))"
  proof (cases "is_section (strip l) \<and> configs_header (strip l)")
    case True
    with Cons.prems configs_range_open [of "Suc k" k ls s' n] show ?thesis by (simp add: le)
  next
    case False
    with Cons.prems have "configs_range (Suc k) None ls = Some (s', n)" by (auto simp: le split: if_splits)
    from Cons.IH [OF this] show ?thesis .
  qed
  then obtain xs ys where "ls = xs @ ys"
    "state_after (if is_section (strip l) then configs_header (strip l) else c) (map fst xs)"
    "case n of None \<Rightarrow> ys = [] | Some e \<Rightarrow> e = Suc k + length xs \<and> ys \<noteq> [] \<and> is_section (strip (fst (hd ys)))"
    by blast
  then show ?case
    by (intro exI [of _ "le # xs"] exI [of _ ys]) (auto simp: le split: option.splits)
qed auto

lemma header_line: "is_section (strip ''[CONFIGS]'')" "configs_header (strip ''[CONFIGS]'')" "no_break ''[CONFIGS]''"
  by code_simp+

lemma inserted_values:
  assumes line: "\<not> is_section (strip l)" "\<And>target. is_mapping target l \<longleftrightarrow> target = casefold name" "value_of l = dir"
    and state: "state_after False (map fst xs)" and ys: "ys = [] \<or> is_section (strip (fst (hd ys)))"
    and none: "values_in (casefold name) False (map fst (xs @ ys)) = []"
  shows "values_in (casefold name) False (map fst xs @ l # map fst ys) = [dir]"
    and "target \<noteq> casefold name \<Longrightarrow>
      values_in target False (map fst xs @ l # map fst ys) = values_in target False (map fst (xs @ ys))"
  using assms by (auto simp: values_in_append)

lemma insert_edited:
  assumes name: "\<not> unsafe_deck_name name" "clean_name name"
    and dir: "\<not> unsafe_config_dir dir" "\<not> reads_as_section name dir" "clean_name dir"
    and t: "plain t" and none: "mapping_indexes t name = []"
  shows "\<exists>ls'. insert_mapping t name dir = join_lines ls' \<and> edited name dir t (split_lines t) ls'"
proof -
  let ?l = "name @ '' = '' @ dir" and ?nl = "case first_newline t of None \<Rightarrow> [LF] | Some n \<Rightarrow> n"
  let ?f = "ends_with_newline t" and ?ls = "split_lines t"
  have nl: "?nl \<in> endings" by (rule first_newline_ending)
  note nd = deck_name_ok [OF name(1)] and cd = config_dir_ok [OF dir(1)]
  have b: "?l = (name @ '' '') @ CHR ''='' # ('' '' @ dir)" "CHR ''='' \<notin> set (name @ '' '')"
    using nd(3) by simp_all
  have clean: "clean is_space name" "clean is_space dir" using nd(2) cd(2) clean_strip by metis+
  have space: "list_all is_space '' ''" by (simp add: is_space_def code_def)
  have stripped: "strip (name @ '' '') = name" "strip ('' '' @ dir) = dir"
    using strip_padded [of "[]" "'' ''" name] strip_padded [of "'' ''" "[]" dir] clean space by simp_all
  note line = mapping_line [OF name(1) dir(1,2) b]
  have line': "\<not> is_section (strip ?l)" "\<And>target. is_mapping target ?l \<longleftrightarrow> target = casefold name" "value_of ?l = dir"
    using line stripped nd(4,5) by auto
  have nb: "no_break ?l"
    using no_break_name [OF nd(6) name(2)] no_break_name [OF cd(3) dir(3)]
    by (auto simp: no_break_def is_break_def code_def)
  have wf: "wf_lines ?ls" and jt: "join_lines ?ls = t" using split_lines_wf [OF t] join_split_lines [OF t] .
  have empty: "values_in (casefold name) False (map fst ?ls) = []"
    using none mapping_scan_length [of "casefold name" 0 False ?ls] by (simp add: mapping_indexes_def)
  show ?thesis
  proof (cases "configs_range 0 None ?ls")
    case (Some sn)
    then obtain s n where sn: "configs_range 0 None ?ls = Some (s, n)" by (cases sn) auto
    then obtain xs ys where ls: "?ls = xs @ ys" and st: "state_after False (map fst xs)"
      and n: "case n of None \<Rightarrow> ys = [] | Some e \<Rightarrow> e = length xs \<and> ys \<noteq> [] \<and> is_section (strip (fst (hd ys)))"
      using configs_range_found [OF sn, of False] unfolding add_0 by blast
    then have pos: "(case n of Some e \<Rightarrow> e | None \<Rightarrow> length ?ls) = length xs"
      and ys: "ys = [] \<or> is_section (strip (fst (hd ys)))" by (auto split: option.splits)
    then have "ys = [] \<or> fst (hd ys) \<noteq> []" by (auto simp: is_section_def)
    then have "wf_lines (insert_line ?ls (length xs) ?l ?nl ?f)"
      unfolding ls using wf nl nb by (intro insert_line_wf) (auto simp: ls)
    moreover have "map fst (insert_line ?ls (length xs) ?l ?nl ?f) = map fst xs @ ?l # map fst ys"
      by (subst insert_line_fst) (simp_all add: ls)
    moreover have "insert_mapping t name dir = join_lines (insert_line ?ls (length xs) ?l ?nl ?f)"
      using pos by (simp add: insert_mapping_def Let_def sn)
    ultimately show ?thesis
      using inserted_values [OF line' st ys] empty
      by (intro exI [of _ "insert_line ?ls (length xs) ?l ?nl ?f"]) (simp add: edited_def ls)
  next
    case None
    let ?xs = "if ?ls = [] then [] else close_last ?ls ?nl"
    let ?new = "?xs @ [(''[CONFIGS]'', ?nl), (?l, if ?ls \<noteq> [] \<and> ?f then ?nl else [])]"
    have xs: "map fst ?xs = map fst ?ls" "wf_lines ?xs" "?xs = [] \<or> snd (last ?xs) \<noteq> []"
      using close_last_parts [of ?ls ?nl] wf nl by auto
    have "wf_lines [(''[CONFIGS]'', ?nl), (?l, if ?ls \<noteq> [] \<and> ?f then ?nl else [])]"
      using nl nb header_line(3) no_break_start [OF nb, of "[]"] no_break_start [OF nb, of ?nl] by auto
    then have "wf_lines ?new" using xs by (intro wf_append) auto
    moreover have "edited name dir t ?ls ?new" if "wf_lines ?new"
    proof -
      let ?ys = "?xs @ [(''[CONFIGS]'', ?nl)]"
      have names: "map fst ?ys = map fst ?ls @ [''[CONFIGS]'']" using xs(1) by simp
      have st: "state_after False (map fst ?ys)" unfolding names by (simp add: state_after_append header_line)
      have vals: "values_in target False (map fst (?ys @ [])) = values_in target False (map fst ?ls)" for target
        unfolding append_Nil2 names by (simp add: values_in_append header_line)
      have "map fst ?new = map fst ?ys @ ?l # map fst ([] :: (string \<times> string) list)" by simp
      then show ?thesis
        using that inserted_values [OF line' st, of "[]"] empty vals by (simp only: edited_def) blast
    qed
    moreover have "insert_mapping t name dir = join_lines ?new"
    proof (cases "?ls = []")
      case True
      with jt have "t = []" by simp
      then show ?thesis using None True by (simp add: insert_mapping_def)
    next
      case False
      with jt have "t \<noteq> []" using ends_with_newline_iff [OF wf False] wf by (cases ?ls) (auto split: if_splits)
      then show ?thesis
        using None False close_last_parts(2) [OF False, of ?nl] ends_with_newline_iff [OF wf False] jt
        by (simp add: insert_mapping_def Let_def)
    qed
    ultimately show ?thesis by blast
  qed
qed

section \<open>Bytes\<close>

lemma no_bom: "\<not> starts_with utf8_bom (utf8_encode r)"
proof (cases r)
  case (Cons c cs)
  have "code c div 64 < 4" using code_less_256 [of c] by auto
  then have less: "192 + code c div 64 < 196" by simp
  then have "code (char_of (192 + code c div 64)) < 196" by (subst code_char_of) simp_all
  then have "char_of (192 + code c div 64) \<noteq> CHR 0xEF" by (auto simp: code_def [of "CHR 0xEF"])
  moreover have "code c < 128 \<Longrightarrow> c \<noteq> CHR 0xEF" by (auto simp: code_def)
  ultimately show ?thesis
    by (auto simp: Cons utf8_encode_def utf8_char_def utf8_bom_def starts_with_def Let_def)
qed (simp add: utf8_encode_def utf8_bom_def starts_with_def)

lemma decode_encode: "decode_config ((if bom then utf8_bom else []) @ utf8_encode r) = Inr (r, bom)"
proof (cases bom)
  case True
  have "drop 3 (utf8_bom @ utf8_encode r) = utf8_encode r" by (simp add: utf8_bom_def)
  with True show ?thesis by (simp add: decode_config_def utf8_roundtrip)
next
  case False
  with no_bom [of r] show ?thesis by (simp add: decode_config_def utf8_roundtrip)
qed

lemma edited_text:
  assumes "edited name dir t (split_lines t) ls'"
  shows "mapping_values (join_lines ls') name = [dir]"
    and "casefold other \<noteq> casefold name \<Longrightarrow> mapping_values (join_lines ls') other = mapping_values t other"
  using assms by (simp_all add: edited_def mapping_values_in split_lines_join)

lemma rendered:
  assumes render: "render_deck_config snapshot name dir = Inr out"
    and decode: "decode_config (case content snapshot of None \<Rightarrow> [] | Some b \<Rightarrow> b) = Inr (t, bom)"
    and t: "plain t" and names: "clean_name name" "clean_name dir" "\<not> reads_as_section name dir"
  obtains t' where "decode_config out = Inr (t', bom)" and "mapping_values t' name = [dir]"
    and "\<And>other. casefold other \<noteq> casefold name \<Longrightarrow> mapping_values t' other = mapping_values t other"
    and "\<not> unsafe_deck_name name" and "\<not> unsafe_config_dir dir"
proof -
  from render decode obtain r where nd: "\<not> unsafe_deck_name name" "\<not> unsafe_config_dir dir"
    and r: "render_text t name dir = Inr r"
    and result: "(case r of None \<Rightarrow> Inr (case content snapshot of None \<Rightarrow> [] | Some b \<Rightarrow> b)
        | Some x \<Rightarrow> Inr ((if bom then utf8_bom else []) @ utf8_encode x)) = (Inr out :: string res)"
    by (auto simp: render_deck_config_def validate_deck_name_def validate_config_dir_def Let_def)
  have out: "out = (case r of None \<Rightarrow> (case content snapshot of None \<Rightarrow> [] | Some b \<Rightarrow> b)
        | Some x \<Rightarrow> (if bom then utf8_bom else []) @ utf8_encode x)"
    using result by (cases r) auto
  show thesis
  proof (cases "mapping_indexes t name")
    case Nil
    then have r': "r = Some (insert_mapping t name dir)" using r by (simp add: render_text_def)
    obtain ls' where "insert_mapping t name dir = join_lines ls'" "edited name dir t (split_lines t) ls'"
      using insert_edited [OF nd(1) names(1) nd(2) names(3,2) t Nil] by blast
    with r' out nd edited_text show thesis by (intro that [of "join_lines ls'"]) (auto simp: decode_encode)
  next
    case (Cons i rest)
    with r have i: "mapping_indexes t name = [i]" by (auto simp: render_text_def Let_def split: if_splits)
    obtain l e where le: "split_lines t ! i = (l, e)" by force
    show thesis
    proof (cases "value_of l = dir")
      case True
      then have "r = None" using r i le by (simp add: render_text_def)
      moreover have "mapping_values t name = [dir]" using True i le by (simp add: mapping_values_def)
      ultimately show thesis using out decode nd by (intro that [of t]) auto
    next
      case False
      then have "r = Some (join_lines ((split_lines t)[i := (replace_value l dir, e)]))"
        using r i le by (simp add: render_text_def)
      with out nd edited_text [OF replace_edited [OF nd names(3,2) t i le]] show thesis
        by (intro that [of "join_lines ((split_lines t)[i := (replace_value l dir, e)])"]) (auto simp: decode_encode)
    qed
  qed
qed

section \<open>Properties\<close>


text \<open>
  C32. Rendering keeps the byte order mark and, on an ordinary file, the mappings of every other
  deck: a deck whose name differs by more than its case has the same values as before. The file is
  ordinary if carriage return and line feed are its only line boundaries (\<open>plain\<close>); besides, the
  name and the directory do not hold the line boundary NEL (\<open>clean_name\<close>) and the new mapping does
  not read as a section header. Without the first condition a mapping of another deck can be lost
  (\<open>rendering_loses_other_deck\<close> below).
\<close>
theorem rendering_keeps_other_decks:
  assumes "render_deck_config snapshot name dir = Inr out"
    and "decode_config (case content snapshot of None \<Rightarrow> [] | Some b \<Rightarrow> b) = Inr (t, bom)" and "plain t"
    and "clean_name name" and "clean_name dir" and "\<not> reads_as_section name dir"
    and "casefold other \<noteq> casefold name"
  shows "\<exists>t'. decode_config out = Inr (t', bom) \<and> mapping_values t' other = mapping_values t other"
  using assms(7) by (auto intro: rendered [OF assms(1-6)])

text \<open>
  Rendering is idempotent: rendering the same directory into the rendered file returns its
  bytes unchanged.
\<close>
theorem rendering_idempotent:
  assumes "render_deck_config snapshot name dir = Inr out"
    and "decode_config (case content snapshot of None \<Rightarrow> [] | Some b \<Rightarrow> b) = Inr (t, bom)" and "plain t"
    and "clean_name name" and "clean_name dir" and "\<not> reads_as_section name dir"
    and "existed again" and "content again = Some out"
  shows "render_deck_config again name dir = Inr out"
proof -
  obtain t' where t': "decode_config out = Inr (t', bom)" "mapping_values t' name = [dir]"
    "\<not> unsafe_deck_name name" "\<not> unsafe_config_dir dir"
    by (rule rendered [OF assms(1-6)])
  then obtain i where i: "mapping_indexes t' name = [i]" "value_of (fst (split_lines t' ! i)) = dir"
    by (auto simp: mapping_values_def)
  obtain l e where "split_lines t' ! i = (l, e)" by force
  with i have "render_text t' name dir = Inr None" by (simp add: render_text_def)
  with t' assms(7,8) show ?thesis
    by (simp add: render_deck_config_def validate_deck_name_def validate_config_dir_def raise_if_def)
qed

definition ini_text :: string where
  \<comment> \<open>a file with another deck and a section after the mappings\<close>
  "ini_text = ''[CONFIGS]'' @ [CR, LF] @ ''Odd = one'' @ [CR, LF] @ ''[X]'' @ [CR, LF] @ ''A = b'' @ [CR, LF]"

definition ini_snapshot :: deck_config_snapshot where
  "ini_snapshot = \<lparr>existed = True, content = Some ini_text, sha256 = None, selected_config_dir = None\<rparr>"

definition ini_result :: string where
  "ini_result = ''[CONFIGS]'' @ [CR, LF] @ ''Odd = one'' @ [CR, LF] @ ''New = dir'' @ [CR, LF] @ ''[X]'' @ [CR, LF]
     @ ''A = b'' @ [CR, LF]"

lemma ini_example:
  "render_deck_config ini_snapshot ''New'' ''dir'' = Inr ini_result"
  "decode_config (case content ini_snapshot of None \<Rightarrow> [] | Some b \<Rightarrow> b) = Inr (ini_text, False)"
  "plain ini_text" "clean_name ''New''" "clean_name ''dir''" "\<not> reads_as_section ''New'' ''dir''"
  "int (length ini_result) \<le> MAX_DECK_CONFIG_BYTES" "casefold ''Odd'' \<noteq> casefold ''New''"
  by code_simp+


theorem rendering_keeps_other_decks_witness:
  "\<exists>t'. decode_config ini_result = Inr (t', False) \<and> mapping_values t' ''Odd'' = mapping_values ini_text ''Odd''"
  by (rule rendering_keeps_other_decks [OF ini_example(1-6) ini_example(8)])

theorem rendering_idempotent_witness:
  "render_deck_config \<lparr>existed = True, content = Some ini_result, sha256 = None, selected_config_dir = None\<rparr>
     ''New'' ''dir'' = Inr ini_result"
  by (rule rendering_idempotent [OF ini_example(1-6)]) simp_all

text \<open>
  On a text with another line boundary the mappings of other decks are not kept: the vertical
  tab that \<open>str.splitlines\<close> finds between two mappings stays in the line of the first, where it
  counts as a blank, and is dropped with the old value. The deck of the second mapping is lost
  and its text becomes part of the first value.
\<close>
theorem rendering_loses_other_deck:
  "let t = ''[CONFIGS]'' @ [LF] @ ''A = x'' @ [CHR 0x0B] @ ''B = y'' @ [LF] in
   mapping_values t ''A'' = [''x''] \<and> mapping_values t ''B'' = [''y'']
   \<and> render_text t ''A'' ''z'' = Inr (Some (''[CONFIGS]'' @ [LF] @ ''A = zB = y'' @ [LF]))
   \<and> mapping_values (''[CONFIGS]'' @ [LF] @ ''A = zB = y'' @ [LF]) ''A'' = [''zB = y'']
   \<and> mapping_values (''[CONFIGS]'' @ [LF] @ ''A = zB = y'' @ [LF]) ''B'' = []"
  by code_simp

end
