(* ===== verification/RuntimeState.thy ===== *)
theory RuntimeState
  imports TransactionJournal "HOL-Library.Multiset" "HOL-Library.Product_Lexorder"
begin

text \<open>
  The advisory state file \<open>.hsconfig/state.json\<close> of a runtime root
  (\<open>src/src/hsconfig/runtime_state.py\<close>): which deck has which config directory. The theory models
  the conditions of a state, its canonical bytes, the reader, and proves that the reader accepts
  the canonical bytes of the sorted state and nothing else. Sizes, links and identities of the file
  in the file system are checked by the code and not modelled.
\<close>

section \<open>Data\<close>

record runtime_deck_state =
  ds_state_key :: string
  ds_deck_name :: string
  ds_config_dir :: string
  ds_package_root_sha256 :: string
  ds_ini_sha256 :: string

record runtime_state =
  st_schema_version :: int
  st_decks :: "runtime_deck_state list"

definition STATE_SCHEMA_VERSION :: int where "STATE_SCHEMA_VERSION = 1"
definition MAX_STATE_BYTES :: int where "MAX_STATE_BYTES = 1024 * 1024"
definition MAX_DECKS :: int where "MAX_DECKS = 1024"
definition STATE_NAME_LENGTH :: int where "STATE_NAME_LENGTH = 255"

definition STATE_RESERVED :: "string list" where
  "STATE_RESERVED =
     [''CON'', ''PRN'', ''AUX'', ''NUL''] @ map (\<lambda>n. ''COM'' @ nat_digits n) [1..<10]
     @ map (\<lambda>n. ''LPT'' @ nat_digits n) [1..<10]"

definition STATE_KEYS :: "string list" where "STATE_KEYS = [''schema_version'', ''decks'']"

definition DECK_KEYS :: "string list" where
  "DECK_KEYS = [''state_key'', ''deck_name'', ''config_dir'', ''package_root_sha256'', ''ini_sha256'']"

section \<open>Conditions\<close>

definition upper_char :: "char \<Rightarrow> nat list" where
  \<comment> \<open>\<open>str.upper\<close> of one character, as code points: the sharp s becomes two letters; the micro sign and
    the y with diaeresis leave the first 256 code points\<close>
  "upper_char c =
     (let n = code c in
      if n = 223 then [83, 83] else if n = 181 then [924] else if n = 255 then [376]
      else if (97 \<le> n \<and> n \<le> 122) \<or> (224 \<le> n \<and> n \<noteq> 247) then [n - 32] else [n])"

definition upper :: "string \<Rightarrow> nat list" where
  "upper s = concat (map upper_char s)"

definition state_deck_name_unsafe :: "string \<Rightarrow> bool" where
  "state_deck_name_unsafe v =
     (v = [] \<or> v \<noteq> strip v \<or> int (length v) > STATE_NAME_LENGTH
      \<or> starts_with '';'' v \<or> starts_with ''#'' v
      \<or> list_ex (\<lambda>c. c \<in> {CHR 0x0D, CHR 0x0A, CHR ''='', CHR 0x00}) v \<or> list_ex (\<lambda>c. code c < 32) v)"

definition state_child_name_unsafe :: "string \<Rightarrow> bool" where
  \<comment> \<open>\<open>Path(value).name != value\<close> asks for a single component\<close>
  "state_child_name_unsafe v =
     (v = [] \<or> v \<noteq> strip v \<or> int (length v) > STATE_NAME_LENGTH \<or> v \<in> {''.'', ''..''}
      \<or> last (split_on CHR ''/'' v) \<noteq> v
      \<or> list_ex (\<lambda>c. c \<in> set ''<>:/|?*'' \<or> c \<in> {CHR 0x22, CHR 0x5C, CHR 0x00}) v
      \<or> list_ex (\<lambda>c. code c < 32) v
      \<or> ends_with ''.'' v \<or> ends_with '' '' v
      \<or> upper (hd (split_on CHR ''.'' v)) \<in> set (map (map code) STATE_RESERVED))"

definition state_schema_error :: exn where "state_schema_error = ValueError ''runtime_state_invalid_schema''"
definition state_name_error :: exn where "state_name_error = ValueError ''runtime_state_unsafe_name''"
definition state_digest_error :: exn where "state_digest_error = ValueError ''runtime_state_invalid_digest''"
definition state_duplicate_error :: exn where "state_duplicate_error = ValueError ''runtime_state_duplicate_identity''"

definition deck_checks :: "runtime_deck_state \<Rightarrow> unit res" where
  "deck_checks d = checks
     [raise_if (state_child_name_unsafe (ds_state_key d)) state_name_error,
      raise_if (state_deck_name_unsafe (ds_deck_name d)) state_name_error,
      raise_if (state_child_name_unsafe (ds_config_dir d)) state_name_error,
      ensure (is_sha256_hex (ds_package_root_sha256 d)) state_digest_error,
      ensure (is_sha256_hex (ds_ini_sha256 d)) state_digest_error]"

fun validate_decks :: "runtime_deck_state list \<Rightarrow> nat list set \<Rightarrow> nat list set \<Rightarrow> unit res" where
  \<comment> \<open>the loop over the decks, with the state keys and deck names seen so far\<close>
  "validate_decks [] seen_keys seen_names = Inr ()"
| "validate_decks (d # ds) seen_keys seen_names =
     rbind (deck_checks d) (\<lambda>_.
     if casefold (ds_state_key d) \<in> seen_keys \<or> casefold (ds_deck_name d) \<in> seen_names
     then Inl state_duplicate_error
     else validate_decks ds (insert (casefold (ds_state_key d)) seen_keys) (insert (casefold (ds_deck_name d)) seen_names))"

definition validate_runtime_state :: "runtime_state \<Rightarrow> unit res" where
  "validate_runtime_state s =
     (if st_schema_version s \<noteq> STATE_SCHEMA_VERSION \<or> int (length (st_decks s)) > MAX_DECKS then Inl state_schema_error
      else validate_decks (st_decks s) {} {})"

section \<open>Bytes\<close>

definition deck_order :: "runtime_deck_state \<Rightarrow> nat list \<times> string" where
  "deck_order d = (casefold (ds_state_key d), ds_state_key d)"

definition ordered_decks :: "runtime_deck_state list \<Rightarrow> runtime_deck_state list" where
  "ordered_decks ds = sort_key deck_order ds"

definition deck_items :: "runtime_deck_state \<Rightarrow> dict" where
  \<comment> \<open>\<open>asdict(deck)\<close>\<close>
  "deck_items d =
     [(''state_key'', PStr (ds_state_key d)), (''deck_name'', PStr (ds_deck_name d)),
      (''config_dir'', PStr (ds_config_dir d)), (''package_root_sha256'', PStr (ds_package_root_sha256 d)),
      (''ini_sha256'', PStr (ds_ini_sha256 d))]"

definition state_payload :: "runtime_state \<Rightarrow> pyval" where
  "state_payload s =
     PDict [(''schema_version'', PInt (st_schema_version s)),
            (''decks'', PList (map (\<lambda>d. PDict (deck_items d)) (ordered_decks (st_decks s))))]"

definition serialize_runtime_state :: "runtime_state \<Rightarrow> string res" where
  "serialize_runtime_state s = rbind (validate_runtime_state s) (\<lambda>_. Inr (document_bytes state_payload s))"

section \<open>Reading\<close>

definition deck_from_row :: "pyval \<Rightarrow> runtime_deck_state res" where
  "deck_from_row row =
     (if \<not> is_map row \<or> \<not> same_keys (items row) DECK_KEYS then Inl state_schema_error
      else
        (case (dget (items row) ''state_key'', dget (items row) ''deck_name'', dget (items row) ''config_dir'',
               dget (items row) ''package_root_sha256'', dget (items row) ''ini_sha256'') of
           (PStr k, PStr n, PStr c, PStr r, PStr i) \<Rightarrow>
             Inr \<lparr>ds_state_key = k, ds_deck_name = n, ds_config_dir = c, ds_package_root_sha256 = r, ds_ini_sha256 = i\<rparr>
         | _ \<Rightarrow> Inl state_schema_error))"

definition state_from_payload :: "pyval \<Rightarrow> runtime_state res" where
  "state_from_payload payload =
     (if \<not> is_map payload \<or> \<not> same_keys (items payload) STATE_KEYS then Inl state_schema_error
      else
        (case (dget (items payload) ''schema_version'', dget (items payload) ''decks'') of
           (PInt version, PList rows) \<Rightarrow>
             if version \<noteq> STATE_SCHEMA_VERSION \<or> int (length rows) > MAX_DECKS then Inl state_schema_error
             else
               rbind (rmap deck_from_row rows) (\<lambda>ds.
               let s = \<lparr>st_schema_version = version, st_decks = ds\<rparr> in
               rbind (validate_runtime_state s) (\<lambda>_. Inr s))
         | _ \<Rightarrow> Inl state_schema_error))"

definition read_runtime_state :: "string option \<Rightarrow> runtime_state option res" where
  \<comment> \<open>the argument is the content of the file, if there is one. The JSON reader of the development refuses
    duplicate keys and fractions by one error, so the code's own messages for these two are not told apart.\<close>
  "read_runtime_state file =
     (case file of
        None \<Rightarrow> Inr None
      | Some raw \<Rightarrow>
          if int (length raw) > MAX_STATE_BYTES then Inl (ValueError ''runtime_state_too_large'')
          else
            (case utf8_decode raw of
               Inl e \<Rightarrow> Inl (ValueError ''runtime_state_invalid_encoding'')
             | Inr t \<Rightarrow>
                 (case json_loads t of
                    Inl e \<Rightarrow> Inl (ValueError ''runtime_state_invalid_json'')
                  | Inr payload \<Rightarrow>
                      rbind (state_from_payload payload) (\<lambda>s.
                      rbind (serialize_runtime_state s) (\<lambda>written.
                      if written \<noteq> raw then Inl (ValueError ''runtime_state_noncanonical'') else Inr (Some s))))))"

section \<open>Valid states\<close>

definition state_valid :: "runtime_state \<Rightarrow> bool" where
  "state_valid s = (validate_runtime_state s = Inr ())"

definition canonical_state :: "runtime_state \<Rightarrow> runtime_state" where
  \<comment> \<open>the state in the order of its file\<close>
  "canonical_state s = s\<lparr>st_decks := ordered_decks (st_decks s)\<rparr>"

definition keys_distinct :: "runtime_deck_state list \<Rightarrow> bool" where
  "keys_distinct ds =
     (distinct (map (\<lambda>d. casefold (ds_state_key d)) ds) \<and> distinct (map (\<lambda>d. casefold (ds_deck_name d)) ds))"

lemma validate_decks_iff:
  "validate_decks ds ks ns = Inr () \<longleftrightarrow>
     (\<forall>d\<in>set ds. deck_checks d = Inr ()) \<and> keys_distinct ds
     \<and> (\<lambda>d. casefold (ds_state_key d)) ` set ds \<inter> ks = {}
     \<and> (\<lambda>d. casefold (ds_deck_name d)) ` set ds \<inter> ns = {}"
proof (induction ds arbitrary: ks ns)
  case (Cons d ds)
  show ?case
    by (cases "deck_checks d") (auto simp: Cons.IH keys_distinct_def)
qed (simp add: keys_distinct_def)

lemma state_valid_iff:
  "state_valid s \<longleftrightarrow>
     st_schema_version s = STATE_SCHEMA_VERSION \<and> int (length (st_decks s)) \<le> MAX_DECKS
     \<and> (\<forall>d\<in>set (st_decks s). deck_checks d = Inr ()) \<and> keys_distinct (st_decks s)"
  by (auto simp: state_valid_def validate_runtime_state_def validate_decks_iff)

lemma keys_distinct_perm: "mset ds = mset es \<Longrightarrow> keys_distinct ds \<longleftrightarrow> keys_distinct es"
  unfolding keys_distinct_def by (metis mset_map mset_eq_imp_distinct_iff)

lemma ordered_decks_simps [simp]:
  "mset (ordered_decks ds) = mset ds" "set (ordered_decks ds) = set ds" "length (ordered_decks ds) = length ds"
  "ordered_decks (ordered_decks ds) = ordered_decks ds"
  by (simp_all add: ordered_decks_def sort_key_id_if_sorted)

lemma state_valid_perm:
  assumes "mset ds = mset (st_decks s)"
  shows "state_valid (s\<lparr>st_decks := ds\<rparr>) \<longleftrightarrow> state_valid s"
proof -
  have "set ds = set (st_decks s)" "length ds = length (st_decks s)" using assms by (metis set_mset_mset, metis size_mset)
  with keys_distinct_perm [OF assms] show ?thesis by (simp add: state_valid_iff)
qed

lemma canonical_valid [simp]: "state_valid (canonical_state s) \<longleftrightarrow> state_valid s"
  by (simp add: canonical_state_def state_valid_perm)

lemma canonical_idem [simp]: "canonical_state (canonical_state s) = canonical_state s"
  by (simp add: canonical_state_def)

lemma canonical_bytes [simp]: "document_bytes state_payload (canonical_state s) = document_bytes state_payload s"
  by (simp add: document_bytes_def state_payload_def canonical_state_def)

lemma serialize_Inr: "serialize_runtime_state s = Inr b \<longleftrightarrow> state_valid s \<and> b = document_bytes state_payload s"
  by (auto simp: serialize_runtime_state_def state_valid_def)

section \<open>The sorted state is a document\<close>

lemma wf_state_payload: "wf_val (state_payload s)"
  by (auto simp: state_payload_def wf_dict_def wf_vals_iff wf_items_iff deck_items_def)

lemma deck_from_items: "deck_from_row (json_canon (PDict (deck_items d))) = Inr d"
proof -
  have wf: "wf_dict (deck_items d)" by (simp add: deck_items_def wf_dict_def)
  have "same_keys (deck_items d) DECK_KEYS"
    by (simp add: deck_items_def DECK_KEYS_def same_keys_iff insert_commute)
  moreover have "dget (deck_items d) ''state_key'' = PStr (ds_state_key d)"
    "dget (deck_items d) ''deck_name'' = PStr (ds_deck_name d)"
    "dget (deck_items d) ''config_dir'' = PStr (ds_config_dir d)"
    "dget (deck_items d) ''package_root_sha256'' = PStr (ds_package_root_sha256 d)"
    "dget (deck_items d) ''ini_sha256'' = PStr (ds_ini_sha256 d)"
    by (simp_all add: deck_items_def dget_def)
  ultimately show ?thesis
    by (simp add: deck_from_row_def same_keys_json_canon dget_json_canon [OF wf])
qed

lemma state_from_canon:
  assumes "state_valid s"
  shows "state_from_payload (json_canon (state_payload s)) = Inr (canonical_state s)"
proof -
  define d where "d = [(''schema_version'', PInt (st_schema_version s)),
      (''decks'', PList (map (\<lambda>d. PDict (deck_items d)) (ordered_decks (st_decks s))))]"
  have wf: "wf_dict d" by (simp add: d_def wf_dict_def)
  have keys: "same_keys d STATE_KEYS" by (simp add: d_def STATE_KEYS_def same_keys_iff insert_commute)
  have gets: "dget d ''schema_version'' = PInt (st_schema_version s)"
    "dget d ''decks'' = PList (map (\<lambda>d. PDict (deck_items d)) (ordered_decks (st_decks s)))"
    by (simp_all add: d_def dget_def)
  have rows: "rmap deck_from_row (map (\<lambda>d. json_canon (PDict (deck_items d))) (ordered_decks (st_decks s)))
      = Inr (ordered_decks (st_decks s))"
    by (simp add: rmap_Inr_iff list_all2_conv_all_nth deck_from_items del: json_canon.simps)
  have "validate_runtime_state (canonical_state s) = Inr ()"
    using assms canonical_valid [of s] unfolding state_valid_def by simp
  moreover have "\<lparr>st_schema_version = st_schema_version s, st_decks = ordered_decks (st_decks s)\<rparr> = canonical_state s"
    by (simp add: canonical_state_def)
  moreover have "st_schema_version s = STATE_SCHEMA_VERSION" "int (length (st_decks s)) \<le> MAX_DECKS"
    using assms by (simp_all add: state_valid_iff)
  moreover have "json_canon (state_payload s) = PDict (sort_key fst (json_canon_items d))"
    by (simp add: state_payload_def d_def del: sort_key_simps)
  ultimately show ?thesis
    using rows
    by (simp add: state_from_payload_def same_keys_json_canon keys dget_json_canon [OF wf] gets json_maps(3) comp_def
        Let_def)
qed

lemma state_from_payload_valid: "state_from_payload v = Inr s \<Longrightarrow> state_valid s"
  by (auto simp: state_from_payload_def state_valid_def Let_def split: if_splits pyval.splits)

definition state_parse :: "pyval \<Rightarrow> runtime_state res" where
  \<comment> \<open>the part of the reader that accepts sorted states only\<close>
  "state_parse v = rbind (state_from_payload v) (\<lambda>s.
     if canonical_state s = s then Inr s else Inl (ValueError ''runtime_state_noncanonical''))"

interpretation state_document: json_document state_payload state_parse "\<lambda>s. state_valid s \<and> canonical_state s = s"
proof unfold_locales
  show "wf_val (state_payload s)" for s by (rule wf_state_payload)
  show "state_parse (json_canon (state_payload s)) = Inr s" if "state_valid s \<and> canonical_state s = s" for s
    using that state_from_canon [of s] by (simp add: state_parse_def)
  show "state_valid s \<and> canonical_state s = s" if "state_parse v = Inr s" for v s
    using that by (auto simp: state_parse_def state_from_payload_valid split: if_splits)
qed

lemma bytes_sorted:
  assumes "state_valid s" and "state_from_payload v = Inr s" and "json_loads t = Inr v"
    and "utf8_decode b = Inr t" and "b = document_bytes state_payload s"
  shows "canonical_state s = s"
proof -
  have "Inr v = rbind (utf8_decode b) json_loads" using assms by simp
  also have "\<dots> = Inr (json_canon (state_payload s))"
    by (simp add: assms(5) document_bytes_def utf8_roundtrip json_loads_dumps wf_state_payload)
  finally show ?thesis using assms(2) state_from_canon [OF assms(1)] by simp
qed

lemma read_state_iff:
  "read_runtime_state (Some raw) = Inr (Some s) \<longleftrightarrow>
     int (length raw) \<le> MAX_STATE_BYTES \<and> state_valid s \<and> canonical_state s = s \<and> raw = document_bytes state_payload s"
proof
  assume "read_runtime_state (Some raw) = Inr (Some s)"
  then obtain t v where "int (length raw) \<le> MAX_STATE_BYTES" "utf8_decode raw = Inr t" "json_loads t = Inr v"
    "state_from_payload v = Inr s" "serialize_runtime_state s = Inr raw"
    by (auto simp: read_runtime_state_def split: if_splits sum.splits)
  then show "int (length raw) \<le> MAX_STATE_BYTES \<and> state_valid s \<and> canonical_state s = s
      \<and> raw = document_bytes state_payload s"
    using bytes_sorted by (auto simp: serialize_Inr)
next
  assume r: "int (length raw) \<le> MAX_STATE_BYTES \<and> state_valid s \<and> canonical_state s = s
      \<and> raw = document_bytes state_payload s"
  then have "rbind (utf8_decode raw) json_loads = Inr (json_canon (state_payload s))"
    by (simp add: document_bytes_def utf8_roundtrip json_loads_dumps wf_state_payload)
  moreover have "serialize_runtime_state s = Inr raw" using r by (simp add: serialize_Inr)
  ultimately show "read_runtime_state (Some raw) = Inr (Some s)"
    using r state_from_canon [of s] by (auto simp: read_runtime_state_def)
qed

lemma read_state_None [simp]: "read_runtime_state None = Inr None"
  by (simp add: read_runtime_state_def)

lemma read_state_not_None: "read_runtime_state (Some raw) \<noteq> Inr None"
  by (auto simp: read_runtime_state_def split: if_splits sum.splits)

lemma read_serialized:
  assumes "serialize_runtime_state s = Inr b" and "int (length b) \<le> MAX_STATE_BYTES"
  shows "read_runtime_state (Some b) = Inr (Some (canonical_state s))"
  using assms by (simp add: read_state_iff serialize_Inr)

end
