(* ===== verification/RuntimeHost.thy ===== *)
theory RuntimeHost
  imports CrashMonad RunManifest TransactionRecovery DeckConfigIni RuntimeState
begin

text \<open>
  The runtime root as the installer sees it (\<open>src/src/hsconfig/runtime_installer.py\<close>, the helpers at
  the end of the module, and what they use of \<open>package_io.py\<close>): directories of configurations and of
  candidates with their identities, the INI file, the state file, receipts and the journals. Every
  change is one step of a program, after which the process may be killed. The lock of the installer
  is held throughout, so nobody else changes the root.
\<close>

section \<open>The root\<close>

record file_node =
  node_content :: string
  node_identity :: file_identity

record tree =
  tree_identity :: file_identity
  tree_directories :: "(string \<times> file_identity) list"
  tree_files :: "(string \<times> file_node) list"

datatype node =
    Directory tree
  | OtherNode \<comment> \<open>a file, a link or a reparse point\<close>

record runtime =
  nodes :: "(string \<times> node) list"
    \<comment> \<open>what is below \<open>CustomConfig\<close> and \<open>.hsconfig/staging\<close>, by path relative to the root, without the INI\<close>
  ini_file :: "string option"
  state_file :: "string option"
  receipts :: "(string \<times> string option) list"
    \<comment> \<open>the directories below \<open>.hsconfig/receipts\<close>, each with its receipt\<close>
  journal_files :: directory
  owner_retirements :: "string list"
  created :: nat
    \<comment> \<open>the number of files and directories created so far, without the temporaries of small files\<close>
  ini_linked :: bool
    \<comment> \<open>the INI and \<open>deck_config.ini.staged\<close> are two names of one file\<close>
  ini_staged :: "string option"
    \<comment> \<open>\<open>deck_config.ini.staged\<close>\<close>
  ini_inner :: "string option"
    \<comment> \<open>\<open>.deck_config.ini.staged.live-start-atomic.tmp\<close>\<close>
  ini_strays :: "string list"
    \<comment> \<open>the temporaries of the INI with unique names\<close>

record host =
  digest :: "string \<Rightarrow> string"
  new_identity :: "nat \<Rightarrow> file_identity"
  new_nonce :: "nat \<Rightarrow> directory \<Rightarrow> string"
    \<comment> \<open>what \<open>uuid.uuid4().hex\<close> is at that time\<close>
  posix :: bool
    \<comment> \<open>\<open>os.name != "nt"\<close>\<close>

type_synonym 'a effect = "(runtime, 'a) prog"

definition ambiguous :: exn where
  "ambiguous = RuntimeError ''runtime_recovery_ownership_ambiguous''"

section \<open>Directories\<close>

definition plain_directory :: "string \<Rightarrow> tree effect" where
  \<comment> \<open>\<open>require_plain_directory\<close>, with the directory itself\<close>
  "plain_directory path = pgets (\<lambda>w.
     case map_of (nodes w) path of
       None \<Rightarrow> Inl FileNotFoundError
     | Some OtherNode \<Rightarrow> Inl (ValueError ''filesystem_directory_invalid'')
     | Some (Directory t) \<Rightarrow> Inr t)"

definition path_lexists :: "string \<Rightarrow> bool effect" where
  "path_lexists path = pget (\<lambda>w. dhas (nodes w) path)"

definition plain_directory_identity :: "string \<Rightarrow> file_identity effect" where
  "plain_directory_identity path = pbind (plain_directory path) (\<lambda>t. preturn (tree_identity t))"

definition directory_identity_or_none :: "string \<Rightarrow> file_identity option effect" where
  "directory_identity_or_none path =
     pbind (path_lexists path) (\<lambda>present.
     if \<not> present then preturn None
     else pbind (plain_directory_identity path) (\<lambda>i. preturn (Some i)))"

definition put_node :: "string \<Rightarrow> node \<Rightarrow> runtime \<Rightarrow> runtime" where
  "put_node path n w = w\<lparr>nodes := dput path n (nodes w)\<rparr>"

definition drop_node :: "string \<Rightarrow> runtime \<Rightarrow> runtime" where
  "drop_node path w = w\<lparr>nodes := dpop path (nodes w)\<rparr>"

definition change_tree :: "string \<Rightarrow> (tree \<Rightarrow> tree) \<Rightarrow> runtime \<Rightarrow> runtime" where
  "change_tree path f w =
     (case map_of (nodes w) path of Some (Directory t) \<Rightarrow> put_node path (Directory (f t)) w | _ \<Rightarrow> w)"

definition count_creation :: "runtime \<Rightarrow> runtime" where
  "count_creation w = w\<lparr>created := Suc (created w)\<rparr>"

definition secure_create_directory :: "host \<Rightarrow> string \<Rightarrow> file_identity effect" where
  "secure_create_directory h path =
     pbind (path_lexists path) (\<lambda>present.
     if present then praise FileExistsError
     else
       pbind (pget (\<lambda>w. new_identity h (created w))) (\<lambda>i.
       pbind (pstep (\<lambda>w. count_creation
         (put_node path (Directory \<lparr>tree_identity = i, tree_directories = [], tree_files = []\<rparr>) w))) (\<lambda>_.
       preturn i)))"

definition rename_directory :: "string \<Rightarrow> string \<Rightarrow> unit effect" where
  \<comment> \<open>\<open>secure_replace\<close> of a directory, with \<open>expected_target_absent\<close>\<close>
  "rename_directory source target =
     pbind (plain_directory source) (\<lambda>t.
     pbind (path_lexists target) (\<lambda>present.
     if present then praise FileExistsError
     else pstep (\<lambda>w. put_node target (Directory t) (drop_node source w))))"

section \<open>Snapshots\<close>

definition MAX_FILESYSTEM_DIRECTORIES :: int where "MAX_FILESYSTEM_DIRECTORIES = 10000"
definition MAX_FILESYSTEM_DEPTH :: int where "MAX_FILESYSTEM_DEPTH = 64"
definition MAX_FILESYSTEM_ENTRIES_PER_DIRECTORY :: int where "MAX_FILESYSTEM_ENTRIES_PER_DIRECTORY = 10000"
definition MAX_FILESYSTEM_NODES :: int where "MAX_FILESYSTEM_NODES = 110000"

type_synonym view = "(string \<times> string) list \<times> string list"

definition slashes :: "string \<Rightarrow> nat" where
  \<comment> \<open>\<open>value.count("/")\<close>\<close>
  "slashes s = length (filter (\<lambda>c. c = CHR ''/'') s)"

definition parent_path :: "string \<Rightarrow> string" where
  "parent_path s = join ''/'' (butlast (split_on CHR ''/'' s))"

definition within_bounds :: "tree \<Rightarrow> bool" where
  \<comment> \<open>the limits of the walk; they are checked while walking, so the message depends on which is met
    first, and the model has one message for all\<close>
  "within_bounds t =
     (let fs = map fst (tree_files t); ds = map fst (tree_directories t); names = fs @ ds in
      list_all (\<lambda>d. int (slashes d) + 1 \<le> MAX_FILESYSTEM_DEPTH) ds
      \<and> list_all (\<lambda>d. int (length (filter (\<lambda>n. parent_path n = d) names)) \<le> MAX_FILESYSTEM_ENTRIES_PER_DIRECTORY)
          ([] # ds)
      \<and> int (length names) \<le> MAX_FILESYSTEM_NODES
      \<and> int (length ds) \<le> MAX_FILESYSTEM_DIRECTORIES
      \<and> int (length fs) \<le> MAX_RUN_FILES
      \<and> list_all (\<lambda>n. int (length (utf8_encode n)) \<le> MAX_RUN_PATH_BYTES
            \<and> canonical_relative_path (PStr n) = Inr n) names
      \<and> int (sum_list (map (\<lambda>(n, f). length (node_content f)) (tree_files t))) \<le> MAX_RUN_TOTAL_BYTES
      \<and> list_all (\<lambda>(n, f). int (length (node_content f)) \<le>
            (if n = ''package_manifest.json'' then MAX_MANIFEST_BYTES else MAX_RUN_TOTAL_BYTES)) (tree_files t))"

definition tree_view :: "tree \<Rightarrow> view" where
  "tree_view t =
     (sort_key fst (map (\<lambda>(n, f). (n, node_content f)) (tree_files t)), sort (map fst (tree_directories t)))"

definition snapshot_bounded_filesystem_package :: "string \<Rightarrow> view effect" where
  "snapshot_bounded_filesystem_package path =
     pbind (plain_directory path) (\<lambda>t.
     if within_bounds t then preturn (tree_view t) else praise (ValueError ''filesystem_tree_invalid''))"

definition deepest_first :: "string list \<Rightarrow> string list" where
  \<comment> \<open>\<open>sorted(names, key=lambda value: (value.count("/"), value), reverse=True)\<close>\<close>
  "deepest_first names = rev (sort_key (\<lambda>v. (slashes v, v)) names)"

section \<open>Removing a tree\<close>

definition unlink_in_tree :: "string \<Rightarrow> string \<Rightarrow> unit effect" where
  "unlink_in_tree root name =
     pbind (plain_directory root) (\<lambda>t.
     if \<not> dhas (tree_files t) name then praise FileNotFoundError
     else pstep (change_tree root (\<lambda>t. t\<lparr>tree_files := dpop name (tree_files t)\<rparr>)))"

definition rmdir_in_tree :: "string \<Rightarrow> string \<Rightarrow> unit effect" where
  "rmdir_in_tree root name =
     pbind (plain_directory root) (\<lambda>t.
     if \<not> dhas (tree_directories t) name then praise FileNotFoundError
     else if list_ex (\<lambda>n. parent_path n = name) (map fst (tree_files t) @ map fst (tree_directories t))
     then praise (OSError ''not empty'')
     else pstep (change_tree root (\<lambda>t. t\<lparr>tree_directories := dpop name (tree_directories t)\<rparr>)))"

definition rmdir_root :: "string \<Rightarrow> unit effect" where
  "rmdir_root root =
     pbind (plain_directory root) (\<lambda>t.
     if tree_files t \<noteq> [] \<or> tree_directories t \<noteq> [] then praise (OSError ''not empty'')
     else pstep (drop_node root))"

definition remove_owned_tree :: "string \<Rightarrow> file_identity \<Rightarrow> unit effect" where
  "remove_owned_tree root expected =
     pbind (plain_directory_identity root) (\<lambda>i.
     if i \<noteq> expected then praise ambiguous
     else
       pbind (snapshot_bounded_filesystem_package root) (\<lambda>(files, directories).
       pbind (pfor (deepest_first (map fst files)) (unlink_in_tree root)) (\<lambda>_.
       pbind (pfor (deepest_first directories) (rmdir_in_tree root)) (\<lambda>_.
       rmdir_root root))))"

section \<open>Small files\<close>

definition plain_file_bytes_or_none :: "(runtime \<Rightarrow> string option) \<Rightarrow> string option effect" where
  "plain_file_bytes_or_none file = pgets (\<lambda>w.
     case file w of
       None \<Rightarrow> Inr None
     | Some b \<Rightarrow> if int (length b) > 1024 * 1024 then Inl (ValueError ''filesystem_file_invalid'') else Inr (Some b))"

definition read_actual_ini :: "host \<Rightarrow> string \<Rightarrow> deck_config_snapshot effect" where
  \<comment> \<open>the reader refuses a file with two links\<close>
  "read_actual_ini h deck = pgets (\<lambda>w.
     if ini_linked w then rbind (validate_deck_name deck) (\<lambda>_. Inl (ValueError ''deck_config_ini_unsafe_path''))
     else read_deck_config (digest h) (ini_file w) deck)"

definition read_state :: "runtime_state option effect" where
  "read_state = pgets (\<lambda>w. read_runtime_state (state_file w))"

section \<open>Journals\<close>

definition put_temp :: "string \<Rightarrow> string \<Rightarrow> string \<Rightarrow> runtime \<Rightarrow> runtime" where
  "put_temp t nonce b w = w\<lparr>journal_files :=
     dput (temp_path t nonce) \<lparr>dir_entry.plain = True, dir_entry.content = b\<rparr> (journal_files w)\<rparr>"

definition write_journal :: "host \<Rightarrow> runtime_journal \<Rightarrow> unit effect" where
  \<comment> \<open>a temporary is created and filled and then replaces the file; afterwards the file is read back.
    The empty temporary stands for every one that is not complete: none of them is a journal.\<close>
  "write_journal h j =
     pbind (pget (\<lambda>w. new_nonce h (created w) (journal_files w))) (\<lambda>nonce.
     pbind (pgets (\<lambda>w. let (d, r) = write_runtime_transaction_journal (final_path (transaction_id j)) j nonce
         (\<lambda>_. None) 0 (journal_files w) in rbind r (\<lambda>_. Inr d))) (\<lambda>d.
     pbind (plift (runtime_transaction_journal_bytes j)) (\<lambda>b.
     pbind (pstep (\<lambda>w. count_creation (put_temp (transaction_id j) nonce [] w))) (\<lambda>_.
     pbind (pstep (put_temp (transaction_id j) nonce b)) (\<lambda>_.
     pbind (pstep (\<lambda>w. w\<lparr>journal_files := d\<rparr>)) (\<lambda>_.
     pbind (pgets (\<lambda>w. read_journal (journal_files w) (final_path (transaction_id j)) None)) (\<lambda>written.
     pensure (written = j) (RuntimeError ''runtime_transaction_journal_commit_failed''))))))))"

definition load_journals :: "runtime_journal list effect" where
  \<comment> \<open>\<open>load_runtime_transaction_journals(runtime_root)\<close>; what it changes is one step here\<close>
  "load_journals =
     pbind (pget (\<lambda>w. load_runtime_transaction_journals [] (Some (journal_files w)))) (\<lambda>(d, r).
     pbind (pstep (\<lambda>w. w\<lparr>journal_files := (case d of None \<Rightarrow> [] | Some f \<Rightarrow> f)\<rparr>)) (\<lambda>_.
     plift r))"

definition delete_journal :: "string \<Rightarrow> unit effect" where
  "delete_journal transaction =
     pbind (pget (\<lambda>w. map_of (journal_files w) (final_path transaction))) (\<lambda>e.
     case e of
       None \<Rightarrow> preturn ()
     | Some e \<Rightarrow>
         if \<not> dir_entry.plain e then praise (ValueError ''filesystem_file_invalid'')
         else pstep (\<lambda>w. w\<lparr>journal_files := secure_unlink (final_path transaction) (journal_files w)\<rparr>))"

section \<open>The directories that the INI names\<close>

fun active_scan :: "bool \<Rightarrow> nat list list \<Rightarrow> nat list list \<Rightarrow> string list \<Rightarrow> nat list list option" where
  \<comment> \<open>the loop over the lines, with the decks and configs seen so far\<close>
  "active_scan in_configs seen configs [] = Some configs"
| "active_scan in_configs seen configs (raw # rest) =
     (let stripped = strip raw in
      if starts_with ''['' stripped \<and> ends_with '']'' stripped then
        active_scan (casefold stripped = map code ''[configs]'') seen configs rest
      else if \<not> in_configs \<or> stripped = [] \<or> starts_with ''#'' stripped \<or> starts_with '';'' stripped
        \<or> CHR ''='' \<notin> set raw
      then active_scan in_configs seen configs rest
      else
        (let deck = casefold (strip (takeWhile (\<lambda>c. c \<noteq> CHR ''='') raw));
             config = strip (drop 1 (dropWhile (\<lambda>c. c \<noteq> CHR ''='') raw)) in
         if deck = [] \<or> deck \<in> set seen \<or> \<not> valid_component config then None
         else active_scan in_configs (deck # seen) (casefold config # configs) rest))"

definition active_dirs :: "string option \<Rightarrow> nat list list option" where
  \<comment> \<open>the folded names that the bytes of an INI name; \<open>None\<close> if they are not clear\<close>
  "active_dirs file =
     (case file of
        None \<Rightarrow> Some []
      | Some bytes \<Rightarrow>
          (case decode_config bytes of
             Inl e \<Rightarrow> None
           | Inr (t, bom) \<Rightarrow> active_scan False [] [] (map (rstrip_by is_break) (splitlines [] t))))"

definition active_config_dirs :: "nat list list option effect" where
  \<comment> \<open>\<open>plain_file_status\<close> refuses a file with two links\<close>
  "active_config_dirs =
     pbind (pgets (\<lambda>w. ensure (\<not> ini_linked w) (ValueError ''filesystem_file_invalid''))) (\<lambda>_.
     pbind (plain_file_bytes_or_none ini_file) (\<lambda>content. preturn (active_dirs content)))"

definition same_config_dir :: "string option \<Rightarrow> string option \<Rightarrow> bool" where
  "same_config_dir left right =
     (case (left, right) of (Some l, Some r) \<Rightarrow> casefold l = casefold r | _ \<Rightarrow> False)"

end
