(* ===== verification/IniReplacement.thy ===== *)
theory IniReplacement
  imports RuntimeHost
begin

text \<open>
  The replacement of the INI in a runtime root, step by step
  (\<open>replace_deck_config_if_unchanged\<close> and \<open>_atomic_create_if_absent\<close> in
  \<open>src/src/hsconfig/deck_config_ini.py\<close>, with what they use of \<open>atomic_io.py\<close> and \<open>package_io.py\<close>).
  An existing file is replaced by a rename of a temporary with a unique name; a new file goes
  through two reserved names and is committed without replacing anything, on POSIX by a hard link
  and the removal of the old name. The installer holds the lock of the root, so nobody else changes
  these files; it passes no fault hook.
\<close>

section \<open>The steps\<close>

definition concurrent_change :: exn where
  "concurrent_change = RuntimeError ''deck_config_ini_concurrent_change''"

definition current_ini :: "string option effect" where
  \<comment> \<open>\<open>_current_bytes_or_none\<close>\<close>
  "current_ini = pgets (\<lambda>w.
     case ini_file w of
       None \<Rightarrow> Inr None
     | Some b \<Rightarrow>
         if ini_linked w then Inl (ValueError ''deck_config_ini_unsafe_path'')
         else if int (length b) > MAX_DECK_CONFIG_BYTES then Inl (ValueError ''deck_config_ini_too_large'')
         else Inr (Some b))"

definition commit_sibling :: "host \<Rightarrow> (runtime \<Rightarrow> runtime) \<Rightarrow> (runtime \<Rightarrow> runtime) \<Rightarrow> unit effect" where
  \<comment> \<open>\<open>secure_commit_sibling_no_replace\<close>: on Windows one rename that does not replace, on POSIX a hard link
    to the new name and then the removal of the old name\<close>
  "commit_sibling h link unlink =
     (if posix h then pbind (pstep link) (\<lambda>_. pstep unlink) else pstep (\<lambda>w. unlink (link w)))"

definition materialize_staging :: "host \<Rightarrow> string \<Rightarrow> unit effect" where
  \<comment> \<open>\<open>atomic_materialize_staging_bytes\<close>: the bytes are written to the inner temporary in two halves, and that
    becomes the staged file\<close>
  "materialize_staging h new =
     pbind (pget (\<lambda>w. ini_staged w \<noteq> None \<or> ini_inner w \<noteq> None)) (\<lambda>reserved.
     if reserved then praise concurrent_change
     else
       pbind (pstep (\<lambda>w. w\<lparr>ini_inner := Some []\<rparr>)) (\<lambda>_.
       pbind (pstep (\<lambda>w. w\<lparr>ini_inner := Some (take (length new div 2) new)\<rparr>)) (\<lambda>_.
       pbind (pstep (\<lambda>w. w\<lparr>ini_inner := Some new\<rparr>)) (\<lambda>_.
       commit_sibling h (\<lambda>w. w\<lparr>ini_staged := ini_inner w\<rparr>) (\<lambda>w. w\<lparr>ini_inner := None\<rparr>)))))"

definition commit_staging :: "host \<Rightarrow> unit effect" where
  \<comment> \<open>\<open>atomic_commit_bound_staging_no_replace\<close>: the staged file becomes the INI\<close>
  "commit_staging h =
     commit_sibling h (\<lambda>w. w\<lparr>ini_file := ini_staged w, ini_linked := True\<rparr>)
       (\<lambda>w. w\<lparr>ini_staged := None, ini_linked := False\<rparr>)"

definition create_ini :: "host \<Rightarrow> string \<Rightarrow> unit effect" where
  \<comment> \<open>\<open>_atomic_create_if_absent\<close>\<close>
  "create_ini h new = pbind (materialize_staging h new) (\<lambda>_. commit_staging h)"

definition overwrite_ini :: "deck_config_snapshot \<Rightarrow> string \<Rightarrow> unit effect" where
  \<comment> \<open>\<open>atomic_write_bytes\<close>, which reads the INI again before it replaces it\<close>
  "overwrite_ini ini new =
     pbind (pstep (\<lambda>w. w\<lparr>ini_strays := ini_strays w @ [[]]\<rparr>)) (\<lambda>_.
     pbind (pstep (\<lambda>w. w\<lparr>ini_strays := butlast (ini_strays w) @ [new]\<rparr>)) (\<lambda>_.
     pbind (ptry (pbind current_ini (\<lambda>again. pensure (again = content ini) concurrent_change))
       (\<lambda>e. pbind (pstep (\<lambda>w. w\<lparr>ini_strays := butlast (ini_strays w)\<rparr>)) (\<lambda>_. praise e))) (\<lambda>_.
     pstep (\<lambda>w. w\<lparr>ini_file := Some new, ini_strays := butlast (ini_strays w)\<rparr>))))"

definition replace_ini :: "host \<Rightarrow> deck_config_snapshot \<Rightarrow> string \<Rightarrow> string effect" where
  \<comment> \<open>\<open>replace_deck_config_if_unchanged\<close>\<close>
  "replace_ini h ini new =
     (if int (length new) > MAX_DECK_CONFIG_BYTES then praise (ValueError ''deck_config_ini_too_large'')
      else
        pbind (plift (decode_config new)) (\<lambda>_.
        pbind current_ini (\<lambda>current.
        let verify = pbind current_ini (\<lambda>committed.
          if committed \<noteq> Some new then praise (RuntimeError ''deck_config_ini_commit_verification_failed'')
          else preturn (digest h new)) in
        if existed ini then
          if content ini = None \<or> deck_config_snapshot.sha256 ini = None \<or> current \<noteq> content ini
             \<or> Some (digest h (case current of None \<Rightarrow> [] | Some b \<Rightarrow> b)) \<noteq> deck_config_snapshot.sha256 ini
          then praise concurrent_change
          else if current = Some new then preturn (digest h new)
          else pbind (overwrite_ini ini new) (\<lambda>_. verify)
        else if content ini \<noteq> None \<or> deck_config_snapshot.sha256 ini \<noteq> None
        then praise (ValueError ''deck_config_ini_invalid_snapshot'')
        else if current \<noteq> None then praise concurrent_change
        else pbind (create_ini h new) (\<lambda>_. verify))))"

section \<open>What the steps change\<close>

definition core :: "runtime \<Rightarrow> (string \<times> node) list \<times> string option \<times> (string \<times> string option) list
    \<times> directory \<times> string list \<times> nat" where
  \<comment> \<open>the root without the INI and what is beside it\<close>
  "core w = (nodes w, state_file w, receipts w, journal_files w, owner_retirements w, created w)"

definition beside :: "runtime \<Rightarrow> string option \<times> string option \<times> string list" where
  \<comment> \<open>the temporaries of the INI\<close>
  "beside w = (ini_staged w, ini_inner w, ini_strays w)"

lemma core_fields:
  "core u = core s \<longleftrightarrow> nodes u = nodes s \<and> state_file u = state_file s \<and> receipts u = receipts s
     \<and> journal_files u = journal_files s \<and> owner_retirements u = owner_retirements s \<and> created u = created s"
  by (auto simp: core_def)

lemma core_ini [simp]:
  "core (w\<lparr>ini_file := a\<rparr>) = core w" "core (w\<lparr>ini_linked := b\<rparr>) = core w" "core (w\<lparr>ini_staged := c\<rparr>) = core w"
  "core (w\<lparr>ini_inner := d\<rparr>) = core w" "core (w\<lparr>ini_strays := e\<rparr>) = core w"
  by (simp_all add: core_def)

definition same_ini :: "runtime \<Rightarrow> runtime \<Rightarrow> bool" where
  \<comment> \<open>nothing but temporaries has changed\<close>
  "same_ini s u = (core u = core s \<and> ini_file u = ini_file s \<and> ini_linked u = ini_linked s)"

definition ini_switched :: "string \<Rightarrow> runtime \<Rightarrow> runtime \<Rightarrow> bool" where
  \<comment> \<open>the INI has been replaced, and no temporary is left\<close>
  "ini_switched new s u = (core u = core s \<and> ini_file u = Some new \<and> \<not> ini_linked u \<and> beside u = beside s)"

definition half_ini :: "host \<Rightarrow> string \<Rightarrow> runtime \<Rightarrow> runtime \<Rightarrow> bool" where
  \<comment> \<open>the new INI still has its second name\<close>
  "half_ini h new s u = (posix h \<and> ini_file s = None \<and> core u = core s
     \<and> ini_file u = Some new \<and> ini_staged u = Some new \<and> ini_linked u)"

definition current_snapshot :: "host \<Rightarrow> deck_config_snapshot \<Rightarrow> runtime \<Rightarrow> bool" where
  \<comment> \<open>the snapshot describes the INI, which is a plain file within the limit\<close>
  "current_snapshot h ini s =
     (content ini = ini_file s \<and> existed ini = (ini_file s \<noteq> None)
      \<and> deck_config_snapshot.sha256 ini = map_option (digest h) (ini_file s)
      \<and> (case ini_file s of None \<Rightarrow> True | Some b \<Rightarrow> \<not> ini_linked s \<and> int (length b) \<le> MAX_DECK_CONFIG_BYTES))"

definition replaceable :: "host \<Rightarrow> deck_config_snapshot \<Rightarrow> string \<Rightarrow> runtime \<Rightarrow> bool" where
  "replaceable h ini new s =
     (int (length new) \<le> MAX_DECK_CONFIG_BYTES \<and> (\<exists>t. decode_config new = Inr t) \<and> current_snapshot h ini s
      \<and> (ini_file s = None \<longrightarrow> ini_staged s = None \<and> ini_inner s = None))"

lemma same_iniI [simp]: "same_ini s s"
  by (simp add: same_ini_def)

lemma wp_current:
  "ini_file s = Some b \<Longrightarrow> wp I current_ini R s \<longleftrightarrow>
     (if ini_linked s \<or> int (length b) > MAX_DECK_CONFIG_BYTES then I s else R (Some b) s)"
  "ini_file s = None \<Longrightarrow> wp I current_ini R s \<longleftrightarrow> R None s"
  by (simp_all add: current_ini_def)

lemma wp_overwrite:
  assumes "ini_file s = content ini" and "ini_file s = Some b" and "\<not> ini_linked s" and "int (length b) \<le> MAX_DECK_CONFIG_BYTES"
    and I: "\<And>u. same_ini s u \<Longrightarrow> I u" and new: "\<And>u. ini_switched new s u \<Longrightarrow> I u \<and> Q () u"
  shows "wp I (overwrite_ini ini new) Q s"
proof -
  have again: "wp I (ptry (pbind current_ini (\<lambda>again. pensure (again = content ini) concurrent_change)) h) R u \<longleftrightarrow> R () u"
    if "ini_file u = ini_file s" "\<not> ini_linked u" for h R u
  proof -
    have "content ini = Some b" "ini_file u = Some b" using assms(1,2) that(1) by simp_all
    then show ?thesis
      using assms(4) that(2)
      by (simp add: wp_def ptry_def pbind_def current_ini_def pgets_def pensure_def plift_def ensure_def split: prod.split sum.split)
  qed
  show ?thesis
    using I new assms(3) by (simp add: overwrite_ini_def again same_ini_def ini_switched_def beside_def core_def)
qed

lemma wp_create:
  assumes "ini_file s = None"
    and I: "\<And>u. same_ini s u \<Longrightarrow> I u" and half: "\<And>u. half_ini h new s u \<Longrightarrow> I u"
    and new: "\<And>u. ini_switched new s u \<Longrightarrow> I u \<and> Q () u"
  shows "wp I (create_ini h new) Q s"
  using assms by (auto simp: create_ini_def materialize_staging_def commit_staging_def commit_sibling_def same_ini_def half_ini_def ini_switched_def beside_def core_def)

lemma wp_replace_ini:
  assumes I: "\<And>u. same_ini s u \<Longrightarrow> I u" and half: "\<And>u. half_ini h new s u \<Longrightarrow> current_snapshot h ini s \<Longrightarrow> I u"
    and new: "\<And>u. ini_switched new s u \<Longrightarrow> current_snapshot h ini s \<Longrightarrow> I u \<and> Q (digest h new) u"
  shows "wp I (replace_ini h ini new) Q s"
proof (cases "int (length new) \<le> MAX_DECK_CONFIG_BYTES")
  case False
  then show ?thesis using I by (simp add: replace_ini_def)
next
  case small: True
  let ?verify = "pbind current_ini (\<lambda>committed.
      if committed \<noteq> Some new then praise (RuntimeError ''deck_config_ini_commit_verification_failed'')
      else preturn (digest h new))"
  have verify: "wp I ?verify Q u" if "ini_switched new s u" "current_snapshot h ini s" for u
    using new [OF that] that(1) small by (simp add: current_ini_def ini_switched_def)
  show ?thesis
  proof (cases "ini_file s")
    case None
    have "wp I (pbind (create_ini h new) (\<lambda>_. ?verify)) Q s" if "current_snapshot h ini s"
    proof (rule wp_seq [where R = "\<lambda>_. wp I ?verify Q"])
      show "wp I (create_ini h new) (\<lambda>_. wp I ?verify Q) s"
        by (rule wp_create [OF None I half [OF _ that]]) (use new [OF _ that] verify [OF _ that] in blast)+
    qed
    then show ?thesis
      using I [of s] small None
      by (auto simp: replace_ini_def wp_current current_snapshot_def Let_def split: sum.splits)
  next
    case (Some b)
    have "wp I (pbind (overwrite_ini ini new) (\<lambda>_. ?verify)) Q s" if cur: "current_snapshot h ini s"
    proof (rule wp_seq [where R = "\<lambda>_. wp I ?verify Q"])
      show "wp I (overwrite_ini ini new) (\<lambda>_. wp I ?verify Q) s"
      proof (rule wp_overwrite [OF _ Some _ _ I])
        show "ini_file s = content ini" "\<not> ini_linked s" "int (length b) \<le> MAX_DECK_CONFIG_BYTES"
          using cur Some by (simp_all add: current_snapshot_def)
        show "I u \<and> wp I ?verify Q u" if "ini_switched new s u" for u using new [OF that cur] verify [OF that cur] by blast
      qed
    qed
    moreover have "Q (digest h new) s" if "current_snapshot h ini s" "b = new"
      using new [OF _ that(1), of s] that Some by (simp add: ini_switched_def current_snapshot_def)
    ultimately show ?thesis
      using I [of s] small Some
      by (auto simp: replace_ini_def wp_current current_snapshot_def Let_def split: sum.splits)
  qed
qed

section \<open>When it returns\<close>

lemma replace_refused:
  assumes "\<not> replaceable h ini new s"
  shows "\<exists>e. replace_ini h ini new s = ([], Inl e, s)"
proof -
  note defs = replace_ini_def pbind_def plift_def praise_def preturn_def Let_def
  have create: "create_ini h new s = ([], Inl concurrent_change, s)" if "ini_staged s \<noteq> None \<or> ini_inner s \<noteq> None"
    using that by (simp add: create_ini_def materialize_staging_def pbind_def pget_def praise_def)
  show ?thesis
  proof (cases "ini_file s")
    case None
    then have cur: "current_ini s = ([], Inr None, s)" by (simp add: current_ini_def pgets_def)
    show ?thesis
      using assms create None
      by (auto simp: defs cur replaceable_def current_snapshot_def split: sum.splits prod.splits option.splits)
  next
    case (Some b)
    then have cur: "current_ini s = ([], if ini_linked s then Inl (ValueError ''deck_config_ini_unsafe_path'')
        else if int (length b) > MAX_DECK_CONFIG_BYTES then Inl (ValueError ''deck_config_ini_too_large'') else Inr (Some b), s)"
      by (simp add: current_ini_def pgets_def)
    show ?thesis
      using assms Some
      by (auto simp: defs cur replaceable_def current_snapshot_def split: sum.splits prod.splits option.splits)
  qed
qed

lemma total_current:
  "ini_file s = Some b \<Longrightarrow> \<not> ini_linked s \<Longrightarrow> int (length b) \<le> MAX_DECK_CONFIG_BYTES \<Longrightarrow>
     completes I current_ini R s \<longleftrightarrow> R (Some b) s"
  "ini_file s = None \<Longrightarrow> completes I current_ini R s \<longleftrightarrow> R None s"
  by (simp_all add: current_ini_def)

lemma replace_completes:
  assumes "replaceable h ini new s"
  shows "completes (\<lambda>_. True) (replace_ini h ini new) (\<lambda>d u. d = digest h new \<and> ini_file u = Some new) s"
proof -
  obtain t where t: "int (length new) \<le> MAX_DECK_CONFIG_BYTES" "decode_config new = Inr t"
    and cur: "current_snapshot h ini s" and free: "ini_file s = None \<Longrightarrow> ini_staged s = None \<and> ini_inner s = None"
    using assms by (auto simp: replaceable_def)
  show ?thesis
  proof (cases "ini_file s")
    case None
    with t cur free show ?thesis
      by (simp add: replace_ini_def create_ini_def materialize_staging_def commit_staging_def commit_sibling_def total_current current_snapshot_def Let_def)
  next
    case (Some b)
    then have b: "content ini = Some b" "existed ini" "deck_config_snapshot.sha256 ini = Some (digest h b)" "\<not> ini_linked s"
      "int (length b) \<le> MAX_DECK_CONFIG_BYTES" using cur by (simp_all add: current_snapshot_def)
    have again: "completes (\<lambda>_. True) (ptry (pbind current_ini (\<lambda>again. pensure (again = Some b) concurrent_change)) k) R u"
      if "ini_file u = Some b" "\<not> ini_linked u" "R () u" for k R u
      by (rule total_try) (use that b(5) in \<open>simp add: total_current\<close>)
    show ?thesis
      using Some b t by (auto simp: replace_ini_def overwrite_ini_def total_current Let_def intro!: again)
  qed
qed

section \<open>The property\<close>

text \<open>
  C33. The INI is replaced atomically, and only if it is what the snapshot says. Kill the replacement
  anywhere: nothing but the INI and its temporaries has changed, and the INI has the old bytes, or the
  new ones and then the snapshot was current. It returns exactly if the snapshot is current, the new
  bytes can be read back and, for a new INI, the two reserved names are free; then the INI has the new
  bytes, its digest is returned, and no temporary is left. If one of its checks refuses, it has changed
  nothing. Between the two changes of a POSIX commit the new INI has two names, and there every reader
  of the INI raises. (Under the lock of the root; editors that do not take it are outside of the
  guarantee that the source gives, and so are errors of the operating system, which stop it at one of
  these points.)
\<close>
theorem ini_replacement_is_atomic:
  assumes "replace_ini h ini new s = (trace, r, s')" and "\<not> ini_linked s"
  shows "(\<forall>u \<in> crash_points (replace_ini h ini new) s. core u = core s
        \<and> (ini_file u = ini_file s \<or> ini_file u = Some new \<and> current_snapshot h ini s)
        \<and> (ini_linked u \<longrightarrow> half_ini h new s u
             \<and> (\<forall>deck. \<exists>e. read_actual_ini h deck u = ([], Inl e, u)) \<and> (\<exists>e. active_config_dirs u = ([], Inl e, u))))
    \<and> (case r of Inr d \<Rightarrow> d = digest h new \<and> ini_switched new s s' | Inl e \<Rightarrow> s' = s)
    \<and> ((\<exists>d. r = Inr d) \<longleftrightarrow> replaceable h ini new s)"
proof -
  define I where "I u \<longleftrightarrow> core u = core s \<and> (ini_file u = ini_file s \<or> ini_file u = Some new \<and> current_snapshot h ini s)
      \<and> (ini_linked u \<longrightarrow> half_ini h new s u)" for u
  have "wp I (replace_ini h ini new) (\<lambda>d u. (d = digest h new \<and> ini_switched new s u) \<and> I u) s"
  proof (rule wp_replace_ini)
    show "I u" if "same_ini s u" for u using that assms(2) by (simp add: I_def same_ini_def)
    show "I u" if "half_ini h new s u" "current_snapshot h ini s" for u using that by (simp add: I_def half_ini_def)
    show "I u \<and> (digest h new = digest h new \<and> ini_switched new s u) \<and> I u" if "ini_switched new s u" "current_snapshot h ini s" for u
      using that by (simp add: I_def ini_switched_def)
  qed
  then have I: "wp I (replace_ini h ini new) (\<lambda>_. I) s" and returned: "r = Inr d \<Longrightarrow> d = digest h new \<and> ini_switched new s s'" for d
    using assms(1) by (auto simp: wp_def split: sum.splits)
  have "I s" using assms(2) by (simp add: I_def)
  with I have points: "crash_points (replace_ini h ini new) s \<subseteq> Collect I" by (rule wp_all_crash_points)
  have linked: "(\<forall>deck. \<exists>e. read_actual_ini h deck u = ([], Inl e, u)) \<and> (\<exists>e. active_config_dirs u = ([], Inl e, u))"
    if "ini_linked u" for u
  proof (intro conjI allI)
    show "\<exists>e. read_actual_ini h deck u = ([], Inl e, u)" for deck
      using that by (cases "validate_deck_name deck") (simp_all add: read_actual_ini_def pgets_def)
    show "\<exists>e. active_config_dirs u = ([], Inl e, u)"
      using that by (simp add: active_config_dirs_def pgets_def pbind_def ensure_def)
  qed
  have iff: "(\<exists>d. r = Inr d) \<longleftrightarrow> replaceable h ini new s" and "(\<exists>e. r = Inl e) \<longrightarrow> s' = s"
    using replace_refused [of h ini new s] replace_completes [of h ini new s] assms(1)
    by (cases "replaceable h ini new s"; auto simp: completes_def split: sum.splits)+
  then have "case r of Inr d \<Rightarrow> d = digest h new \<and> ini_switched new s s' | Inl e \<Rightarrow> s' = s"
    using returned by (auto split: sum.split)
  with iff points linked show ?thesis unfolding I_def by blast
qed

text \<open>The example: a new INI on POSIX, which can be killed while it has two names.\<close>

definition posix_host :: host where
  "posix_host = \<lparr>digest = (\<lambda>s. rev s), new_identity = (\<lambda>n. (1, int n, 0)), new_nonce = (\<lambda>n d. []), posix = True\<rparr>"

definition bare_root :: runtime where
  "bare_root = \<lparr>nodes = [], ini_file = None, state_file = None, receipts = [], journal_files = [], owner_retirements = [],
     created = 0, ini_linked = False, ini_staged = None, ini_inner = None, ini_strays = []\<rparr>"

definition no_ini :: deck_config_snapshot where
  "no_ini = \<lparr>existed = False, content = None, sha256 = None, selected_config_dir = None\<rparr>"

lemma ini_replacement_is_atomic_witness:
  "(\<exists>trace. replace_ini posix_host no_ini ini_text bare_root = (trace, Inr (rev ini_text), bare_root\<lparr>ini_file := Some ini_text\<rparr>))
   \<and> (\<exists>u \<in> crash_points (replace_ini posix_host no_ini ini_text) bare_root. ini_linked u \<and> half_ini posix_host ini_text bare_root u)"
proof -
  obtain trace r s' where run: "replace_ini posix_host no_ini ini_text bare_root = (trace, r, s')" by (rule prod_cases3)
  have "case replace_ini posix_host no_ini ini_text bare_root of (t, r, s') \<Rightarrow>
      list_ex ini_linked t \<and> r = Inr (rev ini_text) \<and> s' = bare_root\<lparr>ini_file := Some ini_text\<rparr>" by code_simp
  with run have values': "list_ex ini_linked trace" "r = Inr (rev ini_text)" "s' = bare_root\<lparr>ini_file := Some ini_text\<rparr>" by simp_all
  then obtain u where u: "ini_linked u" "u \<in> crash_points (replace_ini posix_host no_ini ini_text) bare_root"
    by (auto simp: list_ex_iff crash_points_def run)
  have "\<not> ini_linked bare_root" by (simp add: bare_root_def)
  from ini_replacement_is_atomic [OF run this] u have "half_ini posix_host ini_text bare_root u" by blast
  with u run values' show ?thesis by blast
qed

end
