(* ===== verification/RuntimeInstall.thy ===== *)
theory RuntimeInstall
  imports IniReplacement
begin

text \<open>
  The installation of a runtime package (\<open>src/src/hsconfig/runtime_installer.py\<close>, from
  \<open>_install_locked\<close> to the end of the module): the package that a manifest selects, copying and
  verifying its files, the state file and the receipt, the cleanup of the revision that the deck
  had before, and the transaction as a whole. Left out are the fault hooks, which only tests pass,
  and the attempts that an operator has retained: the index of preserved attempts is empty.
\<close>

section \<open>Names\<close>

definition STATE_IDENTITY_DOMAIN :: string where
  "STATE_IDENTITY_DOMAIN = ''hsconfig-runtime-deck-state-v1'' @ [CHR 0x00]"

definition STATE_SLUG_LIMIT :: nat where "STATE_SLUG_LIMIT = 48"

definition nfkd_ascii :: "nat \<Rightarrow> string" where
  \<comment> \<open>the ASCII characters of the NFKD form of a folded code point; the table has those below 256 whose form
    has some\<close>
  "nfkd_ascii n =
     (if n < 128 then [char_of n]
      else
        (case map_of
           [(160, '' ''), (168, '' ''), (170, ''a''), (175, '' ''), (178, ''2''), (179, ''3''), (180, '' ''),
            (184, '' ''), (185, ''1''), (186, ''o''), (188, ''14''), (189, ''12''), (190, ''34''), (231, ''c''),
            (241, ''n''), (253, ''y''), (255, ''y'')] n of
           Some s \<Rightarrow> s
         | None \<Rightarrow>
             if 224 \<le> n \<and> n \<le> 229 then ''a'' else if 232 \<le> n \<and> n \<le> 235 then ''e''
             else if 236 \<le> n \<and> n \<le> 239 then ''i'' else if 242 \<le> n \<and> n \<le> 246 then ''o''
             else if 249 \<le> n \<and> n \<le> 252 then ''u'' else []))"

definition utf8_code :: "nat \<Rightarrow> string" where
  \<comment> \<open>UTF-8 of a code point below 2048\<close>
  "utf8_code n = (if n < 128 then [char_of n] else [char_of (192 + n div 64), char_of (128 + n mod 64)])"

definition dash :: char where "dash = CHR ''-''"

fun slug_runs :: "bool \<Rightarrow> string \<Rightarrow> string" where
  \<comment> \<open>\<open>re.sub(r"[^a-z0-9]+", "-", text)\<close>; the flag says that the run before has been replaced\<close>
  "slug_runs replaced [] = []"
| "slug_runs replaced (c # s) =
     (if is_lower_alnum c then c # slug_runs False s
      else if replaced then slug_runs True s else dash # slug_runs True s)"

definition state_key_of :: "(string \<Rightarrow> string) \<Rightarrow> string \<Rightarrow> string" where
  \<comment> \<open>\<open>_state_key\<close>\<close>
  "state_key_of hash name =
     (let folded = casefold name;
          identity = hash (STATE_IDENTITY_DOMAIN @ concat (map utf8_code folded));
          slug = strip_by (\<lambda>c. c = dash) (slug_runs False (concat (map nfkd_ascii folded)));
          slug = (if slug = [] then ''deck'' else slug);
          short = rstrip_by (\<lambda>c. c = dash) (take STATE_SLUG_LIMIT slug) in
      (if short = [] then ''deck'' else short) @ ''--sha256-'' @ identity)"

section \<open>The package\<close>

record runtime_file =
  rf_relative_path :: string
  rf_size :: int
  rf_sha256 :: string
  rf_source_path :: string

record package_spec =
  spec_deck_name :: string
  spec_logical_config_dir :: string
  spec_package_root_sha256 :: string
  spec_files :: "runtime_file list"

definition package_error :: exn where "package_error = ValueError ''runtime_package_manifest_invalid''"

definition PACKAGE_PREFIX :: string where "PACKAGE_PREFIX = ''04_package/CustomConfig/''"

fun select_entries :: "manifest_entry list \<Rightarrow> (manifest_entry \<times> string \<times> string) list res" where
  \<comment> \<open>the entries below the prefix with their config and the path in it\<close>
  "select_entries [] = Inr []"
| "select_entries (e # es) =
     (if \<not> starts_with PACKAGE_PREFIX (manifest_entry.relative_path e) then select_entries es
      else
        (let suffix = drop (length PACKAGE_PREFIX) (manifest_entry.relative_path e);
             logical = takeWhile (\<lambda>c. c \<noteq> CHR ''/'') suffix;
             relative = drop 1 (dropWhile (\<lambda>c. c \<noteq> CHR ''/'') suffix) in
         if CHR ''/'' \<notin> set suffix \<or> logical = [] \<or> relative = [] then Inl package_error
         else rbind (select_entries es) (\<lambda>rows. Inr ((e, logical, relative) # rows))))"

definition digest_record :: "string \<Rightarrow> int \<Rightarrow> string \<Rightarrow> string" where
  "digest_record path n sha = utf8_encode (path @ [CHR 0x00] @ int_text n @ [CHR 0x00] @ sha @ [CHR 0x0A])"

definition runtime_package_spec :: "(string \<Rightarrow> string) \<Rightarrow> tree_manifest option \<Rightarrow> package_spec res" where
  "runtime_package_spec hash manifest =
     (case manifest of
        None \<Rightarrow> Inl (ValueError ''runtime_install_source_not_current'')
      | Some m \<Rightarrow>
          rbind (select_entries (tree_manifest.entries m)) (\<lambda>selected.
          case selected of
            [] \<Rightarrow> Inl package_error
          | (_, logical, _) # _ \<Rightarrow>
              if list_ex (\<lambda>(e, l, r). l \<noteq> logical) selected \<or> \<not> valid_component logical then Inl package_error
              else
                (let files = map (\<lambda>(e, l, relative).
                       \<lparr>rf_relative_path = relative, rf_size = manifest_entry.size e,
                        rf_sha256 = manifest_entry.sha256 e, rf_source_path = manifest_entry.relative_path e\<rparr>) selected;
                     paths = map rf_relative_path files in
                 if \<not> sorted paths \<or> \<not> distinct paths then Inl package_error
                 else
                   Inr \<lparr>spec_deck_name = tree_manifest.deck_name m, spec_logical_config_dir = logical,
                     spec_package_root_sha256 =
                       hash (concat (map (\<lambda>f. digest_record (rf_relative_path f) (rf_size f) (rf_sha256 f)) files)),
                     spec_files = files\<rparr>)))"

type_synonym source = "(string \<times> string) list"

definition read_source :: "source \<Rightarrow> string \<Rightarrow> string res" where
  \<comment> \<open>\<open>source_snapshot.read_bytes(path)\<close>\<close>
  "read_source source path =
     rbind (canonical_relative_path (PStr path)) (\<lambda>p.
     case map_of source p of None \<Rightarrow> Inl FileNotFoundError | Some c \<Rightarrow> Inr c)"

definition parent_directories :: "string list \<Rightarrow> string list" where
  \<comment> \<open>the set of all proper prefixes of the paths\<close>
  "parent_directories paths = sorted_set (concat (map (proper_prefixes CHR ''/'') paths))"

section \<open>Copying\<close>

definition ensure_tree_directory :: "host \<Rightarrow> string \<Rightarrow> string \<Rightarrow> unit effect" where
  "ensure_tree_directory h root name =
     pbind (plain_directory root) (\<lambda>t.
     if dhas (tree_directories t) name then preturn ()
     else if dhas (tree_files t) name then praise (ValueError ''filesystem_directory_invalid'')
     else if parent_path name \<noteq> [] \<and> \<not> dhas (tree_directories t) (parent_path name) then praise FileNotFoundError
     else
       pbind (pget (\<lambda>w. new_identity h (created w))) (\<lambda>i.
       pstep (\<lambda>w. count_creation (change_tree root
         (\<lambda>t. t\<lparr>tree_directories := dput name i (tree_directories t)\<rparr>) w))))"

definition copy_file :: "host \<Rightarrow> source \<Rightarrow> string \<Rightarrow> runtime_file \<Rightarrow> unit effect" where
  \<comment> \<open>the file is created empty and then written\<close>
  "copy_file h source root f =
     pbind (plift (read_source source (rf_source_path f))) (\<lambda>content.
     if int (length content) \<noteq> rf_size f \<or> digest h content \<noteq> rf_sha256 f
     then praise (ValueError ''runtime_install_source_not_current'')
     else
       pbind (plain_directory root) (\<lambda>t.
       if dhas (tree_files t) (rf_relative_path f) \<or> dhas (tree_directories t) (rf_relative_path f)
       then praise FileExistsError
       else if parent_path (rf_relative_path f) \<noteq> [] \<and> \<not> dhas (tree_directories t) (parent_path (rf_relative_path f))
       then praise FileNotFoundError
       else
         pbind (pget (\<lambda>w. new_identity h (created w))) (\<lambda>i.
         pbind (pstep (\<lambda>w. count_creation (change_tree root (\<lambda>t. t\<lparr>tree_files :=
           dput (rf_relative_path f) \<lparr>node_content = [], node_identity = i\<rparr> (tree_files t)\<rparr>) w))) (\<lambda>_.
         pstep (change_tree root (\<lambda>t. t\<lparr>tree_files :=
           dput (rf_relative_path f) \<lparr>node_content = content, node_identity = i\<rparr> (tree_files t)\<rparr>))))))"

definition copy_runtime_files :: "host \<Rightarrow> string \<Rightarrow> package_spec \<Rightarrow> source \<Rightarrow> unit effect" where
  "copy_runtime_files h candidate spec source =
     (let directories = sort_key (\<lambda>v. (slashes v, v)) (parent_directories (map rf_relative_path (spec_files spec))) in
      pbind (pfor directories (ensure_tree_directory h candidate)) (\<lambda>_.
      pfor (spec_files spec) (copy_file h source candidate)))"

section \<open>Verifying\<close>

definition verification_failed :: exn where
  "verification_failed = RuntimeError ''runtime_package_verification_failed''"

definition check_file :: "(string \<Rightarrow> string) \<Rightarrow> source option \<Rightarrow> (string \<times> string) list \<Rightarrow> runtime_file \<Rightarrow> unit res" where
  "check_file hash source files f =
     rbind (read_source files (rf_relative_path f)) (\<lambda>content.
     if int (length content) \<noteq> rf_size f \<or> hash content \<noteq> rf_sha256 f then Inl (ValueError ''content'')
     else
       (case source of
          None \<Rightarrow> Inr ()
        | Some s \<Rightarrow>
            rbind (read_source s (rf_source_path f)) (\<lambda>original. ensure (content = original) (ValueError ''content''))))"

definition view_matches :: "(string \<Rightarrow> string) \<Rightarrow> package_spec \<Rightarrow> source option \<Rightarrow> view \<Rightarrow> unit res" where
  "view_matches hash spec source = (\<lambda>(files, directories).
     (let expected = map rf_relative_path (spec_files spec) in
      if map fst files \<noteq> expected then Inl (ValueError ''membership'')
      else if directories \<noteq> parent_directories expected then Inl (ValueError ''directories'')
      else rbind (rmap (check_file hash source files) (spec_files spec)) (\<lambda>_. Inr ())))"

definition verify_runtime_tree_against_spec :: "host \<Rightarrow> string \<Rightarrow> package_spec \<Rightarrow> source option \<Rightarrow> unit effect" where
  "verify_runtime_tree_against_spec h root spec source =
     ptry (pbind (snapshot_bounded_filesystem_package root) (\<lambda>v. plift (view_matches (digest h) spec source v)))
       (\<lambda>e. praise verification_failed)"

definition view_digest :: "(string \<Rightarrow> string) \<Rightarrow> view \<Rightarrow> string" where
  "view_digest hash v =
     hash (concat (map (\<lambda>(name, content). digest_record name (int (length content)) (hash content)) (fst v)))"

definition verify_runtime_tree_digest :: "host \<Rightarrow> string \<Rightarrow> string \<Rightarrow> unit effect" where
  "verify_runtime_tree_digest h root expected =
     ptry (pbind (snapshot_bounded_filesystem_package root) (\<lambda>v.
         pensure (view_digest (digest h) v = expected) (ValueError ''digest'')))
       (\<lambda>e. praise verification_failed)"

section \<open>State and receipt\<close>

definition selected_decks :: "runtime_state option \<Rightarrow> runtime_journal \<Rightarrow> string \<Rightarrow> runtime_deck_state list" where
  \<comment> \<open>the decks of the current state without those that share a name with the journal, and its own deck last\<close>
  "selected_decks current j sha =
     filter (\<lambda>d. casefold (ds_state_key d) \<noteq> casefold (state_key j)
         \<and> casefold (ds_deck_name d) \<noteq> casefold (runtime_journal.deck_name j))
       (case current of None \<Rightarrow> [] | Some s \<Rightarrow> st_decks s)
     @ [\<lparr>ds_state_key = state_key j, ds_deck_name = runtime_journal.deck_name j,
         ds_config_dir = next_config_dir j, ds_package_root_sha256 = package_root_sha256 j, ds_ini_sha256 = sha\<rparr>]"

definition write_selected_state :: "runtime_journal \<Rightarrow> string option \<Rightarrow> runtime_state effect" where
  "write_selected_state j ini_sha256 =
     (case ini_sha256 of
        None \<Rightarrow> praise (RuntimeError ''runtime_ini_commit_verification_failed'')
      | Some sha \<Rightarrow>
          pbind read_state (\<lambda>current.
          let state = \<lparr>st_schema_version = 1, st_decks = selected_decks current j sha\<rparr> in
          pbind (plift (serialize_runtime_state state)) (\<lambda>content.
          pbind (plain_file_bytes_or_none state_file) (\<lambda>old.
          pbind (pwhen (old \<noteq> Some content) (pstep (\<lambda>w. w\<lparr>state_file := Some content\<rparr>))) (\<lambda>_.
          pbind read_state (\<lambda>written.
          if written \<noteq> Some state then praise (RuntimeError ''runtime_state_commit_verification_failed'')
          else preturn state))))))"

definition RECEIPT_SCHEMA_VERSION :: int where "RECEIPT_SCHEMA_VERSION = 1"

definition receipt_payload :: "runtime_journal \<Rightarrow> string \<Rightarrow> pyval" where
  "receipt_payload j ini_sha256 =
     PDict [(''schema_version'', PInt RECEIPT_SCHEMA_VERSION), (''state_key'', PStr (state_key j)),
            (''deck_name'', PStr (runtime_journal.deck_name j)), (''logical_config_dir'', PStr (logical_config_dir j)),
            (''config_dir'', PStr (next_config_dir j)), (''package_root_sha256'', PStr (package_root_sha256 j)),
            (''source_manifest_sha256'', PStr (source_manifest_sha256 j)), (''ini_sha256'', PStr ini_sha256)]"

definition receipt_bytes :: "pyval \<Rightarrow> string" where
  "receipt_bytes payload = document_bytes (\<lambda>v. v) payload"

definition receipt_file :: "string \<Rightarrow> runtime \<Rightarrow> string option" where
  "receipt_file key w = (case map_of (receipts w) key of None \<Rightarrow> None | Some r \<Rightarrow> r)"

definition write_receipt :: "pyval \<Rightarrow> unit effect" where
  "write_receipt payload =
     (case dget (items payload) ''state_key'' of
        PStr key \<Rightarrow>
          if \<not> valid_component key then praise (ValueError ''runtime_receipt_invalid'')
          else
            pbind (pget (\<lambda>w. dhas (receipts w) key)) (\<lambda>present.
            pbind (pwhen (\<not> present)
                (pstep (\<lambda>w. count_creation (w\<lparr>receipts := dput key None (receipts w)\<rparr>)))) (\<lambda>_.
            pbind (pstep (\<lambda>w. w\<lparr>receipts := dput key (Some (receipt_bytes payload)) (receipts w)\<rparr>)) (\<lambda>_.
            pbind (plain_file_bytes_or_none (receipt_file key)) (\<lambda>written.
            pensure (written = Some (receipt_bytes payload)) (RuntimeError ''runtime_receipt_commit_verification_failed'')))))
      | _ \<Rightarrow> praise (ValueError ''runtime_receipt_invalid''))"

section \<open>Cleanup of an old revision\<close>

definition replaced :: "runtime_journal \<Rightarrow> runtime_journal effect" where
  \<comment> \<open>\<open>dataclasses.replace\<close> checks the new journal\<close>
  "replaced j = plift (RuntimeTransactionJournal j)"

definition entry_of :: "tree \<Rightarrow> string \<Rightarrow> string \<Rightarrow> cleanup_entry res" where
  "entry_of t entry_kind name =
     (case (if entry_kind = ''file'' then map_option node_identity (map_of (tree_files t) name)
            else map_of (tree_directories t) name) of
        None \<Rightarrow> Inl FileNotFoundError
      | Some i \<Rightarrow> RuntimeCleanupEntry (PStr entry_kind) (PStr name) (Some i))"

definition prepare_cleanup_journal :: "host \<Rightarrow> runtime_journal \<Rightarrow> string \<Rightarrow> runtime_journal option effect" where
  "prepare_cleanup_journal h owner target =
     pbind (snapshot_bounded_filesystem_package target) (\<lambda>(files, directories).
     pbind (plain_directory target) (\<lambda>t.
     pbind (plift (rmap (\<lambda>(k, n). entry_of t k n)
        (map (Pair ''file'') (deepest_first (map fst files)) @ map (Pair ''directory'') (deepest_first directories)))) (\<lambda>es.
     pbind (replaced (owner\<lparr>cleanup_started := True, cleanup_entries := es, cleanup_cursor := 0\<rparr>)) (\<lambda>cleanup.
     case runtime_transaction_journal_bytes cleanup of
       Inl e \<Rightarrow> (case e of ValueError _ \<Rightarrow> preturn None | _ \<Rightarrow> praise e)
     | Inr _ \<Rightarrow> pbind (write_journal h cleanup) (\<lambda>_. preturn (Some cleanup))))))"

definition validate_remaining_cleanup_inventory :: "string \<Rightarrow> runtime_journal \<Rightarrow> unit effect" where
  "validate_remaining_cleanup_inventory target j =
     pbind (snapshot_bounded_filesystem_package target) (\<lambda>(files, directories).
     pbind (plain_directory target) (\<lambda>t.
     let rows = enumerate 0 (cleanup_entries j);
         expected = map (\<lambda>(i, e). ((kind e, cleanup_entry.relative_path e), (i, e))) rows;
         ok = (\<lambda>key actual. case map_of (rev expected) key of
                 None \<Rightarrow> False | Some (i, e) \<Rightarrow> int i \<ge> cleanup_cursor j \<and> cleanup_entry.identity e = actual) in
     pensure
       (list_all (\<lambda>(n, _). ok (''file'', n) (map_option node_identity (map_of (tree_files t) n))) files
        \<and> list_all (\<lambda>n. ok (''directory'', n) (map_of (tree_directories t) n)) directories)
       ambiguous))"

definition cleanup_step :: "host \<Rightarrow> string \<Rightarrow> runtime_journal \<Rightarrow> nat \<Rightarrow> runtime_journal \<Rightarrow> runtime_journal effect" where
  \<comment> \<open>the body of the loop over the entries, with the journal written last\<close>
  "cleanup_step h target j i current =
     (let e = cleanup_entries j ! i; name = cleanup_entry.relative_path e in
      pbind (plain_directory target) (\<lambda>t.
      pbind (if dhas (tree_files t) name then
          if map_option node_identity (map_of (tree_files t) name) \<noteq> cleanup_entry.identity e \<or> kind e \<noteq> ''file''
          then praise ambiguous else unlink_in_tree target name
        else if dhas (tree_directories t) name then
          if map_of (tree_directories t) name \<noteq> cleanup_entry.identity e \<or> kind e \<noteq> ''directory''
          then praise ambiguous else rmdir_in_tree target name
        else preturn ()) (\<lambda>_.
      pbind (replaced (current\<lparr>cleanup_cursor := int i + 1\<rparr>)) (\<lambda>next_journal.
      pbind (write_journal h next_journal) (\<lambda>_.
      preturn next_journal)))))"

definition resume_owned_cleanup :: "host \<Rightarrow> runtime_journal \<Rightarrow> bool effect" where
  "resume_owned_cleanup h j =
     (if \<not> cleanup_started j \<or> target_identity j = None then praise ambiguous
      else
        pbind (pget (\<lambda>w. transaction_id j \<in> set (owner_retirements w))) (\<lambda>retired.
        if retired then praise (RuntimeError ''runtime_owner_retirement_recovery_required'')
        else
          pbind active_config_dirs (\<lambda>active.
          if (case active of None \<Rightarrow> True | Some a \<Rightarrow> casefold (next_config_dir j) \<in> set a) then preturn False
          else
            pbind (path_lexists (target_path j)) (\<lambda>present.
            if \<not> present then pbind (delete_journal (transaction_id j)) (\<lambda>_. preturn True)
            else
              pbind (plain_directory_identity (target_path j)) (\<lambda>i.
              if Some i \<noteq> target_identity j then praise ambiguous
              else
                pbind (validate_remaining_cleanup_inventory (target_path j) j) (\<lambda>_.
                pbind (pfold (cleanup_step h (target_path j) j)
                    [nat (cleanup_cursor j)..<length (cleanup_entries j)] j) (\<lambda>_.
                pbind (plain_directory (target_path j)) (\<lambda>t.
                if tree_files t \<noteq> [] \<or> tree_directories t \<noteq> [] then praise ambiguous
                else
                  pbind (rmdir_root (target_path j)) (\<lambda>_.
                  pbind (delete_journal (transaction_id j)) (\<lambda>_.
                  preturn True))))))))))"

definition owner_of :: "string \<Rightarrow> runtime_journal \<Rightarrow> bool" where
  \<comment> \<open>the journal owns the config directory of that name\<close>
  "owner_of old j =
     (phase j = FINALIZED \<and> owns_target j \<and> casefold (target_path j) = casefold (''CustomConfig/'' @ old))"

definition cleanup_owner :: "host \<Rightarrow> runtime_journal \<Rightarrow> bool effect" where
  \<comment> \<open>the part of \<open>_cleanup_old_revision\<close> after its only owner is found\<close>
  "cleanup_owner h owner =
     pbind (path_lexists (target_path owner)) (\<lambda>present.
     if \<not> present then
       pbind (pget (\<lambda>w. dhas (journal_files w) (final_path (transaction_id owner)))) (\<lambda>journal_present.
       pbind (delete_journal (transaction_id owner)) (\<lambda>_.
       preturn journal_present))
     else
       pbind (plain_directory_identity (target_path owner)) (\<lambda>i.
       if target_identity owner \<noteq> Some i then praise ambiguous
       else if cleanup_started owner then
         pbind (pget (\<lambda>w. transaction_id owner \<in> set (owner_retirements w))) (\<lambda>retired.
         if retired then praise (RuntimeError ''runtime_owner_retirement_recovery_required'')
         else pbind (resume_owned_cleanup h owner) (\<lambda>_. preturn True))
       else
         pbind (verify_runtime_tree_digest h (target_path owner) (package_root_sha256 owner)) (\<lambda>_.
         pbind (prepare_cleanup_journal h owner (target_path owner)) (\<lambda>cleanup.
         case cleanup of
           None \<Rightarrow> preturn False
         | Some c \<Rightarrow> pbind (resume_owned_cleanup h c) (\<lambda>_. preturn True)))))"

definition cleanup_old_revision :: "host \<Rightarrow> runtime_journal \<Rightarrow> bool effect" where
  "cleanup_old_revision h j =
     (case previous_config_dir j of
        None \<Rightarrow> preturn False
      | Some old \<Rightarrow>
          if same_config_dir (Some old) (Some (next_config_dir j)) then preturn False
          else
            pbind active_config_dirs (\<lambda>active.
            if (case active of None \<Rightarrow> True | Some a \<Rightarrow> casefold old \<in> set a) then preturn False
            else
              pbind load_journals (\<lambda>js.
              case filter (owner_of old) js of
                [owner] \<Rightarrow> cleanup_owner h owner
              | _ \<Rightarrow> preturn False)))"

section \<open>The transaction\<close>

record install_plan =
  plan_deck_name :: string
  plan_logical_config_dir :: string
  plan_versioned_config_dir :: string
  plan_package_root_sha256 :: string
  plan_revision_name :: string
    \<comment> \<open>\<open>source_revision_root.name\<close>\<close>

datatype install_status = APPLIED | ALREADY_CURRENT | RECOVERED | COMMITTED_RECEIPT_PENDING

record install_result =
  result_status :: install_status
  result_config_dir :: string
  result_package_root_sha256 :: string
  result_previous_config_dir :: "string option"
  result_receipt :: bool
    \<comment> \<open>\<open>receipt_path is not None\<close>\<close>
  runtime_write_performed :: bool

definition PLAN :: "install_plan \<Rightarrow> install_plan res" where
  \<comment> \<open>\<open>RuntimeInstallPlan.__post_init__\<close>\<close>
  "PLAN p =
     (if \<not> valid_deck_name (plan_deck_name p) \<or> \<not> valid_component (plan_logical_config_dir p)
         \<or> \<not> is_sha256_hex (plan_package_root_sha256 p)
         \<or> plan_versioned_config_dir p \<noteq> plan_logical_config_dir p @ ''--sha256-'' @ plan_package_root_sha256 p
         \<or> \<not> valid_component (plan_versioned_config_dir p)
      then
        Inl (if int (length (plan_versioned_config_dir p)) > SAFE_COMPONENT_LIMIT
             then ValueError ''runtime_config_component_too_long'' else ValueError ''runtime_install_plan_invalid'')
      else Inr p)"

definition plan_source_sha256 :: "install_plan \<Rightarrow> string res" where
  \<comment> \<open>\<open>_source_manifest_sha256\<close>\<close>
  "plan_source_sha256 p =
     (let name = plan_revision_name p in
      if \<not> starts_with ''sha256-'' name \<or> \<not> is_sha256_hex (drop 7 name)
      then Inl (ValueError ''runtime_install_plan_invalid'') else Inr (drop 7 name))"

definition target_dir :: "install_plan \<Rightarrow> string" where
  "target_dir p = ''CustomConfig/'' @ plan_versioned_config_dir p"

definition prepared_journal ::
    "(string \<Rightarrow> string) \<Rightarrow> install_plan \<Rightarrow> string \<Rightarrow> deck_config_snapshot \<Rightarrow> string \<Rightarrow> string \<Rightarrow> runtime_journal" where
  "prepared_journal hash p source_sha ini next_ini_sha t =
     \<lparr>runtime_journal.schema_version = 1, transaction_id = t, runtime_journal.deck_name = plan_deck_name p,
      source_manifest_sha256 = source_sha, state_key = state_key_of hash (plan_deck_name p),
      logical_config_dir = plan_logical_config_dir p, package_root_sha256 = plan_package_root_sha256 p,
      candidate_path = ''.hsconfig/staging/'' @ t, target_path = target_dir p,
      candidate_identity = None, target_identity = None, owns_target = False,
      previous_config_dir = selected_config_dir ini, next_config_dir = plan_versioned_config_dir p,
      previous_ini_sha256 = deck_config_snapshot.sha256 ini, next_ini_sha256 = next_ini_sha,
      phase = PREPARED, cleanup_started = False, cleanup_entries = [], cleanup_cursor = 0\<rparr>"

definition advance :: "host \<Rightarrow> runtime_journal \<Rightarrow> runtime_journal effect" where
  \<comment> \<open>a changed journal is checked, written and used from here on\<close>
  "advance h j = pbind (replaced j) (\<lambda>j. pbind (write_journal h j) (\<lambda>_. preturn j))"

definition require_unambiguous_owner :: "string \<Rightarrow> string \<Rightarrow> runtime_journal effect" where
  "require_unambiguous_owner target root_sha =
     pbind (plain_directory_identity target) (\<lambda>i.
     pbind load_journals (\<lambda>js.
     case filter (\<lambda>j. phase j = FINALIZED \<and> owns_target j \<and> target_path j = target
            \<and> package_root_sha256 j = root_sha \<and> target_identity j = Some i) js of
       [owner] \<Rightarrow> preturn owner
     | _ \<Rightarrow> praise (RuntimeError ''runtime_digest_target_conflict'')))"

definition stage_candidate :: "host \<Rightarrow> package_spec \<Rightarrow> source \<Rightarrow> runtime_journal \<Rightarrow> runtime_journal effect" where
  \<comment> \<open>from the first journal to the verified candidate\<close>
  "stage_candidate h spec source j =
     pbind (write_journal h j) (\<lambda>_.
     pbind (secure_create_directory h (candidate_path j)) (\<lambda>i.
     pbind (advance h (j\<lparr>candidate_identity := Some i\<rparr>)) (\<lambda>j.
     pbind (copy_runtime_files h (candidate_path j) spec source) (\<lambda>_.
     pbind (advance h (j\<lparr>phase := RUNTIME_STAGED\<rparr>)) (\<lambda>j.
     pbind (verify_runtime_tree_against_spec h (candidate_path j) spec (Some source)) (\<lambda>_.
     advance h (j\<lparr>phase := RUNTIME_VERIFIED\<rparr>)))))))"

definition place_target :: "host \<Rightarrow> package_spec \<Rightarrow> source \<Rightarrow> runtime_journal \<Rightarrow> runtime_journal effect" where
  \<comment> \<open>the candidate becomes the target, or the existing target is used\<close>
  "place_target h spec source j =
     pbind (path_lexists (target_path j)) (\<lambda>present.
     if present then
       pbind (plain_directory_identity (target_path j)) (\<lambda>i.
       pbind (ptry
         (pbind (verify_runtime_tree_against_spec h (target_path j) spec (Some source)) (\<lambda>_.
          require_unambiguous_owner (target_path j) (package_root_sha256 j)))
         (\<lambda>e. praise (RuntimeError ''runtime_digest_target_conflict''))) (\<lambda>_.
       pbind (remove_owned_tree (candidate_path j) (the (candidate_identity j))) (\<lambda>_.
       advance h (j\<lparr>target_identity := Some i, owns_target := False\<rparr>))))
     else
       pbind (rename_directory (candidate_path j) (target_path j)) (\<lambda>_.
       pbind (plain_directory_identity (target_path j)) (\<lambda>i.
       if Some i \<noteq> candidate_identity j then praise (RuntimeError ''runtime_target_identity_changed'')
       else advance h (j\<lparr>target_identity := Some i, owns_target := True\<rparr>))))"

definition commit_ini ::
    "host \<Rightarrow> package_spec \<Rightarrow> source \<Rightarrow> deck_config_snapshot \<Rightarrow> string \<Rightarrow> runtime_journal
      \<Rightarrow> (runtime_journal \<times> string) effect" where
  \<comment> \<open>the INI selects the target\<close>
  "commit_ini h spec source ini next_ini j =
     pbind (verify_runtime_tree_against_spec h (target_path j) spec (Some source)) (\<lambda>_.
     pbind (replace_ini h ini next_ini) (\<lambda>committed_sha.
     pbind (read_actual_ini h (runtime_journal.deck_name j)) (\<lambda>committed.
     if selected_config_dir committed \<noteq> Some (next_config_dir j)
        \<or> deck_config_snapshot.sha256 committed \<noteq> Some committed_sha \<or> committed_sha \<noteq> next_ini_sha256 j
     then praise (RuntimeError ''runtime_ini_commit_verification_failed'')
     else
       pbind (verify_runtime_tree_against_spec h (target_path j) spec (Some source)) (\<lambda>_.
       pbind (plain_directory_identity (target_path j)) (\<lambda>i.
       pbind (advance h (j\<lparr>target_identity := Some i, phase := INI_COMMITTED\<rparr>)) (\<lambda>j.
       preturn (j, committed_sha)))))))"

definition finish_install ::
    "host \<Rightarrow> bool \<Rightarrow> install_plan \<Rightarrow> deck_config_snapshot \<Rightarrow> runtime_journal \<Rightarrow> string \<Rightarrow> install_result effect" where
  \<comment> \<open>state, receipt and cleanup; an error of the receipt leaves a committed transaction for the recovery\<close>
  "finish_install h retain p ini j committed_sha =
     (let done = (\<lambda>status receipt.
        \<lparr>result_status = status, result_config_dir = plan_versioned_config_dir p,
         result_package_root_sha256 = plan_package_root_sha256 p,
         result_previous_config_dir = selected_config_dir ini,
         result_receipt = receipt, runtime_write_performed = True\<rparr>) in
      pbind (write_selected_state j (Some committed_sha)) (\<lambda>_.
      pbind (advance h (j\<lparr>phase := STATE_COMMITTED\<rparr>)) (\<lambda>j.
      pbind (ptry (pbind (write_receipt (receipt_payload j committed_sha)) (\<lambda>_. preturn True)) (\<lambda>e. preturn False)) (\<lambda>ok.
      if \<not> ok then preturn (done COMMITTED_RECEIPT_PENDING False)
      else
        pbind (advance h (j\<lparr>phase := FINALIZED\<rparr>)) (\<lambda>j.
        pbind (cleanup_old_revision h j) (\<lambda>_.
        pbind (pwhen (\<not> owns_target j \<and> \<not> retain) (delete_journal (transaction_id j))) (\<lambda>_.
        preturn (done APPLIED True))))))))"

definition install_locked ::
    "host \<Rightarrow> install_plan \<Rightarrow> package_spec \<Rightarrow> source option \<Rightarrow> deck_config_snapshot \<Rightarrow> string \<Rightarrow> bool
      \<Rightarrow> install_result effect" where
  "install_locked h p spec source_snapshot ini t retain =
     (case source_snapshot of
        None \<Rightarrow> praise (ValueError ''runtime_install_source_not_current'')
      | Some source \<Rightarrow>
          if \<not> is_transaction_id t then praise journal_error
          else
            pbind (plift (render_deck_config ini (plan_deck_name p) (plan_versioned_config_dir p))) (\<lambda>next_ini.
            pbind (plift (plan_source_sha256 p)) (\<lambda>source_sha.
            pbind (replaced (prepared_journal (digest h) p source_sha ini (digest h next_ini) t)) (\<lambda>j.
            pbind (stage_candidate h spec source j) (\<lambda>j.
            pbind (place_target h spec source j) (\<lambda>j.
            pbind (commit_ini h spec source ini next_ini j) (\<lambda>(j, committed_sha).
            finish_install h retain p ini j committed_sha)))))))"

end
