(* ===== verification/RuntimeRecovery.thy ===== *)
theory RuntimeRecovery
  imports RuntimeInstall
begin

text \<open>
  The recovery of a runtime root (\<open>_recover_locked\<close> in \<open>src/src/hsconfig/runtime_installer.py\<close> and what
  it calls) and the installation around the transaction: recover first, return if the revision is
  already selected, install otherwise, and try to recover when the installation raises.
\<close>

section \<open>Ownership\<close>

definition staging_names :: "runtime \<Rightarrow> string list" where
  \<comment> \<open>the entries of \<open>.hsconfig/staging\<close>\<close>
  "staging_names w =
     map (\<lambda>(path, n). drop 18 path) (filter (\<lambda>(path, n). starts_with ''.hsconfig/staging/'' path) (nodes w))"

definition staging_entry_owned :: "runtime_journal list \<Rightarrow> runtime \<Rightarrow> string \<Rightarrow> bool" where
  "staging_entry_owned js w name =
     (case find (\<lambda>j. transaction_id j = name) (rev js) of
        None \<Rightarrow> False
      | Some j \<Rightarrow>
          candidate_path j = ''.hsconfig/staging/'' @ name \<and> candidate_identity j \<noteq> None
          \<and> (case map_of (nodes w) (''.hsconfig/staging/'' @ name) of
               Some (Directory t) \<Rightarrow> Some (tree_identity t) = candidate_identity j | _ \<Rightarrow> False))"

definition validate_recovery_ownership :: "runtime_journal list \<Rightarrow> unit effect" where
  "validate_recovery_ownership js =
     (if \<not> distinct (map (\<lambda>j. casefold (target_path j)) (filter owns_target js)) then praise ambiguous
      else
        pbind (pget staging_names) (\<lambda>names.
        pbind (pget (\<lambda>w. list_all (staging_entry_owned js w) names)) (\<lambda>owned.
        pensure (length names \<le> 1024 \<and> owned) ambiguous)))"

section \<open>One journal\<close>

definition recover_selected ::
    "host \<Rightarrow> runtime_journal \<Rightarrow> deck_config_snapshot \<Rightarrow> file_identity option \<Rightarrow> file_identity option \<Rightarrow> bool effect" where
  \<comment> \<open>the INI selects the directory of the journal: complete the transaction. The value says whether
    anything was repaired.\<close>
  "recover_selected h j ini candidate target =
     (if target = None \<or> deck_config_snapshot.sha256 ini \<noteq> Some (next_ini_sha256 j)
      then praise (RuntimeError ''runtime_recovery_committed_target_invalid'')
      else
        pbind (verify_runtime_tree_digest h (target_path j) (package_root_sha256 j)) (\<lambda>_.
        pbind (if phase j \<in> {PREPARED, RUNTIME_STAGED, RUNTIME_VERIFIED} then
            pbind (advance h (j\<lparr>target_identity := target,
              owns_target := (owns_target j \<or> candidate_identity j = target), phase := INI_COMMITTED\<rparr>)) (\<lambda>j.
            preturn (j, True))
          else preturn (j, False)) (\<lambda>(j, r1).
        pbind (case candidate of None \<Rightarrow> preturn False
          | Some i \<Rightarrow> pbind (remove_owned_tree (candidate_path j) i) (\<lambda>_. preturn True)) (\<lambda>r2.
        pbind read_state (\<lambda>state_before.
        pbind (write_selected_state j (deck_config_snapshot.sha256 ini)) (\<lambda>expected_state.
        pbind (if phase j = INI_COMMITTED then
            pbind (advance h (j\<lparr>phase := STATE_COMMITTED\<rparr>)) (\<lambda>j. preturn (j, True))
          else preturn (j, False)) (\<lambda>(j, r3).
        let payload = receipt_payload j (next_ini_sha256 j) in
        pbind (plain_file_bytes_or_none (receipt_file (state_key j))) (\<lambda>receipt.
        pbind (if receipt \<noteq> Some (receipt_bytes payload) then pbind (write_receipt payload) (\<lambda>_. preturn True)
          else preturn False) (\<lambda>r4.
        pbind (if phase j = STATE_COMMITTED then
            pbind (advance h (j\<lparr>phase := FINALIZED\<rparr>)) (\<lambda>j. preturn (j, True))
          else preturn (j, False)) (\<lambda>(j, r5).
        pbind (cleanup_old_revision h j) (\<lambda>r6.
        pbind (pwhen (\<not> owns_target j) (delete_journal (transaction_id j))) (\<lambda>_.
        preturn (r1 \<or> r2 \<or> state_before \<noteq> Some expected_state \<or> r3 \<or> r4 \<or> r5 \<or> r6 \<or> \<not> owns_target j)))))))))))))"

definition recover_unselected ::
    "host \<Rightarrow> runtime_journal \<Rightarrow> bool \<Rightarrow> file_identity option \<Rightarrow> file_identity option \<Rightarrow> bool effect" where
  \<comment> \<open>the INI does not select the directory of the journal: roll the transaction back\<close>
  "recover_unselected h j rename_window candidate target =
     (if phase j \<in> {INI_COMMITTED, STATE_COMMITTED} then praise (RuntimeError ''runtime_recovery_ini_conflict'')
      else
        pbind (case candidate of None \<Rightarrow> preturn False
          | Some i \<Rightarrow> pbind (remove_owned_tree (candidate_path j) i) (\<lambda>_. preturn True)) (\<lambda>r1.
        pbind active_config_dirs (\<lambda>active.
        pbind (if target \<noteq> None \<and> (owns_target j \<or> rename_window)
              \<and> (case active of None \<Rightarrow> False | Some a \<Rightarrow> casefold (next_config_dir j) \<notin> set a) then
            pbind (verify_runtime_tree_digest h (target_path j) (package_root_sha256 j)) (\<lambda>_.
            pbind (remove_owned_tree (target_path j) (the target)) (\<lambda>_.
            preturn True))
          else preturn False) (\<lambda>r2.
        if phase j \<noteq> FINALIZED then pbind (delete_journal (transaction_id j)) (\<lambda>_. preturn True)
        else preturn (r1 \<or> r2)))))"

definition recover_journal :: "host \<Rightarrow> runtime_journal \<Rightarrow> bool effect" where
  \<comment> \<open>the body of the loop over the journals\<close>
  "recover_journal h original =
     pbind (directory_identity_or_none (candidate_path original)) (\<lambda>candidate.
     pbind (directory_identity_or_none (target_path original)) (\<lambda>target.
     if candidate \<noteq> None \<and> candidate_identity original \<noteq> candidate then praise ambiguous
     else if cleanup_started original then resume_owned_cleanup h original
     else
       (let rename_window = target \<noteq> None \<and> target_identity original = None \<and> candidate_identity original = target in
        if target_identity original \<noteq> None \<and> target \<noteq> target_identity original then praise ambiguous
        else
          pbind (if rename_window then
              pbind (advance h (original\<lparr>target_identity := target, owns_target := True\<rparr>)) (\<lambda>j. preturn (j, True))
            else preturn (original, False)) (\<lambda>(j, r1).
          pbind (read_actual_ini h (runtime_journal.deck_name j)) (\<lambda>ini.
          pbind (if same_config_dir (selected_config_dir ini) (Some (next_config_dir j))
              then recover_selected h j ini candidate target
              else recover_unselected h j rename_window candidate target) (\<lambda>r2.
          preturn (r1 \<or> r2)))))))"

section \<open>The root\<close>

definition verify_active_state_targets :: "host \<Rightarrow> runtime_state option \<Rightarrow> unit effect" where
  "verify_active_state_targets h state =
     (case state of
        None \<Rightarrow> preturn ()
      | Some s \<Rightarrow>
          pbind active_config_dirs (\<lambda>active.
          case active of
            None \<Rightarrow> preturn ()
          | Some a \<Rightarrow>
              pfor (filter (\<lambda>d. casefold (ds_config_dir d) \<in> set a) (st_decks s)) (\<lambda>d.
                verify_runtime_tree_digest h (''CustomConfig/'' @ ds_config_dir d) (ds_package_root_sha256 d))))"

definition recover_locked :: "host \<Rightarrow> (runtime_state option \<times> bool) effect" where
  \<comment> \<open>the state and whether anything was repaired\<close>
  "recover_locked h =
     pbind load_journals (\<lambda>js.
     pbind (validate_recovery_ownership js) (\<lambda>_.
     pbind (pfold (\<lambda>j repaired. pbind (recover_journal h j) (\<lambda>r. preturn (repaired \<or> r))) js False) (\<lambda>repaired.
     pbind read_state (\<lambda>state.
     pbind (verify_active_state_targets h state) (\<lambda>_.
     preturn (state, repaired))))))"

section \<open>Installing\<close>

definition finalized_noop_journal ::
    "(string \<Rightarrow> string) \<Rightarrow> install_plan \<Rightarrow> deck_config_snapshot \<Rightarrow> string \<Rightarrow> file_identity option \<Rightarrow> runtime_journal res" where
  "finalized_noop_journal hash p ini t target =
     (case deck_config_snapshot.sha256 ini of
        None \<Rightarrow> Inl (RuntimeError ''runtime_already_current_journal_invalid'')
      | Some sha \<Rightarrow>
          if selected_config_dir ini \<noteq> Some (plan_versioned_config_dir p) \<or> target = None
          then Inl (RuntimeError ''runtime_already_current_journal_invalid'')
          else
            rbind (plan_source_sha256 p) (\<lambda>source_sha.
            RuntimeTransactionJournal
              ((prepared_journal hash p source_sha ini sha t)\<lparr>target_identity := target, phase := FINALIZED\<rparr>)))"

definition already_current ::
    "host \<Rightarrow> install_plan \<Rightarrow> package_spec \<Rightarrow> source option \<Rightarrow> deck_config_snapshot \<Rightarrow> string \<Rightarrow> bool \<Rightarrow> bool
      \<Rightarrow> install_result effect" where
  \<comment> \<open>the INI already selects the revision of the plan\<close>
  "already_current h p spec source ini t caller_owned repaired =
     pbind (verify_runtime_tree_against_spec h (target_dir p) spec source) (\<lambda>_.
     pbind (require_unambiguous_owner (target_dir p) (plan_package_root_sha256 p)) (\<lambda>owner.
     pbind (require_unambiguous_owner (target_dir p) (plan_package_root_sha256 p)) (\<lambda>state_owner.
     pbind (plain_file_bytes_or_none state_file) (\<lambda>state_before.
     pbind (write_selected_state state_owner (deck_config_snapshot.sha256 ini)) (\<lambda>_.
     pbind (plain_file_bytes_or_none state_file) (\<lambda>state_after.
     pbind (pget (\<lambda>w. receipt_file (state_key_of (digest h) (plan_deck_name p)) w = None)) (\<lambda>receipt_missing.
     pbind (if receipt_missing then
         (case deck_config_snapshot.sha256 ini of
            None \<Rightarrow> praise (RuntimeError ''runtime_ini_commit_verification_failed'')
          | Some sha \<Rightarrow>
              pbind (plift (plan_source_sha256 p)) (\<lambda>source_sha.
              write_receipt (receipt_payload (prepared_journal (digest h) p source_sha ini sha t) sha)))
       else preturn ()) (\<lambda>_.
     pbind (if caller_owned then
         pbind (plift (finalized_noop_journal (digest h) p ini t (target_identity owner))) (write_journal h)
       else preturn ()) (\<lambda>_.
     preturn \<lparr>result_status = (if repaired then RECOVERED else ALREADY_CURRENT),
       result_config_dir = plan_versioned_config_dir p, result_package_root_sha256 = plan_package_root_sha256 p,
       result_previous_config_dir = selected_config_dir ini, result_receipt = True,
       runtime_write_performed = (repaired \<or> state_after \<noteq> state_before \<or> receipt_missing \<or> caller_owned)\<rparr>)))))))))"

definition install_runtime_package ::
    "host \<Rightarrow> install_plan \<Rightarrow> package_spec \<Rightarrow> source option \<Rightarrow> string \<Rightarrow> bool \<Rightarrow> install_result effect" where
  \<comment> \<open>\<open>_install_runtime_package_under_output_operation\<close> with the leases held and the layout complete\<close>
  "install_runtime_package h p spec source t caller_owned =
     pbind (pget (\<lambda>w. dhas (journal_files w) (final_path t))) (\<lambda>present.
     if present then praise (RuntimeError ''runtime_transaction_recovery_required'')
     else
       ptry
         (pbind (recover_locked h) (\<lambda>(state, repaired).
          pbind (read_actual_ini h (plan_deck_name p)) (\<lambda>ini.
          if same_config_dir (selected_config_dir ini) (Some (plan_versioned_config_dir p))
          then already_current h p spec source ini t caller_owned repaired
          else install_locked h p spec source ini t caller_owned)))
         (\<lambda>primary.
          pbind (ptry (pbind (recover_locked h) (\<lambda>_. preturn ())) (\<lambda>e. preturn ())) (\<lambda>_.
          praise primary)))"

end
