(* ===== verification/RuntimeSafety.thy ===== *)
theory RuntimeSafety
  imports RuntimeRecovery
begin

text \<open>
  What the installer and its recovery never do: at no crash point is a directory that the INI names
  changed, and the INI itself is changed by the installation only, once, after the new directory is
  complete. The theorems hold for every root, whatever its journals and directories are.
\<close>

section \<open>The part of the root that the game sees\<close>

definition config_path :: "string \<Rightarrow> string" where
  "config_path n = ''CustomConfig/'' @ n"

definition names_dir :: "string option \<Rightarrow> string \<Rightarrow> bool" where
  \<comment> \<open>an INI with these bytes may name the directory\<close>
  "names_dir file n = (case active_dirs file of None \<Rightarrow> True | Some a \<Rightarrow> casefold n \<in> set a)"

type_synonym game_view = "string option \<times> (bool \<times> string option \<times> string option \<times> string list) \<times> (string \<Rightarrow> node option)"

definition view :: "(string option \<Rightarrow> string \<Rightarrow> bool) \<Rightarrow> runtime \<Rightarrow> game_view" where
  \<comment> \<open>the INI, what is beside it, and the config directories that \<open>K\<close> selects\<close>
  "view K w = (ini_file w, (ini_linked w, beside w),
     \<lambda>n. if K (ini_file w) n then map_of (nodes w) (config_path n) else None)"

definition outside :: "(string option \<Rightarrow> string \<Rightarrow> bool) \<Rightarrow> game_view \<Rightarrow> string \<Rightarrow> bool" where
  "outside K c path = (\<forall>n. path = config_path n \<longrightarrow> \<not> K (fst c) n)"

definition staging_path :: "string \<Rightarrow> string" where
  "staging_path t = ''.hsconfig/staging/'' @ t"

lemma config_path_inj [simp]: "config_path m = config_path n \<longleftrightarrow> m = n"
  by (simp add: config_path_def)

lemma config_not_staging [simp]: "config_path n \<noteq> staging_path t" "staging_path t \<noteq> config_path n"
  by (simp_all add: config_path_def staging_path_def)

lemma outside_staging [simp]: "outside K c (staging_path t)"
  by (simp add: outside_def)

lemma outside_config: "\<not> K (fst c) n \<Longrightarrow> outside K c (config_path n)"
  by (simp add: outside_def config_path_def)

lemma view_nodes:
  assumes "view K w = c" and "outside K c path" and "\<And>q. q \<noteq> path \<Longrightarrow> map_of ns q = map_of (nodes w) q"
  shows "view K (w\<lparr>nodes := ns\<rparr>) = c"
proof -
  have "map_of ns (config_path n) = map_of (nodes w) (config_path n)" if "K (ini_file w) n" for n
    using that assms by (intro assms(3)) (auto simp: outside_def view_def)
  then show ?thesis using assms(1) by (auto simp: view_def beside_def)
qed

lemma view_steps:
  assumes "view K w = c" and "outside K c path"
  shows "view K (put_node path x w) = c" and "view K (drop_node path w) = c" and "view K (change_tree path f w) = c"
proof -
  show put: "view K (put_node path x w) = c" for x unfolding put_node_def by (rule view_nodes [OF assms]) simp
  show "view K (drop_node path w) = c" unfolding drop_node_def by (rule view_nodes [OF assms]) simp
  show "view K (change_tree path f w) = c"
    unfolding change_tree_def using put assms(1) by (simp split: option.splits node.splits)
qed

lemma view_unrelated [simp]:
  "view K (w\<lparr>state_file := x\<rparr>) = view K w" "view K (w\<lparr>receipts := r\<rparr>) = view K w"
  "view K (w\<lparr>journal_files := d\<rparr>) = view K w" "view K (count_creation w) = view K w"
  "view K (put_temp t n b w) = view K w"
  by (simp_all add: view_def beside_def count_creation_def put_temp_def fun_eq_iff)

section \<open>Operations that keep it\<close>

lemma keeps_readings [keeps_rules]:
  "keeps p c (plain_directory path)" "keeps p c (path_lexists path)" "keeps p c (plain_directory_identity path)"
  "keeps p c (directory_identity_or_none path)" "keeps p c (snapshot_bounded_filesystem_package path)"
  "keeps p c (plain_file_bytes_or_none f)" "keeps p c (read_actual_ini h deck)" "keeps p c read_state"
  "keeps p c active_config_dirs" "keeps p c (verify_runtime_tree_against_spec h path spec source)"
  "keeps p c (verify_runtime_tree_digest h path d)" "keeps p c (replaced j)"
  "keeps p c (validate_recovery_ownership js)" "keeps p c (verify_active_state_targets h st)"
  "keeps p c (validate_remaining_cleanup_inventory path j)"
  unfolding plain_directory_def path_lexists_def plain_directory_identity_def directory_identity_or_none_def
    snapshot_bounded_filesystem_package_def plain_file_bytes_or_none_def read_actual_ini_def read_state_def
    active_config_dirs_def verify_runtime_tree_against_spec_def verify_runtime_tree_digest_def replaced_def
    validate_recovery_ownership_def verify_active_state_targets_def validate_remaining_cleanup_inventory_def
  by (intro keeps_rules)+

lemma keeps_journals [keeps_rules]:
  "keeps (view K) c (write_journal h j)" "keeps (view K) c load_journals" "keeps (view K) c (delete_journal t)"
  "keeps (view K) c (advance h j)"
  unfolding write_journal_def load_journals_def delete_journal_def advance_def replaced_def
  by (intro keeps_rules; simp)+

lemma keeps_owner [keeps_rules]: "keeps (view K) c (require_unambiguous_owner path d)"
  unfolding require_unambiguous_owner_def
  by (intro keeps_rules; auto split: list.splits)

lemma keeps_PStr:
  "(\<And>k. keeps p c (f k)) \<Longrightarrow> keeps p c m \<Longrightarrow> keeps p c (case v of PStr k \<Rightarrow> f k | _ \<Rightarrow> m)"
  by (cases v) simp_all

lemma keeps_metadata [keeps_rules]:
  "keeps (view K) c (write_selected_state j sha)" "keeps (view K) c (write_receipt payload)"
  unfolding write_selected_state_def write_receipt_def
  by (intro keeps_rules keeps_PStr; simp)+

lemma keeps_tree [keeps_rules]:
  assumes "outside K c path"
  shows "keeps (view K) c (secure_create_directory h path)" and "keeps (view K) c (unlink_in_tree path name)"
    and "keeps (view K) c (rmdir_in_tree path name)" and "keeps (view K) c (rmdir_root path)"
    and "keeps (view K) c (ensure_tree_directory h path name)" and "keeps (view K) c (copy_file h source path f)"
  unfolding secure_create_directory_def unlink_in_tree_def rmdir_in_tree_def rmdir_root_def
    ensure_tree_directory_def copy_file_def
  by (intro keeps_rules; simp add: view_steps [OF _ assms])+

lemma keeps_trees [keeps_rules]:
  assumes "outside K c path"
  shows "keeps (view K) c (remove_owned_tree path i)" and "keeps (view K) c (copy_runtime_files h path spec source)"
    and "keeps (view K) c (cleanup_step h path j n current)"
  unfolding remove_owned_tree_def copy_runtime_files_def cleanup_step_def
  by (intro keeps_rules assms; simp?)+

section \<open>Journals that the installer works with\<close>

lemma name_conditions_paths:
  assumes "name_conditions j"
  shows "target_path j = config_path (next_config_dir j)" and "candidate_path j = staging_path (transaction_id j)"
  using assms by (simp_all add: name_conditions_def config_path_def staging_path_def)

lemma outside_candidate: "name_conditions j \<Longrightarrow> outside K c (candidate_path j)"
  by (simp only: name_conditions_paths outside_staging)

lemma loaded_journal_valid:
  assumes "recover_transaction final_name temp_names t d = (d', Inr (Some j))"
  shows "journal_valid j"
proof -
  obtain final tmp where
    final: "(case final_name of None \<Rightarrow> Inr None | Some n \<Rightarrow> rbind (read_journal d n (Some t)) (\<lambda>j. Inr (Some j)))
      = (Inr final :: runtime_journal option res)"
    and sel: "select_journal final (valid_temps d t temp_names) = Inr (Some j, tmp)"
    using assms by (rule recover_transaction_Inr)
  have read: "read_journal d n e = Inr j \<Longrightarrow> journal_valid j" for n e
    by (auto simp: read_journal_def parse_steps_Inr split: option.splits if_splits)
  from select_journal_Inr(3) [OF sel] consider "final = Some j" | n where "(j, n) \<in> set (valid_temps d t temp_names)"
    by auto
  then show ?thesis
    by cases (use final read in \<open>auto simp: valid_temps_set split: option.splits\<close>)
qed

lemma recover_all_valid: "recover_all rows prot ts d = (d', Inr js) \<Longrightarrow> list_all journal_valid js"
proof (induction ts arbitrary: d d' js)
  case (Cons t ts)
  show ?case
  proof (cases "t \<in> set prot")
    case True
    with Cons show ?thesis by (auto split: if_splits)
  next
    case False
    with Cons.prems obtain d1 r d2 rest where
      r: "recover_transaction (final_of rows t) (temps_of rows t) t d = (d1, Inr r)"
      and rest: "recover_all rows prot ts d1 = (d2, Inr rest)"
      and js: "js = (case r of None \<Rightarrow> [] | Some j \<Rightarrow> [j]) @ rest"
      by (auto split: prod.splits sum.splits)
    from Cons.IH [OF rest] loaded_journal_valid r show ?thesis by (auto simp: js split: option.splits)
  qed
qed simp

lemma load_valid: "load_runtime_transaction_journals prot dir = (dir', Inr js) \<Longrightarrow> list_all journal_valid js"
  by (auto simp: load_runtime_transaction_journals_def split: if_splits option.splits sum.splits prod.splits
      dest: recover_all_valid)

lemma returns_load [returns_rules]: "returns (list_all journal_valid) load_journals"
  unfolding load_journals_def
proof (rule returns_bind_get)
  fix s :: runtime
  show "returns (list_all journal_valid)
      (case load_runtime_transaction_journals [] (Some (journal_files s)) of
         (d, r) \<Rightarrow> pbind (pstep (\<lambda>w. w\<lparr>journal_files := (case d of None \<Rightarrow> [] | Some f \<Rightarrow> f)\<rparr>)) (\<lambda>_. plift r))"
    by (cases "load_runtime_transaction_journals [] (Some (journal_files s))")
       (auto intro!: returns_bind returns_basic(3) dest: load_valid)
qed

lemma returns_replaced: "returns (\<lambda>j'. j' = j \<and> name_conditions j') (replaced j)"
  unfolding replaced_def by (rule returns_basic) (simp_all add: RuntimeTransactionJournal_Inr)

lemma returns_advance: "returns (\<lambda>j'. j' = j \<and> name_conditions j') (advance h j)"
  unfolding advance_def replaced_def
  by (rule returns_bind_plift) (auto simp: RuntimeTransactionJournal_Inr intro!: returns_bind returns_basic(1))

lemma valid_names: "journal_valid j \<Longrightarrow> name_conditions j"
  by (simp add: journal_valid_parts)

section \<open>Recovery\<close>

lemma keeps_bind_active:
  assumes "\<And>a. a = active_dirs (fst c) \<Longrightarrow> keeps (view K) c (f a)"
  shows "keeps (view K) c (pbind active_config_dirs f)"
proof (rule keepsI)
  fix s assume c: "view K s = c"
  then have "active_dirs (ini_file s) = active_dirs (fst c)" by (auto simp: view_def)
  with keepsD [OF assms c] c
  show "wp (\<lambda>u. view K u = c) (pbind active_config_dirs f) (\<lambda>_ u. view K u = c) s"
    by (cases "ini_file s") (auto simp: active_config_dirs_def plain_file_bytes_or_none_def ensure_def)
qed

lemma outside_inactive:
  assumes "name_conditions j" and "active_dirs (fst c) = Some a" and "casefold (next_config_dir j) \<notin> set a"
  shows "outside names_dir c (target_path j)"
  unfolding name_conditions_paths(1) [OF assms(1)]
  by (rule outside_config) (use assms(2,3) in \<open>simp add: names_dir_def\<close>)

lemma keeps_resume [keeps_rules]:
  assumes "name_conditions j"
  shows "keeps (view names_dir) c (resume_owned_cleanup h j)"
  unfolding resume_owned_cleanup_def
proof (intro keeps_if keeps_bind_get keeps_basic keeps_bind_active)
  fix a
  assume a: "a = active_dirs (fst c)"
    and n: "\<not> (case a of None \<Rightarrow> True | Some a \<Rightarrow> casefold (next_config_dir j) \<in> set a)"
  then have out: "outside names_dir c (target_path j)"
    using outside_inactive [OF assms] by (auto split: option.splits)
  show "keeps (view names_dir) c
     (pbind (path_lexists (target_path j)) (\<lambda>present.
            if \<not> present then pbind (delete_journal (transaction_id j)) (\<lambda>_. preturn True)
            else
              pbind (plain_directory_identity (target_path j)) (\<lambda>i.
              if Some i \<noteq> target_identity j then praise ambiguous
              else
                pbind (validate_remaining_cleanup_inventory (target_path j) j) (\<lambda>_.
                pbind (pfold (cleanup_step h (target_path j) j)
                    [nat (cleanup_cursor j)..<length (cleanup_entries j)] j) (\<lambda>_.
                pbind (plain_directory (target_path j)) (\<lambda>t.
                if tree_files t \<noteq> [] \<or> tree_directories t \<noteq> [] then praise ambiguous
                else
                  pbind (rmdir_root (target_path j)) (\<lambda>_.
                  pbind (delete_journal (transaction_id j)) (\<lambda>_.
                  preturn True))))))))"
    by (intro keeps_rules out)
qed

lemma returns_prepared: "returns (\<lambda>r. case r of None \<Rightarrow> True | Some c \<Rightarrow> name_conditions c) (prepare_cleanup_journal h j path)"
proof -
  have "returns (\<lambda>r. case r of None \<Rightarrow> True | Some c \<Rightarrow> name_conditions c)
      (pbind (replaced k) (\<lambda>cleanup.
       case runtime_transaction_journal_bytes cleanup of
         Inl e \<Rightarrow> (case e of ValueError _ \<Rightarrow> preturn None | _ \<Rightarrow> praise e)
       | Inr _ \<Rightarrow> pbind (write_journal h cleanup) (\<lambda>_. preturn (Some cleanup))))" for k
    unfolding replaced_def
    by (rule returns_bind_plift, intro returns_rules) (auto simp: RuntimeTransactionJournal_Inr intro!: returns_rules split: exn.split)
  then show ?thesis
    unfolding prepare_cleanup_journal_def
    by - (rule returns_bind, rule returns_cases(2), rule returns_bind, rule returns_bind)
qed

lemma keeps_prepare [keeps_rules]: "keeps (view K) c (prepare_cleanup_journal h j path)"
  unfolding prepare_cleanup_journal_def by (intro keeps_rules) (auto split: exn.split intro: keeps_rules)

lemma keeps_cleanup_owner [keeps_rules]:
  assumes "name_conditions j"
  shows "keeps (view names_dir) c (cleanup_owner h j)"
  unfolding cleanup_owner_def
  by (intro keeps_bind_value [OF returns_prepared] keeps_rules assms; simp add: keeps_resume split: option.splits)

lemma filter_single: "filter P xs = [y] \<Longrightarrow> list_all Q xs \<Longrightarrow> Q y"
  by (drule arg_cong [of _ _ set]) (auto simp: list_all_iff)

lemma keeps_cleanup [keeps_rules]: "keeps (view names_dir) c (cleanup_old_revision h j)"
  unfolding cleanup_old_revision_def
proof (intro keeps_option keeps_if keeps_basic keeps_bind_active)
  fix old a
  show "keeps (view names_dir) c
      (pbind load_journals (\<lambda>js.
         case filter (owner_of old) js of
           [owner] \<Rightarrow> cleanup_owner h owner
         | _ \<Rightarrow> preturn False))"
  proof (rule keeps_bind_value [OF returns_load keeps_journals(2)])
    fix js assume js: "list_all journal_valid js"
    show "keeps (view names_dir) c (case filter (owner_of old) js of [owner] \<Rightarrow> cleanup_owner h owner | _ \<Rightarrow> preturn False)"
      using filter_single [OF _ js, of "owner_of old"]
      by (auto split: list.splits intro: keeps_cleanup_owner valid_names)
  qed
qed

lemma returns_phase:
  "name_conditions j \<Longrightarrow>
   returns (\<lambda>(j', r). name_conditions j') (if b then pbind (advance h k) (\<lambda>j. preturn (j, True)) else preturn (j, False))"
  by (cases b) (auto intro: returns_bind_value [OF returns_advance] simp: returns_basic(1))

lemma keeps_phase [keeps_rules]:
  "keeps (view K) c (if b then pbind (advance h k) (\<lambda>j. preturn (j, True)) else preturn (j, False))"
  by (intro keeps_rules)

lemma keeps_remove_candidate [keeps_rules]:
  assumes "name_conditions j"
  shows "keeps (view K) c (case i of None \<Rightarrow> preturn False
    | Some i \<Rightarrow> pbind (remove_owned_tree (candidate_path j) i) (\<lambda>_. preturn True))"
  by (intro keeps_rules outside_candidate [OF assms])

lemma keeps_recover_selected [keeps_rules]:
  assumes "name_conditions j"
  shows "keeps (view names_dir) c (recover_selected h j ini candidate target)"
  unfolding recover_selected_def
  apply (intro keeps_if keeps_basic)
  apply (rule keeps_bind, intro keeps_rules)
  apply (rule keeps_bind_value [OF returns_phase [OF assms] keeps_phase])
  apply (intro keeps_prod)
  apply (rule keeps_bind, rule keeps_remove_candidate, simp)
  apply (intro keeps_rules)
  done

lemma keeps_recover_unselected [keeps_rules]:
  assumes "name_conditions j"
  shows "keeps (view names_dir) c (recover_unselected h j window candidate target)"
  unfolding recover_unselected_def
proof (intro keeps_if keeps_basic keeps_bind_active keeps_bind keeps_remove_candidate assms; (intro keeps_rules)?)
  fix a
  assume "a = active_dirs (fst c)"
    and "target \<noteq> None \<and> (owns_target j \<or> window)
      \<and> (case a of None \<Rightarrow> False | Some a \<Rightarrow> casefold (next_config_dir j) \<notin> set a)"
  then show "outside names_dir c (target_path j)"
    using outside_inactive [OF assms] by (auto split: option.splits)
qed

lemma keeps_recover_journal [keeps_rules]:
  assumes "name_conditions j"
  shows "keeps (view names_dir) c (recover_journal h j)"
  unfolding recover_journal_def
  apply (rule keeps_bind, intro keeps_rules)
  apply (rule keeps_bind, intro keeps_rules)
  apply (intro keeps_if keeps_basic keeps_resume assms keeps_let)
  apply (rule keeps_bind_value [OF returns_phase [OF assms] keeps_phase])
  apply (intro keeps_prod)
  apply (intro keeps_rules; simp)
  done

lemma keeps_recover_locked [keeps_rules]: "keeps (view names_dir) c (recover_locked h)"
  unfolding recover_locked_def
proof (rule keeps_bind_value [OF returns_load keeps_journals(2)])
  fix js assume "list_all journal_valid js"
  then have js: "name_conditions j" if "j \<in> set js" for j using that by (auto simp: list_all_iff valid_names)
  show "keeps (view names_dir) c
      (pbind (validate_recovery_ownership js) (\<lambda>_.
       pbind (pfold (\<lambda>j repaired. pbind (recover_journal h j) (\<lambda>r. preturn (repaired \<or> r))) js False) (\<lambda>repaired.
       pbind read_state (\<lambda>state.
       pbind (verify_active_state_targets h state) (\<lambda>_.
       preturn (state, repaired))))))"
    by (intro keeps_rules js)
qed

text \<open>
  C8. Recovery, whatever the root and its journals are, never changes the INI or what an earlier
  replacement has left beside it, and at no crash point has it changed a directory that the INI may
  name: the INI and all of these directories, with their identities and files, are the same throughout.
\<close>
theorem recovery_keeps_active_dirs:
  "view names_dir ` crash_points (recover_locked h) w = {view names_dir w}"
  by (rule keeps_image) (rule keeps_recover_locked)

section \<open>What the INI selects is named by it\<close>

lemma strip_space_right: "list_all is_space v \<Longrightarrow> strip (l @ v) = strip l"
proof -
  assume v: "list_all is_space v"
  obtain a b where ab: "l = a @ strip l @ b" "list_all is_space a" "list_all is_space b" using strip_decomp by blast
  have "strip (a @ strip l @ (b @ v)) = strip l"
    by (rule strip_padded) (use ab(2,3) v clean_strip in auto)
  with ab(1) show ?thesis by (metis append.assoc)
qed

lemma line_padding:
  assumes "list_all is_space v"
  shows "strip (l @ v) = strip l" and "CHR ''='' \<in> set (l @ v) \<longleftrightarrow> CHR ''='' \<in> set l"
    and "CHR ''='' \<in> set l \<Longrightarrow> key_of (l @ v) = key_of l" and "CHR ''='' \<in> set l \<Longrightarrow> value_of (l @ v) = value_of l"
proof -
  show "strip (l @ v) = strip l" by (rule strip_space_right [OF assms])
  show "CHR ''='' \<in> set (l @ v) \<longleftrightarrow> CHR ''='' \<in> set l" using assms not_space_eq(1) by (auto simp: list_all_iff)
  assume eq: "CHR ''='' \<in> set l"
  then show "key_of (l @ v) = key_of l" by (simp add: key_of_def)
  have "dropWhile (\<lambda>c. c \<noteq> CHR ''='') (l @ v) = dropWhile (\<lambda>c. c \<noteq> CHR ''='') l @ v" using eq by simp
  moreover have "dropWhile (\<lambda>c. c \<noteq> CHR ''='') l \<noteq> []" using eq by (simp add: dropWhile_eq_Nil_conv)
  ultimately have "drop 1 (dropWhile (\<lambda>c. c \<noteq> CHR ''='') (l @ v)) = drop 1 (dropWhile (\<lambda>c. c \<noteq> CHR ''='') l) @ v"
    by (cases "dropWhile (\<lambda>c. c \<noteq> CHR ''='') l") simp_all
  then show "value_of (l @ v) = value_of l"
    using strip_space_right [OF assms] by (simp only: value_of_def)
qed

definition same_line :: "string \<Rightarrow> string \<Rightarrow> bool" where
  "same_line l m = (strip l = strip m \<and> (CHR ''='' \<in> set l \<longleftrightarrow> CHR ''='' \<in> set m)
     \<and> (CHR ''='' \<in> set l \<longrightarrow> key_of l = key_of m \<and> value_of l = value_of m))"

lemma break_space: "is_break c \<Longrightarrow> is_space c"
  by (auto simp: is_break_def is_space_def Let_def)

lemma same_line_row: "same_line (rstrip_by is_break row) (fst (split_row row))"
proof -
  obtain v where v: "row = rstrip_by is_break row @ v" "list_all is_break v" using rstrip_by_prefix by blast
  obtain u where u: "row = fst (split_row row) @ u" "list_all is_break u"
  proof (cases "ends_with [CR, LF] row")
    case True
    then obtain r where "row = r @ [CR, LF]"
      by (auto simp: ends_with_def starts_with_iff rev_eq_Cons_iff)
    then show thesis using that [of "[CR, LF]"] by (simp add: split_row_def)
  next
    case False
    show thesis
    proof (cases "ends_with [CR] row \<or> ends_with [LF] row")
      case True
      then have "row \<noteq> []" "is_break (last row)"
        by (cases row rule: rev_cases; auto simp: ends_with_def starts_with_def)+
      then show thesis using that [of "[last row]"] False True by (simp add: split_row_def)
    next
      case f: False
      then show thesis using that [of "[]"] False by (simp add: split_row_def)
    qed
  qed
  have vs: "list_all is_space v" and us: "list_all is_space u"
    using v(2) u(2) break_space by (auto simp: list_all_iff)
  show ?thesis
    using line_padding [OF vs, of "rstrip_by is_break row"] line_padding [OF us, of "fst (split_row row)"]
    unfolding same_line_def v(1) [symmetric] u(1) [symmetric] by metis
qed

lemma active_scan_covers:
  assumes "active_scan c seen configs ls = Some out" and "list_all2 same_line ls ms" and "target \<noteq> []"
  shows "set configs \<subseteq> set out \<and> (\<forall>v\<in>set (values_in target c ms). casefold v \<in> set out)"
  using assms(2,1)
proof (induction arbitrary: c seen configs rule: list_all2_induct)
  case (Cons l ls m ms)
  have s: "strip m = strip l" "CHR ''='' \<in> set m \<longleftrightarrow> CHR ''='' \<in> set l"
    "CHR ''='' \<in> set l \<Longrightarrow> key_of m = key_of l" "CHR ''='' \<in> set l \<Longrightarrow> value_of m = value_of l"
    using Cons.hyps(1) by (auto simp: same_line_def)
  have sect: "is_section (strip l) \<longleftrightarrow> starts_with ''['' (strip l) \<and> ends_with '']'' (strip l)"
    by (cases "strip l"; cases "tl (strip l)") (auto simp: is_section_def starts_with_def ends_with_def)
  show ?case
  proof (cases "is_section (strip l)")
    case True
    then show ?thesis
      using Cons.prems Cons.IH sect by (simp add: s(1) configs_header_def Let_def)
  next
    case False
    note not_section = this
    show ?thesis
    proof (cases "\<not> c \<or> strip l = [] \<or> starts_with ''#'' (strip l) \<or> starts_with '';'' (strip l) \<or> CHR ''='' \<notin> set l")
      case True
      have "\<not> (starts_with ''['' (strip l) \<and> ends_with '']'' (strip l))" using not_section sect by blast
      with True Cons.prems have "active_scan c seen configs ls = Some out"
        by (simp only: active_scan.simps Let_def if_False if_True)
      moreover have "\<not> (c \<and> is_mapping target m)" using True by (auto simp: is_mapping_def s Let_def)
      ultimately show ?thesis using Cons.IH not_section by (auto simp: s(1))
    next
      case False
      with Cons.prems not_section sect have
        "active_scan c (casefold (key_of l) # seen) (casefold (value_of l) # configs) ls = Some out"
        by (auto simp: Let_def key_of_def value_of_def split: if_splits)
      from Cons.IH [OF this] False not_section show ?thesis by (auto simp: s)
    qed
  qed
qed simp

lemma selected_is_named:
  assumes "read_deck_config hash (Some b) deck = Inr ini" and "selected_config_dir ini = Some d"
  shows "names_dir (Some b) d"
proof (cases "active_dirs (Some b)")
  case (Some out)
  from assms obtain t bom where t: "decode_config b = Inr (t, bom)" "d \<in> set (mapping_values t deck)"
    and name: "\<not> unsafe_deck_name deck"
    by (auto simp: read_deck_config_def validate_deck_name_def Let_def split: if_splits list.splits)
  have scan: "active_scan False [] [] (map (rstrip_by is_break) (splitlines [] t)) = Some out"
    using Some t(1) by (simp add: active_dirs_def)
  have "list_all2 same_line (map (rstrip_by is_break) (splitlines [] t)) (map fst (split_lines t))"
    by (simp add: split_lines_def list_all2_conv_all_nth same_line_row)
  moreover have "casefold deck \<noteq> []" using name by (simp add: unsafe_deck_name_def)
  ultimately have "\<forall>v\<in>set (mapping_values t deck). casefold v \<in> set out"
    unfolding mapping_values_in using active_scan_covers [OF scan] by blast
  with t(2) have "casefold d \<in> set out" by blast
  then show ?thesis by (simp add: names_dir_def Some)
qed (simp add: names_dir_def)

section \<open>Installation\<close>

definition holds_package :: "(string \<Rightarrow> string) \<Rightarrow> package_spec \<Rightarrow> source \<Rightarrow> node option \<Rightarrow> bool" where
  \<comment> \<open>a directory with exactly the files of the package, each with the content of its source\<close>
  "holds_package hash spec source n =
     (case n of
        Some (Directory t) \<Rightarrow>
          map fst (fst (tree_view t)) = map rf_relative_path (spec_files spec)
          \<and> snd (tree_view t) = parent_directories (map rf_relative_path (spec_files spec))
          \<and> list_all (\<lambda>f. \<exists>content.
               map_of (fst (tree_view t)) (rf_relative_path f) = Some content
               \<and> read_source source (rf_source_path f) = Inr content
               \<and> int (length content) = rf_size f \<and> hash content = rf_sha256 f) (spec_files spec)
      | _ \<Rightarrow> False)"

definition fs :: "runtime \<Rightarrow> string option \<times> (bool \<times> string option \<times> string option \<times> string list) \<times> (string \<times> node) list" where
  "fs w = (ini_file w, (ini_linked w, beside w), nodes w)"

abbreviation all_dirs :: "string option \<Rightarrow> string \<Rightarrow> bool" where
  "all_dirs \<equiv> \<lambda>_ _. True"

lemma view_fs: "fs u = fs w \<Longrightarrow> view K u = view K w"
  by (auto simp: fs_def view_def fun_eq_iff)

lemma view_all_view: "view all_dirs u = view all_dirs w \<Longrightarrow> view K u = view K w"
  by (auto simp: view_def fun_eq_iff)

lemma fs_unrelated [simp]:
  "fs (w\<lparr>state_file := x\<rparr>) = fs w" "fs (w\<lparr>receipts := r\<rparr>) = fs w"
  "fs (w\<lparr>journal_files := d\<rparr>) = fs w" "fs (count_creation w) = fs w" "fs (put_temp t n b w) = fs w"
  by (simp_all add: fs_def beside_def count_creation_def put_temp_def)

lemma keeps_fs_journal: "keeps fs c (write_journal h j)" "keeps fs c (advance h j)"
  unfolding write_journal_def advance_def
  by (intro keeps_rules; simp)+

lemma wp_advance:
  assumes "\<And>u. fs u = fs s \<Longrightarrow> I u" and "\<And>u. fs u = fs s \<Longrightarrow> name_conditions j \<Longrightarrow> Q j u"
  shows "wp I (advance h j) Q s"
proof -
  have "wp I (advance h j) (\<lambda>_ u. fs u = fs s) s"
    by (rule keeps_wp [OF keeps_fs_journal(2) refl]) (use assms(1) in blast)+
  with returns_advance have "wp I (advance h j) (\<lambda>x u. fs u = fs s \<and> x = j \<and> name_conditions x) s"
    by (rule returns_wp)
  then show ?thesis by (rule wp_mono) (use assms(2) in blast)
qed

lemma canonical_text: "canonical_relative_path (PStr p) = Inr q \<Longrightarrow> q = p"
  by (auto simp: canonical_relative_path_def split: if_splits)

lemma check_file_Inr:
  assumes "check_file hash (Some source) files f = Inr ()"
  shows "\<exists>content. map_of files (rf_relative_path f) = Some content
    \<and> read_source source (rf_source_path f) = Inr content
    \<and> int (length content) = rf_size f \<and> hash content = rf_sha256 f"
  using assms by (auto simp: check_file_def read_source_def [of files] dest: canonical_text split: if_splits option.splits)

lemma view_matches_holds:
  assumes "view_matches hash spec (Some source) (tree_view t) = Inr ()"
  shows "holds_package hash spec source (Some (Directory t))"
proof -
  obtain files dirs where v: "tree_view t = (files, dirs)" by force
  from assms have names: "map fst files = map rf_relative_path (spec_files spec)"
      "dirs = parent_directories (map rf_relative_path (spec_files spec))"
    and ok: "\<exists>ys. rmap (check_file hash (Some source) files) (spec_files spec) = Inr ys"
    by (auto simp: view_matches_def v Let_def split: if_splits)
  have "check_file hash (Some source) files f = Inr ()" if "f \<in> set (spec_files spec)" for f
    using ok that by (auto simp: rmap_Inr_iff list_all2_conv_all_nth in_set_conv_nth)
  then show ?thesis using names check_file_Inr by (simp add: holds_package_def v list_all_iff)
qed

lemma wp_verify:
  assumes "I s" and "\<And>t. map_of (nodes s) path = Some (Directory t) \<Longrightarrow>
    holds_package (digest h) spec source (Some (Directory t)) \<Longrightarrow> Q () s"
  shows "wp I (verify_runtime_tree_against_spec h path spec (Some source)) Q s"
  using assms view_matches_holds
  by (auto simp: verify_runtime_tree_against_spec_def ptry_def wp_def snapshot_bounded_filesystem_package_def
      plain_directory_def pgets_def pbind_def preturn_def praise_def plift_def
      split: option.splits node.splits sum.splits prod.splits if_splits)

definition staged :: "(string \<Rightarrow> string) \<Rightarrow> package_spec \<Rightarrow> source \<Rightarrow> string \<Rightarrow> runtime \<Rightarrow> bool" where
  "staged hash spec source path u = holds_package hash spec source (map_of (nodes u) path)"

lemma staged_fs: "fs u = fs w \<Longrightarrow> staged hash spec source path u = staged hash spec source path w"
  by (simp add: fs_def staged_def)

lemma returns_create: "returns V (secure_create_directory h path)" if "\<And>i. V i"
  unfolding secure_create_directory_def by (intro returns_rules that)

lemma immutable_updates [simp]:
  "immutable_fields_equal j (j\<lparr>candidate_identity := i\<rparr>)" "immutable_fields_equal j (j\<lparr>phase := ph\<rparr>)"
  "immutable_fields_equal j (j\<lparr>target_identity := i, owns_target := b\<rparr>)"
  "immutable_fields_equal j (j\<lparr>target_identity := i, phase := ph\<rparr>)"
  by (simp_all add: immutable_fields_equal_def)

lemma immutable_trans: "immutable_fields_equal i j \<Longrightarrow> immutable_fields_equal j k \<Longrightarrow> immutable_fields_equal i k"
  by (simp add: immutable_fields_equal_def)

lemma immutable_paths:
  "immutable_fields_equal j k \<Longrightarrow> candidate_path k = candidate_path j \<and> target_path k = target_path j
    \<and> next_config_dir k = next_config_dir j \<and> runtime_journal.deck_name k = runtime_journal.deck_name j"
  by (simp add: immutable_fields_equal_def)

lemma wp_advance_view:
  assumes "view all_dirs s = c"
  shows "wp (\<lambda>u. view all_dirs u = c) (advance h j)
    (\<lambda>k u. view all_dirs u = c \<and> k = j \<and> name_conditions k \<and> fs u = fs s) s"
  by (rule wp_advance) (use assms view_fs in blast)+

lemma wp_stage_candidate:
  assumes j: "name_conditions j" and c: "view all_dirs w = c"
  shows "wp (\<lambda>u. view all_dirs u = c) (stage_candidate h spec source j)
    (\<lambda>k u. view all_dirs u = c \<and> name_conditions k \<and> immutable_fields_equal j k
       \<and> staged (digest h) spec source (candidate_path k) u) w"
  unfolding stage_candidate_def
  apply (rule wp_seq, rule keepsD [OF keeps_journals(1) c])
  apply (rule wp_seq, rule keepsD [OF keeps_tree(1) [OF outside_candidate [OF j]]], assumption)
  apply (rule wp_seq, rule wp_advance_view, assumption, elim conjE)
  apply (rule wp_seq, rule keepsD [OF keeps_trees(2)], erule outside_candidate, assumption)
  apply (rule wp_seq, rule wp_advance_view, assumption, elim conjE)
  apply (unfold wp_bind, rule wp_verify, assumption)
  apply (rule wp_mono, rule wp_advance_view, assumption, elim conjE)
  apply (intro conjI; simp add: staged_def fs_def immutable_fields_equal_def)
  done

definition placed :: "runtime \<Rightarrow> string \<Rightarrow> (string \<Rightarrow> string) \<Rightarrow> package_spec \<Rightarrow> source \<Rightarrow> runtime \<Rightarrow> bool" where
  \<comment> \<open>no config directory differs from those of \<open>w\<close>, except that \<open>v\<close> may hold the package\<close>
  "placed w v hash spec source u =
     (\<forall>n. map_of (nodes u) (config_path n) = map_of (nodes w) (config_path n)
        \<or> n = v \<and> staged hash spec source (config_path v) u)"

definition install_safe ::
    "host \<Rightarrow> install_plan \<Rightarrow> package_spec \<Rightarrow> source \<Rightarrow> deck_config_snapshot \<Rightarrow> runtime \<Rightarrow> runtime \<Rightarrow> bool" where
  \<comment> \<open>what holds of every state \<open>u\<close> of an installation that started in \<open>w\<close>: the INI is the old one, or the
    rendered one and then the package is in place; and every directory that the INI may name is as it was or
    holds the package\<close>
  "install_safe h p spec source ini w u =
     (let v = plan_versioned_config_dir p; complete = staged (digest h) spec source (config_path v) u in
      (ini_file u = ini_file w
       \<or> (\<exists>b. render_deck_config ini (plan_deck_name p) v = Inr b \<and> ini_file u = Some b \<and> complete))
      \<and> (\<forall>n. names_dir (ini_file u) n \<longrightarrow>
            map_of (nodes u) (config_path n) = map_of (nodes w) (config_path n) \<or> n = v \<and> complete))"

lemma placed_view: "view all_dirs u = view all_dirs w \<Longrightarrow> placed w v hash spec source u \<and> ini_file u = ini_file w"
  by (simp add: view_def placed_def fun_eq_iff)

lemma placed_fs: "fs u = fs s \<Longrightarrow> placed w v hash spec source s \<Longrightarrow> placed w v hash spec source u"
  using staged_fs [of u s] by (simp add: placed_def fs_def)

lemma placed_safe:
  "placed w (plan_versioned_config_dir p) (digest h) spec source u \<Longrightarrow> ini_file u = ini_file w \<Longrightarrow>
    install_safe h p spec source ini w u"
  by (auto simp: install_safe_def placed_def Let_def)

lemma returns_place:
  "returns (\<lambda>k. name_conditions k \<and> immutable_fields_equal j k) (place_target h spec source j)"
proof -
  have adv: "returns (\<lambda>k. name_conditions k \<and> immutable_fields_equal j k)
      (advance h (j\<lparr>target_identity := i, owns_target := b\<rparr>))" for i b
    using returns_advance by (rule returns_weaken) simp
  show ?thesis
    unfolding place_target_def by (intro returns_rules adv)
qed

lemma keeps_present [keeps_rules]:
  assumes "name_conditions j"
  shows "keeps (view K) c
    (pbind (plain_directory_identity (target_path j)) (\<lambda>i.
       pbind (ptry
         (pbind (verify_runtime_tree_against_spec h (target_path j) spec (Some source)) (\<lambda>_.
          require_unambiguous_owner (target_path j) (package_root_sha256 j)))
         (\<lambda>e. praise (RuntimeError ''runtime_digest_target_conflict''))) (\<lambda>_.
       pbind (remove_owned_tree (candidate_path j) (the (candidate_identity j))) (\<lambda>_.
       advance h (j\<lparr>target_identity := Some i, owns_target := False\<rparr>)))))"
  by (intro keeps_rules outside_candidate [OF assms])

lemma wp_rename:
  assumes j: "name_conditions j" and s: "view all_dirs s = view all_dirs w" "staged hash spec source (candidate_path j) s"
    and Q: "\<And>u. placed w (next_config_dir j) hash spec source u \<Longrightarrow> ini_file u = ini_file w \<Longrightarrow> I u \<and> Q () u"
  shows "wp I (rename_directory (candidate_path j) (target_path j)) Q s"
proof -
  have I: "I s" using Q [of s] placed_view [OF s(1)] by blast
  have "I u \<and> Q () u" if t: "map_of (nodes s) (candidate_path j) = Some (Directory t)"
    and u: "u = put_node (target_path j) (Directory t) (drop_node (candidate_path j) s)" for t u
  proof (rule Q)
    show "ini_file u = ini_file w" using s(1) by (simp add: u put_node_def drop_node_def view_def)
    have "staged hash spec source (config_path (next_config_dir j)) u"
      using s(2) t by (simp add: u staged_def put_node_def drop_node_def name_conditions_paths(1) [OF j])
    then show "placed w (next_config_dir j) hash spec source u"
      using s(1) by (auto simp: placed_def u put_node_def drop_node_def name_conditions_paths [OF j] view_def fun_eq_iff)
  qed
  with I show ?thesis
    by (auto simp: rename_directory_def plain_directory_def path_lexists_def split: option.splits node.splits)
qed

lemma wp_place_target:
  assumes j: "name_conditions j" and s: "view all_dirs s = view all_dirs w" "staged (digest h) spec source (candidate_path j) s"
  shows "wp (\<lambda>u. placed w (next_config_dir j) (digest h) spec source u \<and> ini_file u = ini_file w)
    (place_target h spec source j)
    (\<lambda>k u. (placed w (next_config_dir j) (digest h) spec source u \<and> ini_file u = ini_file w)
       \<and> name_conditions k \<and> immutable_fields_equal j k) s"
proof (rule returns_wp [OF returns_place])
  let ?I = "\<lambda>u. placed w (next_config_dir j) (digest h) spec source u \<and> ini_file u = ini_file w"
  have fs: "?I u" if "fs u = fs u'" "?I u'" for u u' using that placed_fs [OF that(1)] by (simp add: fs_def)
  have adv: "wp ?I (advance h k) (\<lambda>_. ?I) u" if "?I u" for k u
    by (rule wp_advance) (use that fs in blast)+
  have rest: "wp ?I (pbind (plain_directory_identity (target_path j)) (\<lambda>i.
       if Some i \<noteq> candidate_identity j then praise (RuntimeError ''runtime_target_identity_changed'')
       else advance h (j\<lparr>target_identity := Some i, owns_target := True\<rparr>))) (\<lambda>_. ?I) u" if "?I u" for u
  proof (rule wp_seq [where R = "\<lambda>_. ?I"])
    show "wp ?I (plain_directory_identity (target_path j)) (\<lambda>_. ?I) u"
      by (rule keeps_wp [OF keeps_readings(3) refl, of fs]) (use that fs in blast)+
  qed (use adv in simp)
  have rename: "wp ?I (pbind (rename_directory (candidate_path j) (target_path j)) (\<lambda>_.
      pbind (plain_directory_identity (target_path j)) (\<lambda>i.
       if Some i \<noteq> candidate_identity j then praise (RuntimeError ''runtime_target_identity_changed'')
       else advance h (j\<lparr>target_identity := Some i, owns_target := True\<rparr>)))) (\<lambda>_. ?I) s"
    by (rule wp_seq [where R = "\<lambda>_. ?I"], rule wp_rename [OF j s], blast, rule rest)
  show "wp ?I (place_target h spec source j) (\<lambda>_. ?I) s"
    unfolding place_target_def path_lexists_def wp_bind_get
    using keeps_wp [OF keeps_present [OF j] s(1) placed_view placed_view] rename by (simp only: split: if_split) blast
qed

definition committed :: "host \<Rightarrow> package_spec \<Rightarrow> source \<Rightarrow> string \<Rightarrow> runtime \<Rightarrow> string \<Rightarrow> runtime \<Rightarrow> bool" where
  \<comment> \<open>the INI is the new one and names the package, which is in place\<close>
  "committed h spec source b w v u =
     (ini_file u = Some b \<and> names_dir (Some b) v \<and> placed w v (digest h) spec source u
      \<and> staged (digest h) spec source (config_path v) u)"

lemma wp_commit_ini:
  assumes j: "name_conditions j" and v: "next_config_dir j = plan_versioned_config_dir p"
    and b: "render_deck_config ini (plan_deck_name p) (plan_versioned_config_dir p) = Inr b"
    and s: "placed w (plan_versioned_config_dir p) (digest h) spec source s" "ini_file s = ini_file w"
  shows "wp (install_safe h p spec source ini w) (commit_ini h spec source ini b j)
    (\<lambda>r u. committed h spec source b w (plan_versioned_config_dir p) u) s"
proof -
  let ?v = "plan_versioned_config_dir p"
  have t: "target_path j = config_path ?v" using name_conditions_paths(1) [OF j] v by simp
  have safe: "install_safe h p spec source ini w u"
    if "placed w ?v (digest h) spec source u" "staged (digest h) spec source (config_path ?v) u" "ini_file u = Some b" for u
    using that b by (auto simp: install_safe_def placed_def Let_def)
  have I: "install_safe h p spec source ini w s" by (rule placed_safe [OF s])
  show ?thesis
    unfolding commit_ini_def wp_bind
  proof (rule wp_verify)
    show "install_safe h p spec source ini w s" by (rule I)
  next
    fix tr
    assume "map_of (nodes s) (target_path j) = Some (Directory tr)"
      and "holds_package (digest h) spec source (Some (Directory tr))"
    then have st: "staged (digest h) spec source (config_path ?v) s" by (simp add: staged_def t)
    have nodes: "placed w ?v (digest h) spec source u" "staged (digest h) spec source (config_path ?v) u" if "core u = core s" for u
      using s(1) st that by (simp_all add: placed_def staged_def core_fields)
    have rest: "wp (install_safe h p spec source ini w)
       (pbind (read_actual_ini h (runtime_journal.deck_name j)) (\<lambda>committed.
        if selected_config_dir committed \<noteq> Some (next_config_dir j)
           \<or> deck_config_snapshot.sha256 committed \<noteq> Some sha \<or> sha \<noteq> next_ini_sha256 j
        then praise (RuntimeError ''runtime_ini_commit_verification_failed'')
        else
          pbind (verify_runtime_tree_against_spec h (target_path j) spec (Some source)) (\<lambda>_.
          pbind (plain_directory_identity (target_path j)) (\<lambda>i.
          pbind (advance h (j\<lparr>target_identity := Some i, phase := INI_COMMITTED\<rparr>)) (\<lambda>j.
          preturn (j, sha))))))
       (\<lambda>r u. committed h spec source b w ?v u) u" if u: "core u = core s" "ini_file u = Some b" for sha u
    proof -
      have safe_u: "install_safe h p spec source ini w u" using safe nodes [OF u(1)] u(2) by simp
      have fin: "wp (install_safe h p spec source ini w)
          (pbind (verify_runtime_tree_against_spec h (target_path j) spec (Some source)) (\<lambda>_.
           pbind (plain_directory_identity (target_path j)) (\<lambda>i.
           pbind (advance h (j\<lparr>target_identity := Some i, phase := INI_COMMITTED\<rparr>)) (\<lambda>j.
           preturn (j, sha)))))
          (\<lambda>r u. committed h spec source b w ?v u) u" if named: "names_dir (Some b) ?v"
      proof (rule keeps_wp [where p = fs and c = "fs u"])
        have same: "placed w ?v (digest h) spec source x \<and> staged (digest h) spec source (config_path ?v) x
            \<and> ini_file x = Some b" if "fs x = fs u" for x
          using placed_fs [OF that nodes(1) [OF u(1)]] staged_fs [OF that] nodes(2) [OF u(1)] that u(2) by (simp add: fs_def)
        show "install_safe h p spec source ini w x" if "fs x = fs u" for x using same [OF that] safe by blast
        show "committed h spec source b w ?v x" if "fs x = fs u" for r :: "runtime_journal \<times> string" and x
          using same [OF that] named by (simp add: committed_def)
      qed (intro keeps_rules keeps_fs_journal, rule refl)
      show ?thesis
        using fin safe_u selected_is_named [of "digest h" b] u(2)
        by (auto simp: read_actual_ini_def v split: sum.splits)
    qed
    show "wp (install_safe h p spec source ini w) (replace_ini h ini b)
        (\<lambda>x. wp (install_safe h p spec source ini w) (read_actual_ini h (runtime_journal.deck_name j))
          (\<lambda>xa. wp (install_safe h p spec source ini w)
            (if selected_config_dir xa \<noteq> Some (next_config_dir j)
                \<or> deck_config_snapshot.sha256 xa \<noteq> Some x \<or> x \<noteq> next_ini_sha256 j
             then praise (RuntimeError ''runtime_ini_commit_verification_failed'')
             else pbind (verify_runtime_tree_against_spec h (target_path j) spec (Some source)) (\<lambda>_.
               pbind (plain_directory_identity (target_path j)) (\<lambda>i.
               pbind (advance h (j\<lparr>target_identity := Some i, phase := INI_COMMITTED\<rparr>)) (\<lambda>j.
               preturn (j, x)))))
            (\<lambda>r u. committed h spec source b w ?v u))) s"
    proof (rule wp_replace_ini)
      show "install_safe h p spec source ini w u" if "same_ini s u" for u
        using that nodes [of u] s(2) by (intro placed_safe) (simp_all add: same_ini_def)
      show "install_safe h p spec source ini w u" if "half_ini h b s u" for u
        using that nodes [of u] safe by (simp add: half_ini_def)
    qed (use rest [unfolded wp_bind] nodes safe in \<open>auto simp: ini_switched_def\<close>)
  qed
qed

lemma keeps_finish [keeps_rules]: "keeps (view names_dir) c (finish_install h retain p ini j sha)"
  unfolding finish_install_def by (intro keeps_rules)

lemma committed_safe:
  assumes "committed h spec source b w (plan_versioned_config_dir p) s"
    and "render_deck_config ini (plan_deck_name p) (plan_versioned_config_dir p) = Inr b"
    and u: "view names_dir u = view names_dir s"
  shows "install_safe h p spec source ini w u"
proof -
  let ?v = "plan_versioned_config_dir p"
  have ini: "ini_file u = Some b" "ini_file s = Some b" using assms(1) u by (simp_all add: view_def committed_def)
  have same: "map_of (nodes u) (config_path n) = map_of (nodes s) (config_path n)" if "names_dir (Some b) n" for n
    using u that ini by (auto simp: view_def fun_eq_iff split: if_splits)
  have "names_dir (Some b) ?v" "staged (digest h) spec source (config_path ?v) s" using assms(1) by (simp_all add: committed_def)
  then have "staged (digest h) spec source (config_path ?v) u" using same by (simp add: staged_def)
  moreover have "map_of (nodes u) (config_path n) = map_of (nodes w) (config_path n) \<or> n = ?v"
    if "names_dir (Some b) n" for n
    using assms(1) same [OF that] by (auto simp: committed_def placed_def)
  ultimately show ?thesis using assms(2) ini by (auto simp: install_safe_def Let_def)
qed

lemma wp_transaction:
  assumes b: "render_deck_config ini (plan_deck_name p) (plan_versioned_config_dir p) = Inr b"
    and j: "name_conditions j" "next_config_dir j = plan_versioned_config_dir p"
  shows "wp (install_safe h p spec source ini w)
    (pbind (stage_candidate h spec source j) (\<lambda>j.
     pbind (place_target h spec source j) (\<lambda>j.
     pbind (commit_ini h spec source ini b j) (\<lambda>(j, committed_sha).
     finish_install h retain p ini j committed_sha)))) (\<lambda>_. install_safe h p spec source ini w) w"
proof -
  let ?I = "install_safe h p spec source ini w" and ?v = "plan_versioned_config_dir p"
  have placed: "placed w ?v (digest h) spec source u \<and> ini_file u = ini_file w \<Longrightarrow> ?I u" for u
    using placed_safe by blast
  have view: "view all_dirs u = view all_dirs w \<Longrightarrow> ?I u" for u
    using placed_view [of u w ?v "digest h" spec source] placed by blast
  note stage = wp_weaken [OF wp_stage_candidate [OF j(1) refl, of w h spec source] view]
  have rest: "wp ?I (pbind (place_target h spec source k) (\<lambda>j.
     pbind (commit_ini h spec source ini b j) (\<lambda>(j, committed_sha).
     finish_install h retain p ini j committed_sha))) (\<lambda>_. ?I) s"
    if k: "name_conditions k" "immutable_fields_equal j k" and s: "view all_dirs s = view all_dirs w"
      "staged (digest h) spec source (candidate_path k) s" for k s
  proof (rule wp_seq)
    have v: "next_config_dir k = ?v" using immutable_paths [OF k(2)] j(2) by simp
    show "wp ?I (place_target h spec source k)
        (\<lambda>l u. (placed w ?v (digest h) spec source u \<and> ini_file u = ini_file w)
          \<and> name_conditions l \<and> next_config_dir l = ?v) s"
      by (rule wp_weaken [OF wp_place_target [OF k(1) s, unfolded v] placed])
         (use immutable_paths v in auto)
    show "wp ?I (pbind (commit_ini h spec source ini b l) (\<lambda>(j, committed_sha).
        finish_install h retain p ini j committed_sha)) (\<lambda>_. ?I) u"
      if "(placed w ?v (digest h) spec source u \<and> ini_file u = ini_file w)
          \<and> name_conditions l \<and> next_config_dir l = ?v" for l u
    proof (rule wp_seq [OF wp_commit_ini])
      show "wp ?I (case r of (j, sha) \<Rightarrow> finish_install h retain p ini j sha) (\<lambda>_. ?I) x"
        if "committed h spec source b w ?v x" for r x
      proof (rule keeps_wp [where p = "view names_dir" and c = "view names_dir x"])
        show "keeps (view names_dir) (view names_dir x) (case r of (j, sha) \<Rightarrow> finish_install h retain p ini j sha)"
          by (intro keeps_rules)
      qed (use committed_safe [OF that b] in blast)+
    qed (use that b in auto)
  qed
  show ?thesis
    by (rule wp_seq, rule stage, assumption, assumption) (use rest in blast)
qed

lemma wp_install_locked:
  "wp (install_safe h p spec source ini w) (install_locked h p spec (Some source) ini t retain)
     (\<lambda>_. install_safe h p spec source ini w) w"
proof -
  have "install_safe h p spec source ini w w" by (auto simp: install_safe_def)
  with wp_transaction show ?thesis
    by (auto simp: install_locked_def replaced_def RuntimeTransactionJournal_Inr prepared_journal_def split: sum.splits)
qed

text \<open>
  An installation is atomic for the game. At every crash point, and however it ends, the INI is
  the old one, or it is the rendered one and then the directory that it selects holds exactly the
  files of the package, each equal to its source. Every directory that the INI may name at that
  point is as it was before the installation, or is the new one and complete.
\<close>
theorem install_is_atomic:
  "crash_points (install_locked h p spec (Some source) ini t retain) w \<subseteq> {u. install_safe h p spec source ini w u}"
  by (rule wp_all_crash_points [OF wp_install_locked]) (auto simp: install_safe_def)

section \<open>Recovery and installation together\<close>

definition game_safe :: "host \<Rightarrow> install_plan \<Rightarrow> package_spec \<Rightarrow> source \<Rightarrow> runtime \<Rightarrow> runtime \<Rightarrow> bool" where
  \<comment> \<open>what holds of every state \<open>u\<close> of a call of the installer that started in \<open>w\<close>\<close>
  "game_safe h p spec source w u =
     (let v = plan_versioned_config_dir p; complete = staged (digest h) spec source (config_path v) u in
      (ini_file u = ini_file w
       \<or> (\<exists>ini b. read_deck_config (digest h) (ini_file w) (plan_deck_name p) = Inr ini
            \<and> render_deck_config ini (plan_deck_name p) v = Inr b \<and> ini_file u = Some b
            \<and> (names_dir (Some b) v \<longrightarrow> complete)))
      \<and> (\<forall>n. names_dir (ini_file w) n \<and> names_dir (ini_file u) n \<longrightarrow>
            map_of (nodes u) (config_path n) = map_of (nodes w) (config_path n) \<or> n = v \<and> complete))"

lemma same_view:
  assumes "view names_dir u = view names_dir s"
  shows "ini_file u = ini_file s"
    and "names_dir (ini_file s) n \<Longrightarrow> map_of (nodes u) (config_path n) = map_of (nodes s) (config_path n)"
    and "names_dir (ini_file s) n \<Longrightarrow> staged hash spec source (config_path n) u = staged hash spec source (config_path n) s"
  using assms by (auto simp: view_def staged_def fun_eq_iff split: if_splits)

lemma game_safe_view:
  assumes "view names_dir u = view names_dir s" and "game_safe h p spec source w s"
  shows "game_safe h p spec source w u"
  using assms(2) same_view [OF assms(1)] unfolding game_safe_def Let_def by (metis (no_types, lifting))

lemma game_safe_start: "game_safe h p spec source w w"
  by (simp add: game_safe_def Let_def)

lemma install_safe_game_safe:
  assumes "install_safe h p spec source ini s u" and s: "view names_dir s = view names_dir w"
    and ini: "read_deck_config (digest h) (ini_file s) (plan_deck_name p) = Inr ini"
  shows "game_safe h p spec source w u"
  using assms(1) same_view(1,2) [OF s] ini unfolding install_safe_def game_safe_def Let_def by metis

lemma keeps_already_current: "keeps (view K) c (already_current h p spec source ini t caller repaired)"
  unfolding already_current_def by (intro keeps_rules)

text \<open>
  C5. The whole call of the installer, with the recovery before the transaction and the one after an
  error, is safe for the game: at every crash point the INI is the one of the beginning, or the one
  rendered from it, and then the directory of the plan is complete if the INI names it; and every
  directory that both the old and the current INI may name is as it was, or is the one of the plan and
  complete.
\<close>
theorem install_call_is_safe:
  "crash_points (install_runtime_package h p spec (Some source) t caller_owned) w \<subseteq> {u. game_safe h p spec source w u}"
proof (rule wp_all_crash_points)
  let ?I = "game_safe h p spec source w"
  show start: "?I w" by (rule game_safe_start)
  have recover: "wp ?I (pbind (ptry (pbind (recover_locked h) (\<lambda>_. preturn ())) (\<lambda>e. preturn ())) (\<lambda>_. praise e)) (\<lambda>_. ?I) s"
    if "?I s" for e s
    by (rule keeps_wp [where p = "view names_dir" and c = "view names_dir s"])
       (use that game_safe_view in \<open>auto intro!: keeps_rules\<close>)
  have current: "wp ?I (already_current h p spec (Some source) ini t caller_owned repaired) (\<lambda>_. ?I) s"
    if "view names_dir s = view names_dir w" for s ini repaired
    by (rule keeps_wp [OF keeps_already_current that]) (use start game_safe_view in blast)+
  have install: "wp ?I (install_locked h p spec (Some source) ini t caller_owned) (\<lambda>_. ?I) s"
    if "view names_dir s = view names_dir w" "read_deck_config (digest h) (ini_file s) (plan_deck_name p) = Inr ini" for s ini
    by (rule wp_weaken [OF wp_install_locked]) (use install_safe_game_safe that in blast)+
  have rest: "wp ?I (pbind (read_actual_ini h (plan_deck_name p)) (\<lambda>ini.
      if same_config_dir (selected_config_dir ini) (Some (plan_versioned_config_dir p))
      then already_current h p spec (Some source) ini t caller_owned repaired
      else install_locked h p spec (Some source) ini t caller_owned)) (\<lambda>_. ?I) s"
    if s: "view names_dir s = view names_dir w" for s repaired
    using current [OF s] install [OF s] game_safe_view [OF s start]
    by (simp add: read_actual_ini_def split: sum.split)
  have first: "wp ?I (pbind (recover_locked h) (\<lambda>(state, repaired).
      pbind (read_actual_ini h (plan_deck_name p)) (\<lambda>ini.
      if same_config_dir (selected_config_dir ini) (Some (plan_versioned_config_dir p))
      then already_current h p spec (Some source) ini t caller_owned repaired
      else install_locked h p spec (Some source) ini t caller_owned))) (\<lambda>_. ?I) w"
  proof (rule wp_seq [where R = "\<lambda>_ u. view names_dir u = view names_dir w"])
    show "wp ?I (recover_locked h) (\<lambda>_ u. view names_dir u = view names_dir w) w"
      by (rule keeps_wp [OF keeps_recover_locked refl]) (use start game_safe_view in blast)+
  qed (use rest in \<open>auto simp: case_prod_unfold\<close>)
  show "wp ?I (install_runtime_package h p spec (Some source) t caller_owned) (\<lambda>_. ?I) w"
    unfolding install_runtime_package_def wp_bind_get
    using start wp_try [OF first recover] by simp
qed

end
