(* ===== verification/RuntimeDecks.thy ===== *)
theory RuntimeDecks
  imports RuntimeSafety
begin

text \<open>
  Several decks in one runtime root, and roots with one journal: what writing the state of a second
  deck does, what a change of the INI after an installation does to the next one, and the runs of the
  recovery on a root with a single journal.
\<close>

section \<open>The state of a second deck\<close>

lemma sorted_key_snoc: "sorted (map f (xs @ [x])) \<longleftrightarrow> sorted (map f xs) \<and> (\<forall>y\<in>set xs. f y \<le> f x)"
  by (auto simp: sorted_append)

lemma ordered_decks_fixed: "ordered_decks ds = ds \<longleftrightarrow> sorted (map deck_order ds)"
  unfolding ordered_decks_def by (metis sort_key_id_if_sorted sorted_sort_key)

lemma read_state_sorted:
  "read_runtime_state stored_bytes = Inr (Some s) \<Longrightarrow> sorted (map deck_order (st_decks s))"
  by (cases stored_bytes) (auto simp: read_state_iff canonical_state_def ordered_decks_fixed [symmetric] dest: arg_cong [of _ _ st_decks])

lemma selected_ordered:
  assumes "read_runtime_state stored_bytes = Inr current"
  shows "ordered_decks (selected_decks current j sha) = selected_decks current j sha \<longleftrightarrow>
    list_all (\<lambda>d. deck_order d \<le> (casefold (state_key j), state_key j)) (butlast (selected_decks current j sha))"
proof -
  have "sorted (map deck_order (case current of None \<Rightarrow> [] | Some s \<Rightarrow> st_decks s))"
    using assms read_state_sorted by (auto split: option.splits)
  then have "sorted (map deck_order (butlast (selected_decks current j sha)))"
    by (simp add: selected_decks_def sorted_filter)
  then show ?thesis
    by (auto simp: ordered_decks_fixed selected_decks_def sorted_append list_all_iff deck_order_def)
qed

text \<open>
  C9. Writing the state of a deck always leaves the state file with the sorted state in it, but the
  function compares what it reads back with the unsorted state that it built: it returns only if no
  other deck of the state sorts after the new one, and raises otherwise, after the INI has been
  committed and the file has been written.
\<close>
theorem state_of_second_deck:
  assumes "read_runtime_state (state_file w) = Inr current"
    and "state = \<lparr>st_schema_version = 1, st_decks = selected_decks current j sha\<rparr>"
    and "serialize_runtime_state state = Inr b" and "int (length b) \<le> MAX_STATE_BYTES"
    and "write_selected_state j (Some sha) w = (trace, r, w')"
  shows "state_file w' = Some b
    \<and> r = (if list_all (\<lambda>d. deck_order d \<le> (casefold (state_key j), state_key j)) (butlast (st_decks state))
           then Inr state else Inl (RuntimeError ''runtime_state_commit_verification_failed''))"
proof -
  have old: "\<not> int (length c) > 1024 * 1024" if "state_file w = Some c" for c
  proof (cases current)
    case None
    with assms(1) that read_state_not_None [of c] show ?thesis by simp
  next
    case (Some s)
    with assms(1) that show ?thesis by (auto simp: read_state_iff MAX_STATE_BYTES_def)
  qed
  have reread: "read_runtime_state (Some b) = Inr (Some (canonical_state state))"
    by (rule read_serialized [OF assms(3,4)])
  have "canonical_state state = state \<longleftrightarrow> ordered_decks (st_decks state) = st_decks state"
    unfolding assms(2) canonical_state_def by simp
  also have "\<dots> \<longleftrightarrow> list_all (\<lambda>d. deck_order d \<le> (casefold (state_key j), state_key j)) (butlast (st_decks state))"
    using selected_ordered [OF assms(1)] by (simp add: assms(2))
  finally have fixed: "canonical_state state = state \<longleftrightarrow>
      list_all (\<lambda>d. deck_order d \<le> (casefold (state_key j), state_key j)) (butlast (st_decks state))" .
  have "write_selected_state j (Some sha) w =
      (if state_file w \<noteq> Some b then [w\<lparr>state_file := Some b\<rparr>] else [],
       (if canonical_state state \<noteq> state then Inl (RuntimeError ''runtime_state_commit_verification_failed'')
        else Inr state), w\<lparr>state_file := Some b\<rparr>)"
    using assms(1,3) old reread
    by (auto simp: write_selected_state_def read_state_def plain_file_bytes_or_none_def pbind_def pgets_def plift_def
        pwhen_def pstep_def preturn_def praise_def assms(2) [symmetric] split: option.splits)
  with assms(5) fixed show ?thesis by auto
qed

text \<open>
  C11. The state file as the installer writes it reads back as the same state in the order of its keys,
  exactly if it has at most a megabyte: the writer accepts every state of at most 1024 decks, and the
  reader refuses the file of a larger one.
\<close>
theorem state_file_reads_back:
  assumes "serialize_runtime_state s = Inr b"
  shows "read_runtime_state (Some b) =
    (if int (length b) \<le> MAX_STATE_BYTES then Inr (Some (canonical_state s))
     else Inl (ValueError ''runtime_state_too_large''))"
proof (cases "int (length b) \<le> MAX_STATE_BYTES")
  case True
  with read_serialized [OF assms] show ?thesis by simp
qed (simp add: read_runtime_state_def)

section \<open>A root with one journal\<close>

definition stored :: "runtime_journal \<Rightarrow> dir_entry" where
  "stored j = \<lparr>dir_entry.plain = True, dir_entry.content = document_bytes journal_payload j\<rparr>"

lemma read_stored:
  assumes "journal_valid j" and "fits j" and "map_of d n = Some (stored j)"
  shows "read_journal d n (Some (transaction_id j)) = Inr j"
    and "n = final_path (transaction_id j) \<Longrightarrow> read_journal d n None = Inr j"
  using assms by (auto simp: read_journal_def stored_def fits_def parse_steps_Inr bytes_Inr)

lemma valid_transaction_id: "journal_valid j \<Longrightarrow> hex_text 32 (transaction_id j)"
  using journal_valid_parts [of j] by (simp add: name_conditions_def is_transaction_id_def)

lemma load_one:
  assumes "journal_valid j" and "fits j"
  shows "load_runtime_transaction_journals [] (Some [(final_path (transaction_id j), stored j)])
    = (Some [(final_path (transaction_id j), stored j)], Inr [j])"
proof -
  let ?t = "transaction_id j" let ?n = "final_path ?t" let ?d = "[(?n, stored j)]"
  have entry: "transaction_entry ?n = Some (FinalName ?t)"
    using transaction_entry_final valid_transaction_id [OF assms(1)] by blast
  have scan: "scan_from 0 ?d = Inr [(?n, FinalName ?t)]"
    by (simp add: entry stored_def MAX_RUNTIME_TRANSACTION_FILES_def)
  have rec: "recover_transaction (Some ?n) [] ?t ?d = (?d, Inr (Some j))"
    by (rule settled_fixed) (simp add: settled_def valid_temps_def read_stored [OF assms])
  show ?thesis
    by (simp add: load_runtime_transaction_journals_def scan rec final_of_def temps_of_def sorted_set_def
        del: scan_from.simps)
qed

lemma load_empty: "load_runtime_transaction_journals [] (Some []) = (Some [], Inr [])"
  by (simp add: load_runtime_transaction_journals_def sorted_set_def)

section \<open>A committed root whose INI has changed\<close>

definition committed_root :: "runtime_journal \<Rightarrow> runtime \<Rightarrow> bool" where
  \<comment> \<open>the root after a finished installation: one journal, which owns the directory that it placed, and an INI
    that is a plain file\<close>
  "committed_root j w =
     (load_runtime_transaction_journals [] (Some (journal_files w)) = (Some (journal_files w), Inr [j])
      \<and> phase j = FINALIZED \<and> owns_target j \<and> \<not> cleanup_started j \<and> \<not> ini_linked w
      \<and> staging_names w = [] \<and> map_of (nodes w) (candidate_path j) = None
      \<and> (\<exists>t. map_of (nodes w) (target_path j) = Some (Directory t) \<and> target_identity j = Some (tree_identity t)))"

lemmas run_defs = pbind_def ptry_def pget_def pgets_def plift_def preturn_def praise_def pstep_def pwhen_def
  pensure_def ensure_def

lemma dhas_map_of: "dhas d k \<longleftrightarrow> map_of d k \<noteq> None"
  by (auto simp: dhas_iff map_of_eq_None_iff)

lemma same_files: "w\<lparr>journal_files := journal_files w\<rparr> = w"
  by simp

lemma recover_changed_ini:
  assumes root: "committed_root j w"
    and ini: "read_deck_config (digest h) (ini_file w) (runtime_journal.deck_name j) = Inr ini"
    and sel: "same_config_dir (selected_config_dir ini) (Some (next_config_dir j))"
    and sha: "deck_config_snapshot.sha256 ini \<noteq> Some (next_ini_sha256 j)"
  shows "recover_locked h w = ([w], Inl (RuntimeError ''runtime_recovery_committed_target_invalid''), w)"
proof -
  obtain t where t: "map_of (nodes w) (target_path j) = Some (Directory t)" "target_identity j = Some (tree_identity t)"
    and cand: "map_of (nodes w) (candidate_path j) = None" and st: "staging_names w = []"
    and load: "load_runtime_transaction_journals [] (Some (journal_files w)) = (Some (journal_files w), Inr [j])"
    and j: "owns_target j" "\<not> cleanup_started j" "\<not> ini_linked w"
    using root by (auto simp: committed_root_def)
  have ids: "directory_identity_or_none (candidate_path j) w = ([], Inr None, w)"
    "directory_identity_or_none (target_path j) w = ([], Inr (Some (tree_identity t)), w)"
    using t cand
    by (simp_all add: directory_identity_or_none_def path_lexists_def plain_directory_identity_def plain_directory_def
        run_defs dhas_map_of)
  have "recover_journal h j w = ([], Inl (RuntimeError ''runtime_recovery_committed_target_invalid''), w)"
    using ids t ini sel sha j
    by (simp add: recover_journal_def recover_selected_def read_actual_ini_def run_defs)
  moreover have "load_journals w = ([w], Inr [j], w)"
    by (simp add: load_journals_def run_defs load)
  moreover have "validate_recovery_ownership [j] w = ([], Inr (), w)"
    by (simp add: validate_recovery_ownership_def run_defs st)
  ultimately show ?thesis
    by (simp add: recover_locked_def run_defs)
qed

text \<open>
  C10. After an installation the root is bound to the bytes of the INI that it committed. As soon as the
  INI is different but still selects the directory - another deck has been installed, or the user has
  edited a comment - the recovery refuses the root, so that no package can be installed into it any
  more: every call of the installer raises.
\<close>
theorem changed_ini_blocks_installer:
  assumes "committed_root j w"
    and "read_deck_config (digest h) (ini_file w) (runtime_journal.deck_name j) = Inr ini"
    and "same_config_dir (selected_config_dir ini) (Some (next_config_dir j))"
    and "deck_config_snapshot.sha256 ini \<noteq> Some (next_ini_sha256 j)"
    and "\<not> dhas (journal_files w) (final_path t)"
  shows "\<exists>trace. install_runtime_package h p spec source t caller_owned w
    = (trace, Inl (RuntimeError ''runtime_recovery_committed_target_invalid''), w)"
proof -
  note rec = recover_changed_ini [OF assms(1-4)]
  have bind: "pbind (recover_locked h) f w = ([w], Inl (RuntimeError ''runtime_recovery_committed_target_invalid''), w)"
    for f :: "runtime_state option \<times> bool \<Rightarrow> 'c effect"
    by (simp add: pbind_def rec)
  have "pbind (ptry (pbind (recover_locked h) (\<lambda>_. preturn ())) (\<lambda>e. preturn ())) (\<lambda>_. praise e) w
      = (([w], Inl e, w) :: runtime list \<times> install_result res \<times> runtime)" for e :: exn
    by (simp add: pbind_def [of "ptry _ _"] ptry_def bind run_simps)
  then show ?thesis
    using assms(5) by (simp add: install_runtime_package_def pbind_def [of "pget _"] ptry_def [of "pbind (recover_locked h) _"] bind run_simps)
qed

section \<open>Concrete roots\<close>

definition other_deck :: runtime_deck_state where
  "other_deck =
     \<lparr>ds_state_key = ''z--sha256-'' @ demo_hex 64, ds_deck_name = ''Zoo'', ds_config_dir = ''Zoo'',
      ds_package_root_sha256 = demo_hex 64, ds_ini_sha256 = demo_hex 64\<rparr>"

definition shadow_deck :: runtime_deck_state where
  "shadow_deck =
     \<lparr>ds_state_key = ''s--sha256-'' @ demo_hex 64, ds_deck_name = ''Shadow'',
      ds_config_dir = ''Shadow--sha256-'' @ demo_hex 64, ds_package_root_sha256 = demo_hex 64,
      ds_ini_sha256 = demo_hex 64\<rparr>"

definition other_state :: runtime_state where
  "other_state = \<lparr>st_schema_version = 1, st_decks = [other_deck]\<rparr>"

definition both_state :: runtime_state where
  "both_state = \<lparr>st_schema_version = 1, st_decks = [other_deck, shadow_deck]\<rparr>"

definition empty_root :: runtime where
  "empty_root =
     \<lparr>nodes = [], ini_file = None, state_file = None, receipts = [], journal_files = [], owner_retirements = [],
      created = 0, ini_linked = False, ini_staged = None, ini_inner = None, ini_strays = []\<rparr>"

lemma demo_decks_ok: "deck_checks other_deck = Inr ()" "deck_checks shadow_deck = Inr ()"
  by code_simp+

lemma demo_states_valid: "state_valid other_state" "state_valid both_state"
proof -
  have "casefold (ds_state_key other_deck) \<noteq> casefold (ds_state_key shadow_deck)"
    "casefold (ds_deck_name other_deck) \<noteq> casefold (ds_deck_name shadow_deck)" by code_simp+
  then show "state_valid other_state" "state_valid both_state"
    using demo_decks_ok
    by (simp_all add: state_valid_iff other_state_def both_state_def STATE_SCHEMA_VERSION_def MAX_DECKS_def keys_distinct_def)
qed

lemma demo_states_size: "int (length (document_bytes state_payload other_state)) \<le> MAX_STATE_BYTES"
  "int (length (document_bytes state_payload both_state)) \<le> MAX_STATE_BYTES"
  by (simp_all add: MAX_STATE_BYTES_def other_state_def both_state_def other_deck_def shadow_deck_def state_payload_def
      deck_items_def ordered_decks_def deck_order_def casefold_def fold_char_def lower_char_def code_def
      journal_printing demo_hex_def)

lemma state_file_reads_back_witness:
  "read_runtime_state (Some (document_bytes state_payload both_state))
    = Inr (Some \<lparr>st_schema_version = 1, st_decks = [shadow_deck, other_deck]\<rparr>)"
proof -
  have "ordered_decks [other_deck, shadow_deck] = [shadow_deck, other_deck]" by code_simp
  then have sorted: "canonical_state both_state = \<lparr>st_schema_version = 1, st_decks = [shadow_deck, other_deck]\<rparr>"
    by (simp add: canonical_state_def both_state_def)
  have "serialize_runtime_state both_state = Inr (document_bytes state_payload both_state)"
    using demo_states_valid(2) by (simp add: serialize_Inr)
  from state_file_reads_back [OF this] show ?thesis
    using demo_states_size(2) by (simp add: sorted)
qed

lemma state_of_second_deck_witness:
  "\<exists>trace w'. write_selected_state demo_prepared (Some (demo_hex 64))
       (empty_root\<lparr>state_file := Some (document_bytes state_payload other_state)\<rparr>)
     = (trace, Inl (RuntimeError ''runtime_state_commit_verification_failed''), w')
   \<and> state_file w' = Some (document_bytes state_payload both_state)"
proof -
  let ?w = "empty_root\<lparr>state_file := Some (document_bytes state_payload other_state)\<rparr>"
  have single: "canonical_state other_state = other_state" by (simp add: canonical_state_def ordered_decks_def other_state_def)
  have "read_runtime_state (state_file ?w) = Inr (Some other_state)"
    using demo_states_valid(1) demo_states_size(1) single by (simp add: read_state_iff)
  moreover have decks: "selected_decks (Some other_state) demo_prepared (demo_hex 64) = [other_deck, shadow_deck]"
    by code_simp
  then have "both_state = \<lparr>st_schema_version = 1, st_decks = selected_decks (Some other_state) demo_prepared (demo_hex 64)\<rparr>"
    by (simp add: both_state_def)
  moreover have "serialize_runtime_state both_state = Inr (document_bytes state_payload both_state)"
    using demo_states_valid(2) by (simp add: serialize_Inr)
  moreover obtain trace r w' where run: "write_selected_state demo_prepared (Some (demo_hex 64)) ?w = (trace, r, w')"
    by (rule prod_cases3)
  ultimately have "state_file w' = Some (document_bytes state_payload both_state)
      \<and> r = (if list_all (\<lambda>d. deck_order d \<le> (casefold (state_key demo_prepared), state_key demo_prepared))
              (butlast (st_decks both_state))
            then Inr both_state else Inl (RuntimeError ''runtime_state_commit_verification_failed''))"
    by (rule state_of_second_deck [OF _ _ _ demo_states_size(2)])
  moreover have "\<not> list_all (\<lambda>d. deck_order d \<le> (casefold (state_key demo_prepared), state_key demo_prepared))
      (butlast (st_decks both_state))"
    by code_simp
  ultimately show ?thesis using run by auto
qed

definition finished_journal :: runtime_journal where
  "finished_journal = demo_journal FINALIZED (Some (1, 2, 3)) (Some (1, 2, 3)) True"

definition demo_host :: host where
  \<comment> \<open>a digest that differs from the recorded one\<close>
  "demo_host = \<lparr>digest = (\<lambda>s. replicate 64 CHR ''1''), new_identity = (\<lambda>n. (1, int n, 0)),
     new_nonce = (\<lambda>n d. demo_hex 32), posix = False\<rparr>"

definition finished_ini :: string where
  "finished_ini = ''[CONFIGS]'' @ [LF] @ ''Shadow = Shadow--sha256-'' @ demo_hex 64 @ [LF]"

definition finished_root :: runtime where
  "finished_root = empty_root
     \<lparr>nodes := [(''CustomConfig/Shadow--sha256-'' @ demo_hex 64,
        Directory \<lparr>tree_identity = (1, 2, 3), tree_directories = [], tree_files = []\<rparr>)],
      ini_file := Some finished_ini,
      journal_files := [(final_path (transaction_id finished_journal), stored finished_journal)]\<rparr>"

lemma finished_journal_valid: "journal_valid finished_journal"
  by (simp add: finished_journal_def journal_valid_def RuntimeTransactionJournal_Inr demo_names valid_identity_def)
     (simp add: demo_journal_def cleanup_conditions_def identity_conditions_def)

lemma finished_fits: "fits finished_journal"
  by (simp add: fits_def MAX_RUNTIME_TRANSACTION_BYTES_def finished_journal_def demo_journal_def demo_hex_def journal_printing)

lemma finished_root_committed: "committed_root finished_journal finished_root"
proof -
  have "staging_names finished_root = []" "map_of (nodes finished_root) (candidate_path finished_journal) = None"
    by (simp_all add: staging_names_def finished_root_def starts_with_def finished_journal_def demo_journal_def)
  moreover have "load_runtime_transaction_journals [] (Some (journal_files finished_root))
      = (Some (journal_files finished_root), Inr [finished_journal])"
    using load_one [OF finished_journal_valid finished_fits] by (simp add: finished_root_def)
  moreover have "phase finished_journal = FINALIZED" "owns_target finished_journal" "\<not> cleanup_started finished_journal"
    "\<not> ini_linked finished_root" "target_identity finished_journal = Some (1, 2, 3)"
    "target_path finished_journal = ''CustomConfig/Shadow--sha256-'' @ demo_hex 64"
    by (simp_all add: finished_journal_def demo_journal_def finished_root_def empty_root_def)
  moreover have "map_of (nodes finished_root) (''CustomConfig/Shadow--sha256-'' @ demo_hex 64)
      = Some (Directory \<lparr>tree_identity = (1, 2, 3), tree_directories = [], tree_files = []\<rparr>)"
    by (simp add: finished_root_def)
  ultimately show ?thesis by (simp only: committed_root_def) auto
qed

lemma changed_ini_blocks_installer_witness:
  "\<forall>p spec source. \<exists>trace. install_runtime_package demo_host p spec source (replicate 32 CHR ''1'') True finished_root
    = (trace, Inl (RuntimeError ''runtime_recovery_committed_target_invalid''), finished_root)"
proof (intro allI, rule changed_ini_blocks_installer [OF finished_root_committed])
  let ?ini = "\<lparr>existed = True, content = Some finished_ini, sha256 = Some (replicate 64 CHR ''1''),
    selected_config_dir = Some (''Shadow--sha256-'' @ demo_hex 64)\<rparr>"
  have parts: "ini_file finished_root = Some finished_ini" "digest demo_host = (\<lambda>s. replicate 64 CHR ''1'')"
    "runtime_journal.deck_name finished_journal = ''Shadow''"
    "next_config_dir finished_journal = ''Shadow--sha256-'' @ demo_hex 64"
    "next_ini_sha256 finished_journal = demo_hex 64" "transaction_id finished_journal = demo_hex 32"
    by (simp_all add: finished_root_def demo_host_def finished_journal_def demo_journal_def)
  show "read_deck_config (digest demo_host) (ini_file finished_root) (runtime_journal.deck_name finished_journal) = Inr ?ini"
    unfolding parts by code_simp
  show "same_config_dir (selected_config_dir ?ini) (Some (next_config_dir finished_journal))"
    by (simp add: same_config_dir_def parts)
  show "deck_config_snapshot.sha256 ?ini \<noteq> Some (next_ini_sha256 finished_journal)"
    by (simp add: parts demo_hex_def)
  show "\<not> dhas (journal_files finished_root) (final_path (replicate 32 CHR ''1''))"
    by (simp add: finished_root_def parts dhas_def final_path_def demo_hex_def)
qed

end
