(* ===== verification/RuntimeTrees.thy ===== *)
theory RuntimeTrees
  imports RuntimeDecks
begin

text \<open>
  Directory trees of the runtime root: removing a tree succeeds, whatever part of a package it holds;
  the trees that copying a bounded package goes through are within the limits of a snapshot; and a
  tree that holds a package has the digest of the package.
\<close>

section \<open>Dictionaries\<close>

lemma dput_dput [simp]: "dput k v (dput k v' d) = dput k v d"
  by (induction d) auto

lemma dput_same: "map_of d k = Some v \<Longrightarrow> dput k v d = d"
  by (induction d) (auto split: if_splits)

lemma dput_new: "map_of d k = None \<Longrightarrow> dput k v d = d @ [(k, v)]"
  by (induction d) (auto split: if_splits)

lemma dpop_dput [simp]: "dpop k (dput k v d) = dpop k d"
  by (induction k v d rule: dput.induct) (auto simp: dpop_def)

lemma dpop_absent: "map_of d k = None \<Longrightarrow> dpop k d = d"
  by (auto simp: dpop_def filter_id_conv map_of_eq_None_iff intro: rev_image_eqI)

lemma map_of_filter_in: "map_of (filter (\<lambda>(k, v). k \<in> A) d) k = (if k \<in> A then map_of d k else None)"
  by (induction d) auto

lemma mset_map_sort: "mset (map f (sort_key g xs)) = mset (map f xs)"
  by simp

section \<open>Paths\<close>

lemma split_on_parts: "x \<in> set (split_on c s) \<Longrightarrow> c \<notin> set x"
proof (induction s arbitrary: x)
  case (Cons a s)
  then show ?case by (cases "split_on c s") (auto split: if_splits)
qed simp

lemma slashes_append [simp]: "slashes (a @ b) = slashes a + slashes b"
  by (simp add: slashes_def)

lemma slashes_join:
  "list_all (\<lambda>x. CHR ''/'' \<notin> set x) xs \<Longrightarrow> slashes (join ''/'' xs) = length xs - 1"
proof (induction xs)
  case (Cons x xs)
  then have "slashes x = 0" by (auto simp: slashes_def filter_empty_conv)
  with Cons show ?case by (cases xs) (auto simp: slashes_def join_Cons)
qed (simp add: slashes_def)

lemma slashes_parent:
  assumes "parent_path d \<noteq> []"
  shows "slashes d = Suc (slashes (parent_path d))"
proof -
  let ?xs = "split_on CHR ''/'' d"
  have parts: "list_all (\<lambda>x. CHR ''/'' \<notin> set x) ?xs" 
    by (simp add: list_all_iff split_on_parts [of _ "CHR ''/''" d])
  then have "slashes d = length ?xs - 1" using slashes_join [of ?xs] by (simp add: join_split_on)
  moreover have "slashes (parent_path d) = length (butlast ?xs) - 1"
    using parts slashes_join [of "butlast ?xs"] by (auto simp: parent_path_def list_all_iff dest: in_set_butlastD)
  moreover have "butlast ?xs \<noteq> []" using assms by (auto simp: parent_path_def)
  then have "0 < length ?xs - 1" by (metis length_butlast length_greater_0_conv)
  ultimately show ?thesis by simp
qed

lemma deepest_first_parts:
  "set (deepest_first names) = set names" "distinct (deepest_first names) = distinct names"
  "sorted_wrt (\<lambda>a b. slashes b \<le> slashes a) (deepest_first names)"
proof -
  have "sorted (map (\<lambda>v. (slashes v, v)) (sort_key (\<lambda>v. (slashes v, v)) names))" by simp
  then have "sorted_wrt (\<lambda>a b. slashes a \<le> slashes b) (sort_key (\<lambda>v. (slashes v, v)) names)"
    unfolding sorted_map by (rule sorted_wrt_mono_rel [rotated]) (auto simp: less_eq_prod_def)
  then show "sorted_wrt (\<lambda>a b. slashes b \<le> slashes a) (deepest_first names)"
    by (simp add: deepest_first_def sorted_wrt_rev)
qed (simp_all add: deepest_first_def)

section \<open>Removing a tree\<close>

definition tree_ok :: "tree \<Rightarrow> bool" where
  "tree_ok t = (wf_dict (tree_files t) \<and> wf_dict (tree_directories t) \<and> map_of (tree_directories t) [] = None)"

lemma plain_directory_total [simp]:
  "completes I (plain_directory path) Q = (\<lambda>s. \<exists>t. map_of (nodes s) path = Some (Directory t) \<and> Q t s)"
  by (auto simp: plain_directory_def fun_eq_iff split: option.splits node.splits)

lemma put_node_simps [simp]:
  "map_of (nodes (put_node path n w)) = (map_of (nodes w))(path \<mapsto> n)"
  "put_node path n (put_node path n' w) = put_node path n w"
  "drop_node path (put_node path n w) = drop_node path w"
  by (simp_all add: put_node_def drop_node_def)

lemma put_node_same: "map_of (nodes w) path = Some n \<Longrightarrow> put_node path n w = w"
  by (simp add: put_node_def dput_same)

lemma change_put [simp]: "change_tree path f (put_node path (Directory t) w) = put_node path (Directory (f t)) w"
  by (simp add: change_tree_def)

lemma total_unlink_files:
  assumes "distinct names" and "set names \<subseteq> fst ` set (tree_files t)"
    and "fst ` set (tree_files t) \<subseteq> set names"
  shows "completes (\<lambda>_. True) (pfor names (unlink_in_tree root))
    (\<lambda>_ u. u = put_node root (Directory (t\<lparr>tree_files := []\<rparr>)) w) (put_node root (Directory t) w)"
proof -
  define J where "J = (\<lambda>rest u. distinct rest \<and> set rest \<subseteq> fst ` set (tree_files t)
    \<and> u = put_node root (Directory (t\<lparr>tree_files := filter (\<lambda>(n, f). n \<in> set rest) (tree_files t)\<rparr>)) w)"
  have drop: "dpop x (filter (\<lambda>(n, f). n = x \<or> n \<in> set rest) d) = filter (\<lambda>(n, f). n \<in> set rest) d"
    if "x \<notin> set rest" for x rest and d :: "(string \<times> file_node) list"
    using that unfolding dpop_def filter_filter by (intro filter_cong) auto
  have step: "completes (\<lambda>_. True) (unlink_in_tree root x) (\<lambda>_. J rest) u" if "J (x # rest) u" for x rest u
  proof -
    from that have "map_of (tree_files t) x \<noteq> None" by (auto simp: J_def map_of_eq_None_iff)
    then have "dhas (filter (\<lambda>(n, f). n = x \<or> n \<in> set rest) (tree_files t)) x"
      using map_of_filter_in [of "insert x (set rest)" "tree_files t" x] by (simp add: dhas_def)
    with that drop show ?thesis by (auto simp: J_def unlink_in_tree_def)
  qed
  have "filter (\<lambda>(n, f). n \<in> set names) (tree_files t) = tree_files t"
    using assms(3) by (auto simp: filter_id_conv)
  then have "J names (put_node root (Directory t) w)" using assms by (simp add: J_def)
  from total_for [where J = J, OF step this] show ?thesis
    by (rule total_mono) (auto simp: J_def)
qed

lemma total_rmdirs:
  assumes "distinct names" and "set names \<subseteq> fst ` set (tree_directories t)"
    and "fst ` set (tree_directories t) \<subseteq> set names"
    and "sorted_wrt (\<lambda>a b. slashes b \<le> slashes a) names" and "[] \<notin> set names" and "tree_files t = []"
  shows "completes (\<lambda>_. True) (pfor names (rmdir_in_tree root))
    (\<lambda>_ u. u = put_node root (Directory (t\<lparr>tree_directories := []\<rparr>)) w) (put_node root (Directory t) w)"
proof -
  define J where "J = (\<lambda>rest u. distinct rest \<and> set rest \<subseteq> fst ` set (tree_directories t)
    \<and> sorted_wrt (\<lambda>a b. slashes b \<le> slashes a) rest \<and> [] \<notin> set rest
    \<and> u = put_node root (Directory (t\<lparr>tree_directories := filter (\<lambda>(n, f). n \<in> set rest) (tree_directories t)\<rparr>)) w)"
  have drop: "dpop x (filter (\<lambda>(n, f). n = x \<or> n \<in> set rest) d) = filter (\<lambda>(n, f). n \<in> set rest) d"
    if "x \<notin> set rest" for x rest and d :: "(string \<times> file_identity) list"
    using that unfolding dpop_def filter_filter by (intro filter_cong) auto
  have step: "completes (\<lambda>_. True) (rmdir_in_tree root x) (\<lambda>_. J rest) u" if "J (x # rest) u" for x rest u
  proof -
    from that have "map_of (tree_directories t) x \<noteq> None" by (auto simp: J_def map_of_eq_None_iff)
    then have has: "dhas (filter (\<lambda>(n, f). n = x \<or> n \<in> set rest) (tree_directories t)) x"
      using map_of_filter_in [of "insert x (set rest)" "tree_directories t" x] by (simp add: dhas_def)
    have "parent_path n \<noteq> x" if "n = x \<or> n \<in> set rest" for n
      using slashes_parent [of n] \<open>J (x # rest) u\<close> that by (auto simp: J_def)
    with \<open>J (x # rest) u\<close> has drop assms(6) show ?thesis by (auto simp: J_def rmdir_in_tree_def list_ex_iff)
  qed
  have "filter (\<lambda>(n, f). n \<in> set names) (tree_directories t) = tree_directories t"
    using assms(3) by (auto simp: filter_id_conv)
  then have "J names (put_node root (Directory t) w)" using assms by (simp add: J_def)
  from total_for [where J = J, OF step this] show ?thesis
    by (rule total_mono) (auto simp: J_def)
qed

lemma total_remove:
  assumes root: "map_of (nodes w) root = Some (Directory t)" and "tree_identity t = i"
    and "within_bounds t" and ok: "tree_ok t"
  shows "completes (\<lambda>_. True) (remove_owned_tree root i) Q w \<longleftrightarrow> Q () (drop_node root w)"
proof (rule total_exact_unit)
  let ?files = "deepest_first (map fst (fst (tree_view t)))" and ?dirs = "deepest_first (snd (tree_view t))"
  have files: "distinct ?files" "set ?files = fst ` set (tree_files t)"
    and dirs: "distinct ?dirs" "set ?dirs = fst ` set (tree_directories t)" "[] \<notin> set ?dirs"
  proof -
    have "map fst (map (\<lambda>(n, f). (n, node_content f)) (tree_files t)) = map fst (tree_files t)" by auto
    then have "mset (map fst (fst (tree_view t))) = mset (map fst (tree_files t))"
      by (simp only: tree_view_def fst_conv mset_map_sort)
    then have "distinct (map fst (fst (tree_view t)))"
      using ok mset_eq_imp_distinct_iff unfolding tree_ok_def wf_dict_def by blast
    then show "distinct ?files" by (simp add: deepest_first_parts)
    show "set ?files = fst ` set (tree_files t)" by (force simp: deepest_first_parts tree_view_def)
    show "distinct ?dirs" "set ?dirs = fst ` set (tree_directories t)" "[] \<notin> set ?dirs"
      using ok by (auto simp: deepest_first_parts tree_view_def tree_ok_def wf_dict_def map_of_eq_None_iff)
  qed
  have unlink: "completes (\<lambda>_. True) (pfor ?files (unlink_in_tree root))
      (\<lambda>_ u. u = put_node root (Directory (t\<lparr>tree_files := []\<rparr>)) w) w"
    using total_unlink_files [of ?files t root w] files put_node_same [OF root] by simp
  have rmdirs: "completes (\<lambda>_. True) (pfor ?dirs (rmdir_in_tree root))
      (\<lambda>_ u. u = put_node root (Directory (t\<lparr>tree_files := [], tree_directories := []\<rparr>)) w)
      (put_node root (Directory (t\<lparr>tree_files := []\<rparr>)) w)"
    using total_rmdirs [of ?dirs "t\<lparr>tree_files := []\<rparr>" root w] dirs deepest_first_parts(3) by simp
  have "completes (\<lambda>_. True) (pbind (pfor ?files (unlink_in_tree root)) (\<lambda>_.
      pbind (pfor ?dirs (rmdir_in_tree root)) (\<lambda>_. rmdir_root root))) (\<lambda>_ u. u = drop_node root w) w"
    by (rule total_seq [OF unlink], simp only:, rule total_seq [OF rmdirs]) (simp add: rmdir_root_def)
  with assms show "completes (\<lambda>_. True) (remove_owned_tree root i) (\<lambda>_ u. u = drop_node root w) w"
    by (simp add: remove_owned_tree_def plain_directory_identity_def snapshot_bounded_filesystem_package_def
        case_prod_unfold)
qed

section \<open>Parts of a package\<close>

definition package_files :: "package_spec \<Rightarrow> source \<Rightarrow> (string \<times> string) list" where
  "package_files spec source =
     map (\<lambda>f. (rf_relative_path f, case read_source source (rf_source_path f) of Inr c \<Rightarrow> c | Inl e \<Rightarrow> []))
       (spec_files spec)"

definition package_dirs :: "package_spec \<Rightarrow> string list" where
  "package_dirs spec = parent_directories (map rf_relative_path (spec_files spec))"

definition package_tree :: "package_spec \<Rightarrow> source \<Rightarrow> tree" where
  \<comment> \<open>the complete tree, with some identities\<close>
  "package_tree spec source =
     \<lparr>tree_identity = (0, 0, 0), tree_directories = map (\<lambda>d. (d, (0, 0, 0))) (package_dirs spec),
      tree_files = map (\<lambda>(n, c). (n, \<lparr>node_content = c, node_identity = (0, 0, 0)\<rparr>)) (package_files spec source)\<rparr>"

definition part_of :: "package_spec \<Rightarrow> source \<Rightarrow> tree \<Rightarrow> bool" where
  \<comment> \<open>a tree that copying goes through: some of the directories and files, the last file may be empty\<close>
  "part_of spec source t =
     (tree_ok t \<and> fst ` set (tree_directories t) \<subseteq> set (package_dirs spec)
      \<and> (\<forall>(n, f)\<in>set (tree_files t). \<exists>c. (n, c) \<in> set (package_files spec source) \<and> node_content f \<in> {c, []}))"

lemma filter_subset_length:
  assumes "distinct xs" and "set xs \<subseteq> set ys"
  shows "length (filter P xs) \<le> length (filter P ys)"
proof -
  have "length (filter P xs) = card (set (filter P xs))"
    using distinct_card [of "filter P xs"] assms(1) by simp
  also have "\<dots> \<le> card (set (filter P ys))" using assms(2) by (intro card_mono) auto
  also have "\<dots> \<le> length (filter P ys)" by (rule card_length)
  finally show ?thesis .
qed

lemma subset_length: "distinct xs \<Longrightarrow> set xs \<subseteq> set ys \<Longrightarrow> length xs \<le> length ys"
  using filter_subset_length [of xs ys "\<lambda>_. True"] by simp

lemma part_names:
  assumes "part_of spec source t"
  shows "set (map fst (tree_files t)) \<subseteq> set (map fst (tree_files (package_tree spec source)))"
    and "set (map fst (tree_directories t)) \<subseteq> set (map fst (tree_directories (package_tree spec source)))"
    and "distinct (map fst (tree_files t))" and "distinct (map fst (tree_directories t))"
proof -
  have "map fst (tree_files (package_tree spec source)) = map fst (package_files spec source)"
    "map fst (tree_directories (package_tree spec source)) = package_dirs spec"
    by (auto simp: package_tree_def comp_def)
  note eqs = this
  show "set (map fst (tree_files t)) \<subseteq> set (map fst (tree_files (package_tree spec source)))"
  proof
    fix n assume "n \<in> set (map fst (tree_files t))"
    then obtain f where "(n, f) \<in> set (tree_files t)" by auto
    with assms obtain c where "(n, c) \<in> set (package_files spec source)" unfolding part_of_def by blast
    then show "n \<in> set (map fst (tree_files (package_tree spec source)))"
      unfolding eqs by (simp add: image_iff) (metis fst_conv)
  qed
  show "set (map fst (tree_directories t)) \<subseteq> set (map fst (tree_directories (package_tree spec source)))"
    unfolding eqs using assms by (simp add: part_of_def)
  show "distinct (map fst (tree_files t))" "distinct (map fst (tree_directories t))"
    using assms unfolding part_of_def tree_ok_def wf_dict_def by blast+
qed

lemma set_sum_le: "(\<Sum>x\<in>set xs. f x) \<le> sum_list (map f xs)" for f :: "'a \<Rightarrow> nat"
  by (induction xs) (auto simp: sum.insert_if le_SucI trans_le_add2)

lemma part_size:
  assumes part: "part_of spec source t"
  shows "sum_list (map (\<lambda>(n, f). length (node_content f)) (tree_files t))
    \<le> sum_list (map (\<lambda>(n, f). length (node_content f)) (tree_files (package_tree spec source)))"
proof -
  have distinct: "distinct (map fst (tree_files t))" by (rule part_names [OF part])
  then have "sum_list (map (\<lambda>(n, f). length (node_content f)) (tree_files t))
      = (\<Sum>(n, f)\<in>set (tree_files t). length (node_content f))"
    by (simp add: sum_list_distinct_conv_sum_set distinct_map)
  also have "\<dots> \<le> (\<Sum>(n, c)\<in>set (package_files spec source). length c)"
  proof (rule sum_le_included [where i = "\<lambda>(n, c). (n, the (map_of (tree_files t) n))"])
    show "\<forall>x\<in>set (tree_files t). \<exists>y\<in>set (package_files spec source).
        (\<lambda>(n, c). (n, the (map_of (tree_files t) n))) y = x
        \<and> (\<lambda>(n, f). length (node_content f)) x \<le> (\<lambda>(n, c). length c) y"
    proof
      fix x assume x: "x \<in> set (tree_files t)"
      obtain n f where nf: "x = (n, f)" by force
      with x distinct have "map_of (tree_files t) n = Some f" by simp
      moreover obtain c where "(n, c) \<in> set (package_files spec source)" "node_content f \<in> {c, []}"
        using part x nf unfolding part_of_def by blast
      ultimately show "\<exists>y\<in>set (package_files spec source).
          (\<lambda>(n, c). (n, the (map_of (tree_files t) n))) y = x
          \<and> (\<lambda>(n, f). length (node_content f)) x \<le> (\<lambda>(n, c). length c) y"
        using nf by (intro bexI [of _ "(n, c)"]) auto
    qed
  qed auto
  also have "\<dots> \<le> sum_list (map (\<lambda>(n, c). length c) (package_files spec source))"
    by (rule set_sum_le)
  also have "\<dots> = sum_list (map (\<lambda>(n, f). length (node_content f)) (tree_files (package_tree spec source)))"
    by (simp add: package_tree_def comp_def case_prod_unfold)
  finally show ?thesis .
qed

lemma part_within:
  assumes bounds: "within_bounds (package_tree spec source)" and part: "part_of spec source t"
  shows "within_bounds t"
proof -
  let ?p = "package_tree spec source"
  let ?fs = "map fst (tree_files t)" and ?ds = "map fst (tree_directories t)"
  let ?gs = "map fst (tree_files ?p)" and ?es = "map fst (tree_directories ?p)"
  note names = part_names [OF part]
  have filters: "length (filter P (?fs @ ?ds)) \<le> length (filter P (?gs @ ?es))" for P
    using filter_subset_length [OF names(3,1)] filter_subset_length [OF names(4,2)] by (simp add: add_mono)
  have lengths: "length ?fs \<le> length ?gs" "length ?ds \<le> length ?es" "length (?fs @ ?ds) \<le> length (?gs @ ?es)"
    using subset_length [OF names(3,1)] subset_length [OF names(4,2)] by simp_all
  have contents: "list_all (\<lambda>(n, f). int (length (node_content f)) \<le> b n) (tree_files t)"
    if "list_all (\<lambda>(n, f). int (length (node_content f)) \<le> b n) (tree_files ?p)" for b
    unfolding list_all_iff
  proof
    fix x assume x: "x \<in> set (tree_files t)"
    obtain n f where nf: "x = (n, f)" by force
    with x part obtain c where "(n, c) \<in> set (package_files spec source)" "node_content f \<in> {c, []}"
      unfolding part_of_def by blast
    moreover from this(1) have "(n, \<lparr>node_content = c, node_identity = (0, 0, 0)\<rparr>) \<in> set (tree_files ?p)"
      by (force simp: package_tree_def)
    with that have "int (length c) \<le> b n" unfolding list_all_iff by fastforce
    ultimately show "case x of (n, f) \<Rightarrow> int (length (node_content f)) \<le> b n" using nf by auto
  qed
  have entries: "list_all (\<lambda>d. int (length (filter (\<lambda>n. parent_path n = d) (?fs @ ?ds))) \<le> b) ([] # ?ds)"
    if "list_all (\<lambda>d. int (length (filter (\<lambda>n. parent_path n = d) (?gs @ ?es))) \<le> b) ([] # ?es)" for b
    unfolding list_all_iff
  proof
    fix d assume "d \<in> set ([] # ?ds)"
    then have "d \<in> set ([] # ?es)" using names(2) by auto
    with that have "int (length (filter (\<lambda>n. parent_path n = d) (?gs @ ?es))) \<le> b" unfolding list_all_iff by blast
    with filters [of "\<lambda>n. parent_path n = d"] show "int (length (filter (\<lambda>n. parent_path n = d) (?fs @ ?ds))) \<le> b" by linarith
  qed
  have subsets: "list_all P ?ds" if "list_all P ?es" for P using that names(2) unfolding list_all_iff by blast
  have unions: "list_all P (?fs @ ?ds)" if "list_all P (?gs @ ?es)" for P
    using that names(1,2) unfolding list_all_iff set_append by blast
  show ?thesis
    unfolding within_bounds_def Let_def
  proof (intro conjI)
    note b = bounds [unfolded within_bounds_def Let_def]
    show "list_all (\<lambda>d. int (slashes d) + 1 \<le> MAX_FILESYSTEM_DEPTH) ?ds" using b by (intro subsets) blast
    show "list_all (\<lambda>d. int (length (filter (\<lambda>n. parent_path n = d) (?fs @ ?ds))) \<le> MAX_FILESYSTEM_ENTRIES_PER_DIRECTORY)
        ([] # ?ds)" using b by (intro entries) blast
    show "int (length (?fs @ ?ds)) \<le> MAX_FILESYSTEM_NODES" using b lengths(3) by linarith
    show "int (length ?ds) \<le> MAX_FILESYSTEM_DIRECTORIES" using b lengths(2) by linarith
    show "int (length ?fs) \<le> MAX_RUN_FILES" using b lengths(1) by linarith
    show "list_all (\<lambda>n. int (length (utf8_encode n)) \<le> MAX_RUN_PATH_BYTES
        \<and> canonical_relative_path (PStr n) = Inr n) (?fs @ ?ds)" using b by (intro unions) blast
    show "int (sum_list (map (\<lambda>(n, f). length (node_content f)) (tree_files t))) \<le> MAX_RUN_TOTAL_BYTES"
      using b part_size [OF part] by linarith
    show "list_all (\<lambda>(n, f). int (length (node_content f)) \<le>
        (if n = ''package_manifest.json'' then MAX_MANIFEST_BYTES else MAX_RUN_TOTAL_BYTES)) (tree_files t)"
      using b by (intro contents) blast
  qed
qed

section \<open>The digest of a complete tree\<close>

lemma map_of_nth_key: "distinct (map fst V) \<Longrightarrow> i < length V \<Longrightarrow> map_of V (fst (V ! i)) = Some (snd (V ! i))"
  by (simp add: map_of_eq_Some_iff)

lemma spec_parts:
  assumes "runtime_package_spec hash m = Inr spec"
  shows "distinct (map rf_relative_path (spec_files spec))"
    and "spec_package_root_sha256 spec =
      hash (concat (map (\<lambda>f. digest_record (rf_relative_path f) (rf_size f) (rf_sha256 f)) (spec_files spec)))"
proof -
  from assms obtain mf where m: "m = Some mf" by (cases m) (simp_all add: runtime_package_spec_def)
  from assms obtain sel where sel: "select_entries (tree_manifest.entries mf) = Inr sel"
    by (auto simp: runtime_package_spec_def m)
  from assms obtain e l r rest where cons: "sel = (e, l, r) # rest"
    by (cases sel) (auto simp: runtime_package_spec_def m sel)
  define files where "files = map (\<lambda>(e, l, relative).
      \<lparr>rf_relative_path = relative, rf_size = manifest_entry.size e,
       rf_sha256 = manifest_entry.sha256 e, rf_source_path = manifest_entry.relative_path e\<rparr>) sel"
  have result: "runtime_package_spec hash m =
      (if list_ex (\<lambda>(e, l', r). l' \<noteq> l) sel \<or> \<not> valid_component l then Inl package_error
       else if \<not> sorted (map rf_relative_path files) \<or> \<not> distinct (map rf_relative_path files) then Inl package_error
       else Inr \<lparr>spec_deck_name = tree_manifest.deck_name mf, spec_logical_config_dir = l,
         spec_package_root_sha256 =
           hash (concat (map (\<lambda>f. digest_record (rf_relative_path f) (rf_size f) (rf_sha256 f)) files)),
         spec_files = files\<rparr>)"
    unfolding m runtime_package_spec_def option.case sel rbind_simps files_def by (simp add: cons Let_def)
  from assms have "distinct (map rf_relative_path files)
      \<and> spec = \<lparr>spec_deck_name = tree_manifest.deck_name mf, spec_logical_config_dir = l,
         spec_package_root_sha256 =
           hash (concat (map (\<lambda>f. digest_record (rf_relative_path f) (rf_size f) (rf_sha256 f)) files)),
         spec_files = files\<rparr>"
    unfolding result by (simp split: if_splits)
  then show "distinct (map rf_relative_path (spec_files spec))"
    and "spec_package_root_sha256 spec =
      hash (concat (map (\<lambda>f. digest_record (rf_relative_path f) (rf_size f) (rf_sha256 f)) (spec_files spec)))"
    by simp_all
qed

lemma complete_digest:
  assumes holds: "holds_package hash spec source (Some (Directory t))"
    and spec: "runtime_package_spec hash m = Inr spec"
  shows "view_digest hash (tree_view t) = spec_package_root_sha256 spec"
proof -
  let ?V = "fst (tree_view t)" and ?F = "spec_files spec"
  have names: "map fst ?V = map rf_relative_path ?F" using holds by (simp add: holds_package_def)
  then have len: "length ?V = length ?F" by (metis length_map)
  have distinct: "distinct (map fst ?V)" using names spec_parts(1) [OF spec] by simp
  have row: "digest_record (fst (?V ! i)) (int (length (snd (?V ! i)))) (hash (snd (?V ! i)))
      = digest_record (rf_relative_path (?F ! i)) (rf_size (?F ! i)) (rf_sha256 (?F ! i))" if "i < length ?F" for i
  proof -
    have path: "rf_relative_path (?F ! i) = fst (?V ! i)" using names that len by (metis nth_map)
    have "?F ! i \<in> set ?F" using that by simp
    with holds obtain content where "map_of ?V (rf_relative_path (?F ! i)) = Some content"
      "int (length content) = rf_size (?F ! i)" "hash content = rf_sha256 (?F ! i)"
      unfolding holds_package_def list_all_iff by auto
    then show ?thesis using map_of_nth_key [OF distinct, of i] that len path by simp
  qed
  have "map (\<lambda>(name, content). digest_record name (int (length content)) (hash content)) ?V
      = map (\<lambda>f. digest_record (rf_relative_path f) (rf_size f) (rf_sha256 f)) ?F"
    by (rule nth_equalityI) (use len row in \<open>simp_all add: case_prod_unfold\<close>)
  then show ?thesis by (simp add: view_digest_def spec_parts(2) [OF spec])
qed

lemma total_verify_digest:
  assumes "map_of (nodes s) path = Some (Directory t)" and "within_bounds t" and "view_digest (digest h) (tree_view t) = d"
  shows "completes I (verify_runtime_tree_digest h path d) Q s \<longleftrightarrow> Q () s"
  using assms
  by (simp add: verify_runtime_tree_digest_def completes_def ptry_def snapshot_bounded_filesystem_package_def
      plain_directory_def pbind_def pgets_def preturn_def pensure_def ensure_def plift_def)

end
