(* ===== verification/JournalDisk.thy ===== *)
theory JournalDisk
  imports RuntimeTrees
begin

text \<open>
  The directory of journals while one transaction is installed: what the loader makes of every file
  set that a killed writer leaves, and the writer, the loader and the removal of the journal as
  operations on that transaction.
\<close>

section \<open>Names\<close>

lemma temp_entry:
  assumes "hex_text 32 t" and "hex_text 32 n"
  shows "transaction_entry (temp_path t n) = Some (TempName t)"
proof -
  have "\<not> hex_text 32 (take 32 (temp_path t n))"
    by (simp add: hex_text_def temp_path_def take_Cons' is_lower_hex_def)
  moreover have lens: "length t = 32" "length n = 32" using assms by (simp_all add: hex_text_def)
  then have "drop 33 (temp_path t n) = ''.json.'' @ n @ ''.tmp''"
    "drop 39 (temp_path t n) = n @ ''.tmp''" "drop 71 (temp_path t n) = ''.tmp''"
    "drop (Suc 0) (temp_path t n) = t @ ''.json.'' @ n @ ''.tmp''" "take (Suc 0) (temp_path t n) = ''.''"
    by (simp_all add: temp_path_def drop_Cons')
  ultimately show ?thesis using assms lens by (simp add: transaction_entry_def)
qed

lemma final_entry: "hex_text 32 t \<Longrightarrow> transaction_entry (final_path t) = Some (FinalName t)"
  using transaction_entry_final by blast

lemma temp_not_final: "hex_text 32 t \<Longrightarrow> hex_text 32 n \<Longrightarrow> temp_path t n \<noteq> final_path t"
  using temp_entry [of t n] final_entry [of t] by (metis entry_name.distinct(1) option.inject)

lemma temp_path_inj [simp]: "temp_path t n = temp_path t m \<longleftrightarrow> n = m"
  by (simp add: temp_path_def)

section \<open>Files of one transaction\<close>

definition unfinished :: dir_entry where
  \<comment> \<open>a temporary that has not been filled\<close>
  "unfinished = \<lparr>dir_entry.plain = True, dir_entry.content = []\<rparr>"

definition disk :: "string \<Rightarrow> runtime_journal option \<Rightarrow> directory \<Rightarrow> directory" where
  "disk t oj J = (case oj of None \<Rightarrow> J | Some j \<Rightarrow> (final_path t, stored j) # J)"

definition nonces_ok :: "host \<Rightarrow> string \<Rightarrow> bool" where
  \<comment> \<open>a new nonce is not in use in a directory of at most two files\<close>
  "nonces_ok h t =
     (\<forall>n d. hex_text 32 (new_nonce h n d) \<and> (length d \<le> 2 \<longrightarrow> map_of d (temp_path t (new_nonce h n d)) = None))"

definition junk :: "string \<Rightarrow> directory \<Rightarrow> bool" where
  \<comment> \<open>nothing, or a temporary that an earlier creation left unfinished\<close>
  "junk t J = (J = [] \<or> (\<exists>k. hex_text 32 k \<and> J = [(temp_path t k, unfinished)]))"

definition journal_ok :: "string \<Rightarrow> runtime_journal \<Rightarrow> bool" where
  "journal_ok t j = (journal_valid j \<and> fits j \<and> transaction_id j = t)"

abbreviation listed :: "'a option \<Rightarrow> 'a list" where
  "listed r \<equiv> (case r of None \<Rightarrow> [] | Some j \<Rightarrow> [j])"

lemma unfinished_unreadable: "map_of d n = Some unfinished \<Longrightarrow> read_journal d n e \<noteq> Inr j"
  by (auto simp: read_journal_def unfinished_def parse_steps_Inr bytes_Inr document_bytes_not_Nil [symmetric]
      simp flip: document_bytes_not_Nil split: if_splits)

lemma load_transaction:
  assumes "d \<noteq> []" and "int (length d) \<le> MAX_RUNTIME_TRANSACTION_FILES"
    and "\<forall>(n, e)\<in>set d. dir_entry.plain e \<and> transaction_entry n \<in> {Some (FinalName t), Some (TempName t)}"
    and "rows = map (\<lambda>(n, e). (n, the (transaction_entry n))) d"
    and "recover_transaction (final_of rows t) (temps_of rows t) t d = (d', Inr r)"
  shows "load_runtime_transaction_journals [] (Some d) = (Some d', Inr (listed r))"
proof -
  have scan: "scan_from 0 d = Inr rows" using assms(2-4) by (subst scan_from_Inr) auto
  have "set (map (entry_transaction \<circ> snd) rows) = {t}"
    using assms(1,3) by (cases d) (auto simp: assms(4))
  then have "sorted_set (map (entry_transaction \<circ> snd) rows) = sorted_set [t]" by (intro sorted_set_eqI) simp
  with scan assms(5) show ?thesis
    by (simp add: load_runtime_transaction_journals_def sorted_set_def)
qed

lemma valid_temps_one [simp]:
  "valid_temps d t [n] = (case read_journal d n (Some t) of Inl e \<Rightarrow> [] | Inr j \<Rightarrow> [(j, n)])"
  by (simp add: valid_temps_def)

lemma read_unfinished:
  assumes "map_of d n = Some unfinished"
  shows "\<exists>e. read_journal d n x = Inl e"
  using unfinished_unreadable [OF assms] by (cases "read_journal d n x") auto

lemma few_files: "length d \<le> 2 \<Longrightarrow> int (length d) \<le> MAX_RUNTIME_TRANSACTION_FILES"
  by (simp add: MAX_RUNTIME_TRANSACTION_FILES_def)

lemma read_disk:
  assumes "journal_ok t j"
  shows "read_journal (disk t (Some j) J) (final_path t) (Some t) = Inr j"
    and "read_journal (disk t (Some j) J) (final_path t) None = Inr j"
proof -
  have "journal_valid j" "fits j" "transaction_id j = t" using assms by (simp_all add: journal_ok_def)
  note read = read_stored [OF this(1,2), of "disk t (Some j) J" "final_path t", unfolded this(3)]
  show "read_journal (disk t (Some j) J) (final_path t) (Some t) = Inr j" by (rule read(1)) (simp add: disk_def)
  show "read_journal (disk t (Some j) J) (final_path t) None = Inr j" by (rule read(2)) (simp_all add: disk_def)
qed

lemma load_disk:
  assumes "hex_text 32 t" and "junk t J" and "\<And>j. oj = Some j \<Longrightarrow> journal_ok t j"
  shows "load_runtime_transaction_journals [] (Some (disk t oj J)) = (Some (disk t oj J), Inr (listed oj))"
proof (cases "disk t oj J = []")
  case True
  then have "oj = None" by (simp add: disk_def split: option.splits)
  with True load_empty show ?thesis by simp
next
  case False
  let ?d = "disk t oj J" and ?rows = "map (\<lambda>(n, e). (n, the (transaction_entry n))) (disk t oj J)"
  have J: "J = [] \<or> (\<exists>k. J = [(temp_path t k, unfinished)] \<and> hex_text 32 k)"
    using assms(2) by (auto simp: junk_def)
  note entries = final_entry [OF assms(1)] temp_entry [OF assms(1)] temp_not_final [OF assms(1)]
  have "settled ?d t (final_of ?rows t) (temps_of ?rows t) oj"
  proof (cases oj)
    case None
    with False J obtain k where J: "J = [(temp_path t k, unfinished)]" "hex_text 32 k" by (auto simp: disk_def)
    then obtain e where "read_journal ?d (temp_path t k) (Some t) = Inl e"
      using read_unfinished [of ?d "temp_path t k"] by (auto simp: disk_def None)
    with None J show ?thesis by (simp add: settled_def disk_def final_of_def temps_of_def entries)
  next
    case (Some j)
    then have "read_journal ?d (final_path t) (Some t) = Inr j"
      using read_disk(1) [OF assms(3) [OF Some]] by simp
    moreover have "valid_temps ?d t (temps_of ?rows t) = []"
      using J
    proof
      assume "\<exists>k. J = [(temp_path t k, unfinished)] \<and> hex_text 32 k"
      then obtain k where k: "J = [(temp_path t k, unfinished)]" "hex_text 32 k" by blast
      then have "map_of ?d (temp_path t k) = Some unfinished" by (simp add: disk_def Some entries)
      then obtain e where "read_journal ?d (temp_path t k) (Some t) = Inl e" using read_unfinished by blast
      with k Some show ?thesis by (simp add: temps_of_def disk_def entries)
    qed (simp add: Some temps_of_def disk_def entries valid_temps_def)
    ultimately show ?thesis using Some by (simp add: settled_def final_of_def disk_def entries)
  qed
  then have "recover_transaction (final_of ?rows t) (temps_of ?rows t) t ?d = (?d, Inr oj)" by (rule settled_fixed)
  moreover have "\<forall>(n, e)\<in>set ?d. dir_entry.plain e \<and> transaction_entry n \<in> {Some (FinalName t), Some (TempName t)}"
    using J by (auto simp: disk_def stored_def unfinished_def entries split: option.splits)
  moreover have "length ?d \<le> 2" using J by (auto simp: disk_def split: option.splits)
  ultimately show ?thesis using load_transaction [OF False few_files] by blast
qed

lemma load_promotes:
  assumes t: "hex_text 32 t" and k: "hex_text 32 k" and j: "journal_ok t j"
    and old: "case oj of None \<Rightarrow> phase j = PREPARED \<and> candidate_identity j = None \<and> target_identity j = None
      | Some jo \<Rightarrow> journal_ok t jo \<and> is_monotonic_successor jo j \<and> jo \<noteq> j"
  shows "load_runtime_transaction_journals [] (Some (disk t oj [(temp_path t k, stored j)])) = (Some (disk t (Some j) []), Inr [j])"
proof -
  let ?d = "disk t oj [(temp_path t k, stored j)]" and ?rows = "map (\<lambda>(n, e). (n, the (transaction_entry n))) (disk t oj [(temp_path t k, stored j)])"
  note entries = final_entry [OF t] temp_entry [OF t k] temp_not_final [OF t k] temp_not_final [OF t k, symmetric]
  have rows: "final_of ?rows t = map_option (\<lambda>_. final_path t) oj" "temps_of ?rows t = [temp_path t k]"
    by (simp_all add: final_of_def temps_of_def disk_def entries split: option.splits)
  have temp: "read_journal ?d (temp_path t k) (Some t) = Inr j"
  proof -
    have "journal_valid j" "fits j" "transaction_id j = t" using j by (simp_all add: journal_ok_def)
    note read = read_stored(1) [OF this(1,2), of ?d "temp_path t k", unfolded this(3)]
    show ?thesis by (rule read) (simp add: disk_def entries split: option.split)
  qed
  have select: "select_journal oj [(j, temp_path t k)] = Inr (Some j, Some (temp_path t k))"
  proof (cases oj)
    case (Some jo)
    with old successor_antisym [of j jo] journal_valid_parts [of j] journal_valid_parts [of jo] j have "\<not> is_monotonic_successor j jo" "j \<noteq> jo" "is_monotonic_successor jo j"
      by (auto simp: journal_ok_def)
    with Some show ?thesis by (simp add: select_journal_def select_step_def)
  qed (use old in \<open>simp add: select_journal_def select_step_def\<close>)
  have final: "(case map_option (\<lambda>_. final_path t) oj of None \<Rightarrow> Inr None
      | Some n \<Rightarrow> rbind (read_journal ?d n (Some t)) (\<lambda>j. Inr (Some j))) = Inr oj"
    using old read_disk(1) by (cases oj) auto
  have promoted: "promote ?d t (Some (temp_path t k)) = disk t (Some j) []"
    by (simp add: promote_def secure_replace_def disk_def dpop_def entries split: option.splits)
  have "read_journal (disk t (Some j) []) (final_path t) None = Inr j"
    by (rule read_disk(2) [OF j])
  with final temp select promoted have "recover_transaction (final_of ?rows t) (temps_of ?rows t) t ?d = (disk t (Some j) [], Inr (Some j))"
    by (simp add: recover_transaction_def rows remove_temps_def)
  moreover have "\<forall>(n, e)\<in>set ?d. dir_entry.plain e \<and> transaction_entry n \<in> {Some (FinalName t), Some (TempName t)}"
    by (auto simp: disk_def stored_def entries split: option.splits)
  moreover have "?d \<noteq> []" "length ?d \<le> 2" by (simp_all add: disk_def split: option.splits)
  ultimately show ?thesis using load_transaction [of ?d t ?rows] few_files by fastforce
qed

section \<open>Operations on the journal\<close>

definition rest :: "runtime \<Rightarrow> (string \<times> node) list \<times> string option \<times> string option
    \<times> (string \<times> string option) list \<times> string list \<times> bool" where
  \<comment> \<open>the root without the journals, the counter and the temporaries of the INI\<close>
  "rest u = (nodes u, ini_file u, state_file u, receipts u, owner_retirements u, ini_linked u)"

definition loads :: "string \<Rightarrow> runtime \<Rightarrow> runtime_journal option \<Rightarrow> bool" where
  \<comment> \<open>what the recovery finds in the directory of journals\<close>
  "loads t u oj =
     (\<exists>J. junk t J
        \<and> load_runtime_transaction_journals [] (Some (journal_files u)) = (Some (disk t oj J), Inr (listed oj)))"

definition follows :: "string \<Rightarrow> runtime_journal option \<Rightarrow> runtime_journal \<Rightarrow> bool" where
  "follows t oj j =
     (case oj of None \<Rightarrow> phase j = PREPARED \<and> candidate_identity j = None \<and> target_identity j = None
      | Some jo \<Rightarrow> journal_ok t jo \<and> is_monotonic_successor jo j \<and> jo \<noteq> j)"

lemma junk_disk: "junk t J \<Longrightarrow> length (disk t oj J) \<le> 2"
  by (auto simp: junk_def disk_def split: option.split)

lemma nonce_unused:
  assumes "nonces_ok h t" and "junk t J"
  shows "map_of (disk t oj J) (temp_path t (new_nonce h n (disk t oj J))) = None"
  using assms(1) junk_disk [OF assms(2), of oj] unfolding nonces_ok_def by blast

lemma junk_no_final:
  assumes "hex_text 32 t" and "junk t J"
  shows "map_of J (final_path t) = None"
proof -
  have "final_path t \<noteq> temp_path t k" if "hex_text 32 k" for k
    using temp_not_final [OF assms(1) that] by metis
  with assms(2) show ?thesis by (auto simp: junk_def)
qed

lemma disk_new:
  "map_of (disk t oj J) k = None \<Longrightarrow> dput k v (disk t oj J) = disk t oj (J @ [(k, v)])"
  by (simp add: dput_new disk_def split: option.splits)

lemma write_run:
  assumes t: "hex_text 32 t" and h: "nonces_ok h t" and files: "journal_files s = disk t oj J"
    and J: "junk t J" and oj: "oj \<noteq> None \<or> J = []" and j: "journal_ok t j"
  defines "k \<equiv> temp_path t (new_nonce h (created s) (journal_files s))"
  shows "write_journal h j s =
    (let u = s\<lparr>journal_files := disk t oj (J @ [(k, unfinished)]), created := Suc (created s)\<rparr>;
         v = u\<lparr>journal_files := disk t oj (J @ [(k, stored j)])\<rparr>;
         x = v\<lparr>journal_files := disk t (Some j) J\<rparr>
     in ([u, v, x], Inr (), x))"
proof -
  have nonce: "hex_text 32 (new_nonce h (created s) (journal_files s))" using h by (simp add: nonces_ok_def)
  note ne = temp_not_final [OF t nonce] temp_not_final [OF t nonce, symmetric]
  have none: "map_of (disk t oj J) k = None"
    unfolding k_def files by (rule nonce_unused [OF h J])
  have bytes: "runtime_transaction_journal_bytes j = Inr (document_bytes journal_payload j)"
    and id: "transaction_id j = t" using j by (simp_all add: journal_ok_def bytes_Inr)
  have entry: "\<lparr>dir_entry.plain = True, dir_entry.content = document_bytes journal_payload j\<rparr> = stored j"
    by (simp add: stored_def)
  have final: "map_of J (final_path t) = None" by (rule junk_no_final [OF t J])
  have drop: "dpop k (disk t oj (J @ [(k, stored j)])) = disk t oj J"
    using none ne by (auto simp: disk_def dpop_def k_def filter_id_conv map_of_eq_None_iff image_iff split: option.splits)
  have put: "dput (final_path t) (stored j) (disk t oj J) = disk t (Some j) J"
    using oj final by (cases oj) (auto simp: disk_def)
  have written: "write_runtime_transaction_journal (final_path t) j (new_nonce h (created s) (journal_files s)) (\<lambda>_. None) 0 (disk t oj J)
      = (disk t (Some j) J, Inr ())"
  proof -
    have "map_of (disk t oj (J @ [(k, stored j)])) k = Some (stored j)"
      using none by (auto simp: disk_def map_add_def split: option.splits)
    then have "secure_replace k (final_path t) (disk t oj (J @ [(k, stored j)])) = disk t (Some j) J"
      by (simp add: secure_replace_def drop put)
    with none show ?thesis
      by (simp add: write_runtime_transaction_journal_def id bytes k_def [symmetric] dhas_def disk_new entry
          first_fault_def List.map_filter_def)
  qed
  have refill: "dput k (stored j) (disk t oj J) = disk t oj (J @ [(k, stored j)])"
    "dput k (stored j) (disk t oj (J @ [(k, unfinished)])) = disk t oj (J @ [(k, stored j)])"
    using none by (metis disk_new dput_dput)+
  have "dput k \<lparr>dir_entry.plain = True, dir_entry.content = []\<rparr> (disk t oj J) = disk t oj (J @ [(k, unfinished)])"
    using none by (simp add: disk_new unfinished_def)
  with written bytes refill read_disk(2) [OF j, of J] show ?thesis
    by (simp add: write_journal_def run_defs id files put_temp_def count_creation_def k_def [unfolded files, symmetric] entry Let_def)
qed

lemma total_write:
  assumes "hex_text 32 t" and "nonces_ok h t" and "journal_files s = disk t (Some jo) J"
    and "junk t J" and "journal_ok t j"
  shows "completes (\<lambda>_. True) (write_journal h j) Q s
    \<longleftrightarrow> Q () (s\<lparr>created := Suc (created s), journal_files := disk t (Some j) J\<rparr>)"
  unfolding completes_def write_run [OF assms(1-4) _ assms(5), simplified] by (simp add: Let_def)

lemma loads_disk:
  assumes "hex_text 32 t" and "journal_files u = disk t oj J" and "junk t J"
    and "\<And>j. oj = Some j \<Longrightarrow> journal_ok t j"
  shows "loads t u oj"
  unfolding loads_def assms(2) using load_disk [OF assms(1,3,4)] assms(3) by blast

lemma wp_write:
  assumes t: "hex_text 32 t" and h: "nonces_ok h t" and files: "journal_files s = disk t oj []"
    and j: "journal_ok t j" and old: "follows t oj j"
    and I: "\<And>u. rest u = rest s \<Longrightarrow> loads t u oj \<Longrightarrow> I u" "\<And>u. rest u = rest s \<Longrightarrow> loads t u (Some j) \<Longrightarrow> I u"
    and Q: "\<And>u. rest u = rest s \<Longrightarrow> journal_files u = disk t (Some j) [] \<Longrightarrow> created u = Suc (created s) \<Longrightarrow> Q () u"
  shows "wp I (write_journal h j) Q s"
proof -
  let ?k = "temp_path t (new_nonce h (created s) (journal_files s))"
  have oj: "journal_ok t jo" if "oj = Some jo" for jo using old that by (simp add: follows_def)
  have hex: "hex_text 32 (new_nonce h (created s) (journal_files s))" using h by (simp add: nonces_ok_def)
  then have J: "junk t []" "junk t [(?k, unfinished)]" by (auto simp: junk_def)
  let ?u = "s\<lparr>journal_files := disk t oj [(?k, unfinished)], created := Suc (created s)\<rparr>"
  let ?v = "?u\<lparr>journal_files := disk t oj [(?k, stored j)]\<rparr>" and ?x = "?u\<lparr>journal_files := disk t (Some j) []\<rparr>"
  have "I ?u"
    by (rule I(1), simp add: rest_def, rule loads_disk [OF t, of _ _ "[(?k, unfinished)]"]) (use J(2) oj in simp_all)
  moreover have "I ?v"
    using load_promotes [OF t hex j old [unfolded follows_def]] J(1)
    by (intro I(2)) (auto simp: rest_def loads_def)
  moreover have "I ?x"
    by (rule I(2), simp add: rest_def, rule loads_disk [OF t, of _ _ "[]"]) (use J(1) j in simp_all)
  moreover have "Q () ?x" by (rule Q) (simp_all add: rest_def)
  ultimately show ?thesis
    by (simp add: wp_def write_run [OF t h files J(1) _ j] Let_def)
qed

lemma total_load:
  assumes "loads t s oj" and "\<And>u. I u"
  shows "completes I load_journals (\<lambda>js u. js = listed oj \<and> rest u = rest s
    \<and> (\<exists>J. journal_files u = disk t oj J \<and> junk t J)) s"
  using assms by (auto simp: loads_def load_journals_def rest_def)

lemma load_settled:
  assumes "hex_text 32 t" and "journal_files s = disk t oj J" and "junk t J"
    and "\<And>j. oj = Some j \<Longrightarrow> journal_ok t j"
  shows "load_journals s = ([s], Inr (listed oj), s)"
  using load_disk [OF assms(1,3,4)] assms(2) same_files [of s] by (simp add: load_journals_def run_defs)

lemma total_delete:
  assumes "hex_text 32 t" and "journal_files s = disk t (Some j) J" and "junk t J"
  shows "completes (\<lambda>_. True) (delete_journal t) Q s \<longleftrightarrow> Q () (s\<lparr>journal_files := disk t None J\<rparr>)"
proof -
  have "dpop (final_path t) J = J"
    by (rule dpop_absent) (rule junk_no_final [OF assms(1,3)])
  then show ?thesis
    using assms(2,3) by (simp add: delete_journal_def disk_def stored_def secure_unlink_def dpop_def)
qed

end
