(* ===== verification/DocumentSize.thy ===== *)
theory DocumentSize
  imports RuntimeInstall
begin

text \<open>
  Bounds for the length of the documents that the installer writes: an upper bound for the bytes of a
  JSON value, and from it that a journal without cleanup entries, the state of one deck and a receipt
  never reach their size limits.
\<close>

section \<open>Length of a document\<close>

fun extent :: "nat \<Rightarrow> pyval \<Rightarrow> nat"
and extent_list :: "nat \<Rightarrow> pyval list \<Rightarrow> nat"
and extent_items :: "nat \<Rightarrow> dict \<Rightarrow> nat" where
  \<comment> \<open>an upper bound for the characters of a value at indentation \<open>n\<close>\<close>
  "extent n PNone = 4"
| "extent n (PBool b) = 5"
| "extent n (PInt i) = length (int_text i)"
| "extent n (PStr s) = 6 * length s + 2"
| "extent n (PList xs) = 4 * n + 6 + extent_list (Suc n) xs"
| "extent n (PTuple xs) = 4 * n + 6 + extent_list (Suc n) xs"
| "extent n (PDict d) = 4 * n + 6 + extent_items (Suc n) d"
| "extent_list n [] = 0"
| "extent_list n (v # vs) = extent n v + 2 * n + 2 + extent_list n vs"
| "extent_items n [] = 0"
| "extent_items n ((k, v) # d) = 6 * length k + 4 + extent n v + 2 * n + 2 + extent_items n d"

lemma length_join: "length (join sep ts) \<le> sum_list (map (\<lambda>t. length t + length sep) ts)"
  by (induction sep ts rule: join.induct) auto

lemma sum_list_sort: "sum_list (map f (sort_key g xs)) = sum_list (map f xs)" for f :: "'a \<Rightarrow> nat"
  by (simp only: sum_mset_sum_list [symmetric] mset_map mset_sort)

lemma length_concat_map:
  assumes "\<And>c. length (f c) \<le> k"
  shows "length (concat (map f s)) \<le> k * length s"
  by (induction s) (use assms in \<open>auto simp: add_mono\<close>)

lemma length_json_string: "length (json_string s) \<le> 6 * length s + 2"
proof -
  have "length (json_char c) \<le> 6" for c by (simp add: json_char_def Let_def)
  from length_concat_map [of json_char, OF this] show ?thesis by (simp add: json_string_def)
qed

lemma length_json_dump:
  "length (json_dump n v) \<le> extent n v"
  "sum_list (map (\<lambda>t. length t + (2 * n + 2)) (json_dump_list n vs)) \<le> extent_list n vs"
  "sum_list (map (\<lambda>(k, t). length (json_string k) + length t + 2 + (2 * n + 2)) (json_dump_items n d)) \<le> extent_items n d"
proof (induction n v and n vs and n d rule: json_dump_json_dump_list_json_dump_items.induct)
  case (4 n s)
  then show ?case using length_json_string by simp
next
  case (5 n xs)
  then show ?case using length_join [of "'','' @ newline (Suc n)" "json_dump_list (Suc n) xs"] by (auto simp: newline_def)
next
  case (6 n xs)
  then show ?case using length_join [of "'','' @ newline (Suc n)" "json_dump_list (Suc n) xs"] by (auto simp: newline_def)
next
  case (7 n d)
  let ?rows = "json_dump_items (Suc n) d" and ?text = "\<lambda>(k, t). json_string k @ '': '' @ t"
  have "length (join ('','' @ newline (Suc n)) (map ?text (sort_key fst ?rows)))
      \<le> sum_list (map (\<lambda>r. length (?text r) + length ('','' @ newline (Suc n))) (sort_key fst ?rows))"
    using length_join [of "'','' @ newline (Suc n)" "map ?text (sort_key fst ?rows)"] by (simp add: comp_def)
  also have "\<dots> = sum_list (map (\<lambda>r. length (?text r) + length ('','' @ newline (Suc n))) ?rows)"
    by (rule sum_list_sort)
  also have "\<dots> \<le> extent_items (Suc n) d"
    using 7 by (cases "d = []") (simp_all add: case_prod_unfold newline_def add_ac)
  finally show ?case by (auto simp: newline_def)
next
  case (11 n k v d)
  then show ?case using length_json_string [of k] by simp
qed simp_all

lemma length_document: "length (document_bytes payload x) \<le> 2 * (extent 0 (payload x) + 1)"
proof -
  have "length (utf8_char c) \<le> 2" for c by (simp add: utf8_char_def Let_def)
  from length_concat_map [of utf8_char, OF this]
  have "length (document_bytes payload x) \<le> 2 * length (json_dumps (payload x) @ [CHR 0x0A])"
    by (simp only: document_bytes_def utf8_encode_def)
  with length_json_dump(1) [of 0 "payload x"] show ?thesis by (simp add: json_dumps_def)
qed

lemma length_int_text:
  assumes "0 \<le> i" and "i < 10 ^ Suc k"
  shows "length (int_text i) \<le> Suc k"
proof -
  have "length (nat_digits n) \<le> Suc k" if "n < 10 ^ Suc k" for n
    using that
  proof (induction n arbitrary: k rule: nat_digits.induct)
    case (1 n)
    show ?case
    proof (cases k)
      case 0
      with 1(2) show ?thesis by (simp add: nat_digits.simps)
    next
      case (Suc m)
      then have "n div 10 < 10 ^ Suc m" using 1(2) by (simp add: less_mult_imp_div_less mult.commute)
      with 1(1) Suc show ?thesis by (subst nat_digits.simps) auto
    qed
  qed
  moreover have "nat i < 10 ^ Suc k" using assms by (simp add: nat_less_iff)
  ultimately show ?thesis using assms(1) by (simp add: int_text_def)
qed

section \<open>Journals\<close>

definition identity_in_range :: "file_identity option \<Rightarrow> bool" where
  \<comment> \<open>the three numbers of an identity are below \<open>2 ^ 128\<close>\<close>
  "identity_in_range v = (case v of None \<Rightarrow> True | Some (a, b, c) \<Rightarrow> a < 2 ^ 128 \<and> b < 2 ^ 128 \<and> c < 2 ^ 128)"

lemma extent_identity:
  assumes "valid_identity v" and "identity_in_range v"
  shows "extent n (identity_value v) \<le> 4 * n + 6 + 3 * (2 * n + 43)"
proof -
  have number: "length (int_text a) \<le> 39" if "0 \<le> a" "a < 2 ^ 128" for a
    using length_int_text [of a 38] that by simp
  show ?thesis
  proof (cases v)
    case (Some t)
    obtain a b c where t: "t = (a, b, c)" by (rule prod_cases3)
    from assms number [of a] number [of b] number [of c]
    show ?thesis by (simp add: Some t identity_value_def valid_identity_def identity_in_range_def)
  qed (simp add: identity_value_def)
qed

lemma journal_extent:
  assumes "journal_valid j" and "cleanup_entries j = []"
    and "identity_in_range (candidate_identity j)" and "identity_in_range (target_identity j)"
  shows "extent 0 (journal_payload j) \<le> 100000"
proof -
  have parts: "name_conditions j" "cleanup_conditions j" using assms(1) journal_valid_parts by blast+
  have component: "length s \<le> 255" if "valid_component s" for s
    using that by (simp add: valid_component_def SAFE_COMPONENT_LIMIT_def)
  have sha: "length s = 64" if "is_sha256_hex s" for s using that by (simp add: is_sha256_hex_def hex_text_def)
  note conditions = parts(1) [unfolded name_conditions_def]
  have dirs: "length (logical_config_dir j) \<le> 255" "length (next_config_dir j) \<le> 255"
    by (rule component; use conditions in blast)+
  have shas: "length (source_manifest_sha256 j) = 64" "length (package_root_sha256 j) = 64" "length (next_ini_sha256 j) = 64"
    by (rule sha; use conditions in blast)+
  have names: "schema_version j = 1" "length (transaction_id j) = 32" "length (deck_name j) \<le> 255" "length (state_key j) \<le> 255"
    "candidate_path j = ''.hsconfig/staging/'' @ transaction_id j" "target_path j = ''CustomConfig/'' @ next_config_dir j"
    using conditions
    by (simp_all only: is_transaction_id_def hex_text_def valid_deck_name_def SAFE_COMPONENT_LIMIT_def
        RUNTIME_TRANSACTION_SCHEMA_VERSION_def) linarith+
  have texts: "extent n (text_value (previous_config_dir j)) \<le> 1532" "extent n (text_value (previous_ini_sha256 j)) \<le> 386" for n
    using parts(1) sha component
    by (auto simp: name_conditions_def text_value_def split: option.splits)
  have cursor: "cleanup_cursor j = 0" using parts(2) assms(2) by (simp add: cleanup_conditions_def)
  have phase: "length (phase_value (phase j)) \<le> 20" by (cases "phase j") simp_all
  have ids: "extent n (identity_value (candidate_identity j)) \<le> 4 * n + 6 + 3 * (2 * n + 43)"
    "extent n (identity_value (target_identity j)) \<le> 4 * n + 6 + 3 * (2 * n + 43)" for n
    using extent_identity assms(3,4) parts(1) by (simp_all add: name_conditions_def)
  have digit: "length (int_text 1) = 1" "length (int_text 0) = 1" by (simp_all add: int_text_def nat_digits.simps)
  show ?thesis
    using names(2-4) dirs shas texts [of 1] phase ids [of 1]
    unfolding journal_payload_def journal_items_def
    by (simp add: names(1,5,6) cursor assms(2) digit)
qed

lemma journal_fits:
  assumes "journal_valid j" and "cleanup_entries j = []"
    and "identity_in_range (candidate_identity j)" and "identity_in_range (target_identity j)"
  shows "fits j"
  using journal_extent [OF assms] length_document [of journal_payload j]
  by (simp add: fits_def MAX_RUNTIME_TRANSACTION_BYTES_def)

text \<open>
  C26. A journal never reaches its size limit before the cleanup: every valid journal without cleanup
  entries whose identities have numbers below \<open>2 ^ 128\<close> is written.
\<close>
theorem journal_always_fits:
  assumes "journal_valid j" and "cleanup_entries j = []"
    and "identity_in_range (candidate_identity j)" and "identity_in_range (target_identity j)"
  shows "runtime_transaction_journal_bytes j = Inr (document_bytes journal_payload j)"
  using journal_fits [OF assms] by (simp add: bytes_Inr)

lemma journal_always_fits_witness:
  "runtime_transaction_journal_bytes demo_staged = Inr (document_bytes journal_payload demo_staged)"
  by (rule journal_always_fits [OF demo_journals_valid(2)]) (simp_all add: demo_journal_def identity_in_range_def)

section \<open>State and receipt\<close>

lemma single_deck_size:
  assumes "length (ds_state_key d) \<le> 255" and "length (ds_deck_name d) \<le> 255" and "length (ds_config_dir d) \<le> 255"
    and "length (ds_package_root_sha256 d) = 64" and "length (ds_ini_sha256 d) = 64"
  shows "length (document_bytes state_payload \<lparr>st_schema_version = 1, st_decks = [d]\<rparr>) \<le> 1024 * 1024"
proof -
  have "length (int_text 1) = 1" by (simp add: int_text_def nat_digits.simps)
  then have "extent 0 (state_payload \<lparr>st_schema_version = 1, st_decks = [d]\<rparr>) \<le> 100000"
    using assms by (simp add: state_payload_def deck_items_def ordered_decks_def)
  with length_document [of state_payload "\<lparr>st_schema_version = 1, st_decks = [d]\<rparr>"] show ?thesis by simp
qed

lemma receipt_size:
  assumes "name_conditions j" and "is_sha256_hex sha"
  shows "length (receipt_bytes (receipt_payload j sha)) \<le> 1024 * 1024"
proof -
  note conditions = assms(1) [unfolded name_conditions_def]
  have component: "length s \<le> 255" if "valid_component s" for s
    using that by (simp add: valid_component_def SAFE_COMPONENT_LIMIT_def)
  have lengths: "length s = 64" if "is_sha256_hex s" for s using that by (simp add: is_sha256_hex_def hex_text_def)
  have dirs: "length (logical_config_dir j) \<le> 255" "length (next_config_dir j) \<le> 255"
    by (rule component; use conditions in blast)+
  have shas: "length (package_root_sha256 j) = 64" "length (source_manifest_sha256 j) = 64" "length sha = 64"
    by (rule lengths; use conditions assms(2) in blast)+
  have names: "length (state_key j) \<le> 255" "length (runtime_journal.deck_name j) \<le> 255"
    using conditions by (simp_all only: valid_deck_name_def SAFE_COMPONENT_LIMIT_def) linarith+
  have "length (int_text 1) = 1" by (simp add: int_text_def nat_digits.simps)
  then have "extent 0 (receipt_payload j sha) \<le> 100000"
    using names dirs shas by (simp add: receipt_payload_def RECEIPT_SCHEMA_VERSION_def)
  with length_document [of "\<lambda>v. v" "receipt_payload j sha"] show ?thesis by (simp add: receipt_bytes_def)
qed

end
