(* ===== verification/RuntimeCrash.thy ===== *)
theory RuntimeCrash
  imports JournalDisk DocumentSize
begin

text \<open>
  A killed first installation: the states in which the installation of a package into a root without
  journals can be killed, and what the recovery makes of each of them. Except for one window it
  either restores the root or completes the installation.
\<close>

section \<open>The installation\<close>

record transaction =
  tx_host :: host
  tx_plan :: install_plan
  tx_spec :: package_spec
  tx_source :: source
  tx_ini :: deck_config_snapshot
  tx_id :: string
  tx_root :: runtime
    \<comment> \<open>the root before the installation\<close>
  tx_revision :: string
    \<comment> \<open>the digest of the source revision\<close>
  tx_bytes :: string
    \<comment> \<open>the rendered INI\<close>

abbreviation tx_dir :: "transaction \<Rightarrow> string" where
  "tx_dir x \<equiv> plan_versioned_config_dir (tx_plan x)"

abbreviation candidate :: "transaction \<Rightarrow> string" where
  "candidate x \<equiv> staging_path (tx_id x)"

abbreviation place :: "transaction \<Rightarrow> string" where
  "place x \<equiv> config_path (tx_dir x)"

definition ident :: "transaction \<Rightarrow> file_identity" where
  \<comment> \<open>the identity of the candidate: one temporary is created before it\<close>
  "ident x = new_identity (tx_host x) (Suc (created (tx_root x)))"

abbreviation tx_digest :: "transaction \<Rightarrow> string \<Rightarrow> string" where
  "tx_digest x \<equiv> digest (tx_host x)"

definition start :: "transaction \<Rightarrow> runtime_journal" where
  "start x = prepared_journal (tx_digest x) (tx_plan x) (tx_revision x) (tx_ini x) (tx_digest x (tx_bytes x)) (tx_id x)"

definition at :: "transaction \<Rightarrow> file_identity option \<Rightarrow> file_identity option \<Rightarrow> bool \<Rightarrow> runtime_phase \<Rightarrow> runtime_journal" where
  "at x c i ow ph = (start x)\<lparr>candidate_identity := c, target_identity := i, owns_target := ow, phase := ph\<rparr>"

definition new_state :: "transaction \<Rightarrow> runtime_state" where
  "new_state x =
     \<lparr>st_schema_version = 1, st_decks = [\<lparr>ds_state_key = state_key (start x), ds_deck_name = plan_deck_name (tx_plan x),
        ds_config_dir = tx_dir x, ds_package_root_sha256 = plan_package_root_sha256 (tx_plan x),
        ds_ini_sha256 = tx_digest x (tx_bytes x)\<rparr>]\<rparr>"

definition state_bytes :: "transaction \<Rightarrow> string" where
  "state_bytes x = document_bytes state_payload (new_state x)"

definition receipt_of :: "transaction \<Rightarrow> string" where
  "receipt_of x = receipt_bytes (receipt_payload (start x) (tx_digest x (tx_bytes x)))"

definition small :: "string option \<Rightarrow> bool" where
  "small f = (case f of None \<Rightarrow> True | Some b \<Rightarrow> int (length b) \<le> 1024 * 1024)"

definition installable :: "transaction \<Rightarrow> bool" where
  "installable x =
     (hex_text 32 (tx_id x) \<and> nonces_ok (tx_host x) (tx_id x)
      \<and> valid_identity (Some (ident x)) \<and> identity_in_range (Some (ident x))
      \<comment> \<open>the package is one of a manifest, within the limits of a snapshot, and the plan is for it\<close>
      \<and> (\<exists>m. runtime_package_spec (tx_digest x) m = Inr (tx_spec x))
      \<and> plan_package_root_sha256 (tx_plan x) = spec_package_root_sha256 (tx_spec x)
      \<and> within_bounds (package_tree (tx_spec x) (tx_source x))
      \<and> plan_source_sha256 (tx_plan x) = Inr (tx_revision x)
      \<comment> \<open>the INI does not name the new directory, and rendering makes it select it\<close>
      \<and> read_deck_config (tx_digest x) (ini_file (tx_root x)) (plan_deck_name (tx_plan x)) = Inr (tx_ini x)
      \<and> render_deck_config (tx_ini x) (plan_deck_name (tx_plan x)) (tx_dir x) = Inr (tx_bytes x)
      \<and> (\<exists>ini. read_deck_config (tx_digest x) (Some (tx_bytes x)) (plan_deck_name (tx_plan x)) = Inr ini
           \<and> selected_config_dir ini = Some (tx_dir x)
           \<and> deck_config_snapshot.sha256 ini = Some (tx_digest x (tx_bytes x)))
      \<and> \<not> names_dir (ini_file (tx_root x)) (tx_dir x)
      \<and> small (ini_file (tx_root x)) \<and> small (Some (tx_bytes x)) \<and> \<not> ini_linked (tx_root x)
      \<comment> \<open>the first journal is valid, and so is the new state: the state refuses device names\<close>
      \<and> journal_valid (start x) \<and> state_valid (new_state x)
      \<and> small (receipt_file (state_key (start x)) (tx_root x))
      \<comment> \<open>the root has no transaction, no state, nothing in staging and no such directory\<close>
      \<and> journal_files (tx_root x) = [] \<and> state_file (tx_root x) = None \<and> staging_names (tx_root x) = []
      \<and> map_of (nodes (tx_root x)) (place x) = None)"

section \<open>States of the root\<close>

definition untouched :: "transaction \<Rightarrow> runtime \<Rightarrow> bool" where
  \<comment> \<open>the files beside the directories are the old ones\<close>
  "untouched x u = (ini_file u = ini_file (tx_root x) \<and> \<not> ini_linked u \<and> state_file u = None \<and> receipts u = receipts (tx_root x))"

definition switched :: "transaction \<Rightarrow> runtime \<Rightarrow> bool" where
  "switched x u = (ini_file u = Some (tx_bytes x) \<and> \<not> ini_linked u \<and> state_file u \<in> {None, Some (state_bytes x)}
     \<and> small (receipt_file (state_key (start x)) u))"

definition two_names :: "transaction \<Rightarrow> runtime \<Rightarrow> bool" where
  \<comment> \<open>a new INI has been committed by a hard link, and its second name is not removed yet\<close>
  "two_names x u = (posix (tx_host x) \<and> ini_file (tx_root x) = None \<and> ini_file u = Some (tx_bytes x) \<and> ini_linked u)"

definition has_candidate :: "transaction \<Rightarrow> runtime \<Rightarrow> bool" where
  "has_candidate x u = (\<exists>tr. nodes u = nodes (tx_root x) @ [(candidate x, Directory tr)]
     \<and> tree_identity tr = ident x \<and> part_of (tx_spec x) (tx_source x) tr)"

definition has_target :: "transaction \<Rightarrow> runtime \<Rightarrow> bool" where
  "has_target x u = (\<exists>tr. nodes u = nodes (tx_root x) @ [(place x, Directory tr)]
     \<and> tree_identity tr = ident x \<and> part_of (tx_spec x) (tx_source x) tr
     \<and> holds_package (tx_digest x) (tx_spec x) (tx_source x) (Some (Directory tr)))"

definition shape :: "transaction \<Rightarrow> runtime_journal option \<Rightarrow> runtime \<Rightarrow> bool" where
  \<comment> \<open>what the journal says about the rest of the root\<close>
  "shape x oj u =
     (case oj of
        None \<Rightarrow> nodes u = nodes (tx_root x) \<and> untouched x u
      | Some j \<Rightarrow>
          j = at x None None False PREPARED \<and> untouched x u
            \<and> (nodes u = nodes (tx_root x) \<or> has_candidate x u)
          \<or> (\<exists>ph. ph \<in> {PREPARED, RUNTIME_STAGED, RUNTIME_VERIFIED} \<and> j = at x (Some (ident x)) None False ph)
            \<and> untouched x u \<and> has_candidate x u
          \<or> j = at x (Some (ident x)) None False RUNTIME_VERIFIED \<and> untouched x u \<and> has_target x u
          \<or> j = at x (Some (ident x)) (Some (ident x)) True RUNTIME_VERIFIED
            \<and> (untouched x u \<or> switched x u \<or> two_names x u) \<and> has_target x u
          \<or> (\<exists>ph. ph \<in> {INI_COMMITTED, STATE_COMMITTED, FINALIZED}
               \<and> j = at x (Some (ident x)) (Some (ident x)) True ph)
            \<and> switched x u \<and> has_target x u)"

definition interrupted :: "transaction \<Rightarrow> runtime \<Rightarrow> bool" where
  "interrupted x u = (\<exists>oj. loads (tx_id x) u oj \<and> shape x oj u)"

definition unrecorded :: "transaction \<Rightarrow> runtime \<Rightarrow> bool" where
  \<comment> \<open>the candidate exists and the journal does not have its identity\<close>
  "unrecorded x u =
     (loads (tx_id x) u (Some (at x None None False PREPARED)) \<and> map_of (nodes u) (candidate x) \<noteq> None)"

definition rolled_back :: "transaction \<Rightarrow> runtime \<Rightarrow> bool" where
  "rolled_back x u =
     (nodes u = nodes (tx_root x) \<and> untouched x u \<and> loads (tx_id x) u None)"

definition completed :: "transaction \<Rightarrow> runtime \<Rightarrow> bool" where
  "completed x u =
     (has_target x u \<and> ini_file u = Some (tx_bytes x) \<and> \<not> ini_linked u \<and> state_file u = Some (state_bytes x)
      \<and> receipt_file (state_key (start x)) u = Some (receipt_of x)
      \<and> loads (tx_id x) u (Some (at x (Some (ident x)) (Some (ident x)) True FINALIZED)))"

section \<open>Consequences of the assumptions\<close>

lemma map_of_snoc:
  "map_of (d @ [(k, v)]) k' = (case map_of d k' of None \<Rightarrow> if k' = k then Some v else None | Some y \<Rightarrow> Some y)"
  by (induction d) auto

lemma at_fields [simp]:
  "transaction_id (at x c i ow ph) = tx_id x" "runtime_journal.deck_name (at x c i ow ph) = plan_deck_name (tx_plan x)"
  "candidate_path (at x c i ow ph) = candidate x" "target_path (at x c i ow ph) = place x"
  "candidate_identity (at x c i ow ph) = c" "target_identity (at x c i ow ph) = i" "owns_target (at x c i ow ph) = ow"
  "phase (at x c i ow ph) = ph" "cleanup_started (at x c i ow ph) = False"
  "next_config_dir (at x c i ow ph) = tx_dir x" "next_ini_sha256 (at x c i ow ph) = tx_digest x (tx_bytes x)"
  "package_root_sha256 (at x c i ow ph) = plan_package_root_sha256 (tx_plan x)"
  "previous_config_dir (at x c i ow ph) = selected_config_dir (tx_ini x)"
  "state_key (at x c i ow ph) = state_key (start x)"
  by (simp_all add: at_def start_def prepared_journal_def staging_path_def config_path_def target_dir_def)

lemma at_updates [simp]:
  "(at x c i ow ph)\<lparr>candidate_identity := c'\<rparr> = at x c' i ow ph"
  "(at x c i ow ph)\<lparr>phase := ph'\<rparr> = at x c i ow ph'"
  "(at x c i ow ph)\<lparr>target_identity := i', owns_target := ow'\<rparr> = at x c i' ow' ph"
  "(at x c i ow ph)\<lparr>target_identity := i', phase := ph'\<rparr> = at x c i' ow ph'"
  "(at x c i ow ph)\<lparr>target_identity := i', owns_target := ow', phase := ph'\<rparr> = at x c i' ow' ph'"
  by (simp_all add: at_def)

lemma at_start: "at x None None False PREPARED = start x"
  by (simp add: at_def start_def prepared_journal_def)

lemma at_eq [simp]: "at x c i ow ph = at x c' i' ow' ph' \<longleftrightarrow> c = c' \<and> i = i' \<and> ow = ow' \<and> ph = ph'"
proof
  assume eq: "at x c i ow ph = at x c' i' ow' ph'"
  show "c = c' \<and> i = i' \<and> ow = ow' \<and> ph = ph'"
    using arg_cong [OF eq, of candidate_identity] arg_cong [OF eq, of target_identity]
      arg_cong [OF eq, of owns_target] arg_cong [OF eq, of phase] by simp
qed simp

lemma name_conditions_identities:
  "name_conditions (j\<lparr>candidate_identity := c, target_identity := i, owns_target := ow, phase := ph\<rparr>)
    \<longleftrightarrow> name_conditions (j\<lparr>candidate_identity := None, target_identity := None\<rparr>) \<and> valid_identity c \<and> valid_identity i"
proof -
  have none: "valid_identity None" by (simp add: valid_identity_def)
  show ?thesis unfolding name_conditions_def by (simp add: none) blast
qed

lemma at_ok:
  assumes "installable x" and "c \<in> {None, Some (ident x)}" and "i \<in> {None, Some (ident x)}"
    and "identity_conditions (at x c i ow ph)"
  shows "journal_ok (tx_id x) (at x c i ow ph)"
proof -
  have start: "journal_valid (start x)" "valid_identity c" "valid_identity i"
    using assms(1-3) by (auto simp: installable_def valid_identity_def)
  from start(1) have "name_conditions (start x)" using journal_valid_parts by blast
  moreover have "start x = (start x)\<lparr>candidate_identity := None, target_identity := None, owns_target := False, phase := PREPARED\<rparr>"
    by (simp add: start_def prepared_journal_def)
  ultimately have "name_conditions (at x c i ow ph)"
    using start(2,3) unfolding at_def by (metis name_conditions_identities)
  moreover have "cleanup_conditions (at x c i ow ph)"
    by (simp add: cleanup_conditions_def at_def start_def prepared_journal_def)
  moreover have "cleanup_entries (at x c i ow ph) = []" by (simp add: at_def start_def prepared_journal_def)
  ultimately have "journal_valid (at x c i ow ph)" "cleanup_entries (at x c i ow ph) = []"
    using assms(4) by (simp_all add: journal_valid_def RuntimeTransactionJournal_Inr)
  moreover have "identity_in_range c" "identity_in_range i"
    using assms(1-3) by (auto simp: installable_def identity_in_range_def)
  ultimately have "fits (at x c i ow ph)"
    using journal_fits [of "at x c i ow ph"] by simp
  with \<open>journal_valid (at x c i ow ph)\<close> show ?thesis by (simp add: journal_ok_def)
qed

lemma journals_ok:
  assumes "installable x"
  shows "journal_ok (tx_id x) (at x None None False PREPARED)"
    and "ph \<in> {PREPARED, RUNTIME_STAGED, RUNTIME_VERIFIED} \<Longrightarrow> journal_ok (tx_id x) (at x (Some (ident x)) None False ph)"
    and "ph \<in> {RUNTIME_VERIFIED, INI_COMMITTED, STATE_COMMITTED, FINALIZED} \<Longrightarrow>
      journal_ok (tx_id x) (at x (Some (ident x)) (Some (ident x)) True ph)"
  by (rule at_ok [OF assms]; auto simp: identity_conditions_def)+

lemma journal_ok_replaced: "journal_ok t j \<Longrightarrow> RuntimeTransactionJournal j = Inr j"
  by (simp add: journal_ok_def journal_valid_def)

lemma staging_names_snoc:
  assumes "staging_names w = []"
  shows "nodes u = nodes w \<Longrightarrow> staging_names u = []"
    and "nodes u = nodes w @ [(staging_path t, n)] \<Longrightarrow> staging_names u = [t]"
    and "nodes u = nodes w @ [(config_path c, n)] \<Longrightarrow> staging_names u = []"
  using assms by (simp_all add: staging_names_def staging_path_def config_path_def starts_with_def)

lemma no_candidate: "staging_names w = [] \<Longrightarrow> map_of (nodes w) (staging_path t) = None"
proof (rule ccontr)
  assume none: "staging_names w = []" and "map_of (nodes w) (staging_path t) \<noteq> None"
  then obtain n where "(staging_path t, n) \<in> set (nodes w)" by (auto dest: map_of_SomeD)
  then have "(staging_path t, n) \<in> set (filter (\<lambda>(path, n). starts_with ''.hsconfig/staging/'' path) (nodes w))"
    by (simp add: staging_path_def starts_with_def)
  with none show False unfolding staging_names_def by (metis empty_iff list.map_disc_iff list.set(1))
qed

lemma roots:
  assumes "installable x"
  shows "hex_text 32 (tx_id x)" "nonces_ok (tx_host x) (tx_id x)" "map_of (nodes (tx_root x)) (candidate x) = None"
    "map_of (nodes (tx_root x)) (place x) = None" "staging_names (tx_root x) = []"
    "journal_files (tx_root x) = []" "state_file (tx_root x) = None" "\<not> ini_linked (tx_root x)"
  using assms no_candidate by (auto simp: installable_def)

section \<open>Recovery\<close>

lemmas reading_defs = read_actual_ini_def path_lexists_def plain_directory_identity_def directory_identity_or_none_def
  plain_file_bytes_or_none_def active_config_dirs_def read_state_def replaced_def advance_def

lemma total_recover:
  assumes "loads t u oj"
    and "\<And>s J. rest s = rest u \<Longrightarrow> journal_files s = disk t oj J \<Longrightarrow> junk t J \<Longrightarrow>
      completes (\<lambda>_. True) (validate_recovery_ownership (listed oj)) (\<lambda>_ s1.
        completes (\<lambda>_. True) (pfold (\<lambda>j repaired. pbind (recover_journal h j) (\<lambda>r. preturn (repaired \<or> r))) (listed oj) False) (\<lambda>_ s2.
          completes (\<lambda>_. True) read_state (\<lambda>st s3. completes (\<lambda>_. True) (verify_active_state_targets h st) (\<lambda>_. R) s3) s2) s1) s"
  shows "completes (\<lambda>_. True) (recover_locked h) (\<lambda>_. R) u"
  unfolding recover_locked_def
  by (rule total_seq [OF total_load [OF assms(1) TrueI]]) (use assms(2) in auto)

lemma not_selected:
  assumes "installable x"
  shows "\<not> same_config_dir (selected_config_dir (tx_ini x)) (Some (tx_dir x))"
proof
  assume same: "same_config_dir (selected_config_dir (tx_ini x)) (Some (tx_dir x))"
  then obtain d where d: "selected_config_dir (tx_ini x) = Some d" "casefold d = casefold (tx_dir x)"
    by (auto simp: same_config_dir_def split: option.splits)
  have read: "read_deck_config (tx_digest x) (ini_file (tx_root x)) (plan_deck_name (tx_plan x)) = Inr (tx_ini x)"
    and absent: "\<not> names_dir (ini_file (tx_root x)) (tx_dir x)" using assms by (simp_all add: installable_def)
  show False
  proof (cases "ini_file (tx_root x)")
    case None
    with read have "selected_config_dir (tx_ini x) = None"
      by (auto simp: read_deck_config_def validate_deck_name_def split: if_splits dest!: sym [of _ "tx_ini x"])
    with d(1) show False by simp
  next
    case (Some b)
    with read d(1) have "names_dir (Some b) d" using selected_is_named by metis
    with absent d(2) Some show False by (simp add: names_dir_def split: option.splits)
  qed
qed

lemma old_ini:
  assumes "installable x" and "ini_file s = ini_file (tx_root x)" and "\<not> ini_linked s"
  shows "completes (\<lambda>_. True) (read_actual_ini (tx_host x) (plan_deck_name (tx_plan x))) Q s \<longleftrightarrow> Q (tx_ini x) s"
    and "completes (\<lambda>_. True) active_config_dirs R s \<longleftrightarrow> R (active_dirs (ini_file (tx_root x))) s"
    and "\<exists>a. active_dirs (ini_file (tx_root x)) = Some a \<and> casefold (tx_dir x) \<notin> set a"
  using assms by (auto simp: installable_def reading_defs names_dir_def small_def ensure_def split: option.splits)

lemma new_ini:
  assumes "installable x" and "ini_file s = Some (tx_bytes x)" and "\<not> ini_linked s"
  shows "\<exists>ini. selected_config_dir ini = Some (tx_dir x) \<and> deck_config_snapshot.sha256 ini = Some (tx_digest x (tx_bytes x))
    \<and> (\<forall>Q. completes (\<lambda>_. True) (read_actual_ini (tx_host x) (plan_deck_name (tx_plan x))) Q s \<longleftrightarrow> Q ini s)"
    and "completes I active_config_dirs R s \<longleftrightarrow> R (active_dirs (Some (tx_bytes x))) s"
  using assms by (auto simp: installable_def reading_defs small_def ensure_def)

lemma recover_nothing:
  assumes "installable x" and "loads (tx_id x) u None" and "shape x None u"
  shows "completes (\<lambda>_. True) (recover_locked (tx_host x)) (\<lambda>_. rolled_back x) u"
proof (rule total_recover [OF assms(2)], goal_cases)
  case (1 s J)
  have "nodes s = nodes (tx_root x)" "untouched x s"
    using assms(3) 1(1) by (simp_all add: shape_def rest_def untouched_def)
  moreover from this have "loads (tx_id x) s None" "staging_names s = []"
    using loads_disk [OF roots(1) [OF assms(1)] 1(2,3)] staging_names_snoc(1) roots(5) [OF assms(1)] by auto
  ultimately show ?case
    by (simp add: validate_recovery_ownership_def reading_defs verify_active_state_targets_def rolled_back_def)
       (simp add: untouched_def verify_active_state_targets_def rolled_back_def)
qed

lemma dpop_snoc: "map_of d k = None \<Longrightarrow> dpop k (d @ [(k, v)]) = d"
  using dpop_absent [of d k] by (simp add: dpop_def)

lemma candidate_not_place [simp]: "candidate x \<noteq> place x" "place x \<noteq> candidate x"
  by (simp_all add: staging_path_def config_path_def)

lemma candidate_lookup:
  assumes "installable x" and "has_candidate x s"
  obtains tr where "map_of (nodes s) (candidate x) = Some (Directory tr)" and "map_of (nodes s) (place x) = None"
    and "tree_identity tr = ident x" and "nodes (drop_node (candidate x) s) = nodes (tx_root x)"
    and "\<And>Q. completes (\<lambda>_. True) (remove_owned_tree (candidate x) (ident x)) Q s \<longleftrightarrow> Q () (drop_node (candidate x) s)"
proof -
  obtain tr where tr: "nodes s = nodes (tx_root x) @ [(candidate x, Directory tr)]" "tree_identity tr = ident x"
    "part_of (tx_spec x) (tx_source x) tr" using assms(2) by (auto simp: has_candidate_def)
  note none = roots(3,4) [OF assms(1)]
  have maps: "map_of (nodes s) (candidate x) = Some (Directory tr)" "map_of (nodes s) (place x) = None"
    using none by (simp_all add: tr(1) map_of_snoc del: map_of_append)
  have "within_bounds tr" "tree_ok tr"
    using part_within [OF _ tr(3)] tr(3) assms(1) by (simp_all add: installable_def part_of_def)
  with maps(1) tr(2) have "completes (\<lambda>_. True) (remove_owned_tree (candidate x) (ident x)) Q s
      \<longleftrightarrow> Q () (drop_node (candidate x) s)" for Q by (rule total_remove)
  moreover have "nodes (drop_node (candidate x) s) = nodes (tx_root x)"
    using none by (simp add: drop_node_def tr(1) dpop_snoc)
  ultimately show ?thesis using that maps tr(2) by blast
qed

lemma target_lookup:
  assumes "installable x" and "has_target x s"
  obtains tr where "map_of (nodes s) (place x) = Some (Directory tr)" and "map_of (nodes s) (candidate x) = None"
    and "tree_identity tr = ident x" and "nodes (drop_node (place x) s) = nodes (tx_root x)"
    and "\<And>Q u. nodes u = nodes s \<Longrightarrow>
      completes (\<lambda>_. True) (remove_owned_tree (place x) (ident x)) Q u \<longleftrightarrow> Q () (drop_node (place x) u)"
    and "\<And>Q u. nodes u = nodes s \<Longrightarrow>
      completes (\<lambda>_. True) (verify_runtime_tree_digest (tx_host x) (place x) (plan_package_root_sha256 (tx_plan x))) Q u \<longleftrightarrow> Q () u"
proof -
  obtain tr where tr: "nodes s = nodes (tx_root x) @ [(place x, Directory tr)]" "tree_identity tr = ident x"
    "part_of (tx_spec x) (tx_source x) tr" "holds_package (tx_digest x) (tx_spec x) (tx_source x) (Some (Directory tr))"
    using assms(2) by (auto simp: has_target_def)
  note none = roots(3,4) [OF assms(1)]
  have maps: "map_of (nodes s) (place x) = Some (Directory tr)" "map_of (nodes s) (candidate x) = None"
    using none by (simp_all add: tr(1) map_of_snoc del: map_of_append)
  have ok: "within_bounds tr" "tree_ok tr"
    using part_within [OF _ tr(3)] tr(3) assms(1) by (simp_all add: installable_def part_of_def)
  have "view_digest (tx_digest x) (tree_view tr) = plan_package_root_sha256 (tx_plan x)"
    using complete_digest [OF tr(4)] assms(1) by (auto simp: installable_def)
  with maps(1) ok(1) have verify: "completes (\<lambda>_. True)
      (verify_runtime_tree_digest (tx_host x) (place x) (plan_package_root_sha256 (tx_plan x))) Q u \<longleftrightarrow> Q () u"
    if "nodes u = nodes s" for Q u using that by (intro total_verify_digest) simp_all
  have remove: "completes (\<lambda>_. True) (remove_owned_tree (place x) (ident x)) Q u \<longleftrightarrow> Q () (drop_node (place x) u)"
    if "nodes u = nodes s" for Q u using that maps(1) tr(2) ok by (intro total_remove) simp_all
  have "nodes (drop_node (place x) s) = nodes (tx_root x)"
    using none by (simp add: drop_node_def tr(1) dpop_snoc)
  then show ?thesis by (rule that [OF maps tr(2) _ remove verify])
qed

lemma rolled_backI:
  assumes x: "installable x" and s: "nodes s = nodes (tx_root x)" "untouched x s"
    and J: "journal_files s = disk (tx_id x) None J" "junk (tx_id x) J"
  shows "rolled_back x s"
  using s loads_disk [OF roots(1) [OF x] J] by (simp add: rolled_back_def)

lemma untouched_cong: "ini_file s = ini_file u \<Longrightarrow> ini_linked s = ini_linked u \<Longrightarrow> state_file s = state_file u \<Longrightarrow> receipts s = receipts u \<Longrightarrow>
    untouched x s = untouched x u"
  by (simp add: untouched_def)

lemma drop_node_fields [simp]:
  "ini_file (drop_node k s) = ini_file s" "ini_linked (drop_node k s) = ini_linked s" "state_file (drop_node k s) = state_file s"
  "receipts (drop_node k s) = receipts s" "journal_files (drop_node k s) = journal_files s"
  "created (drop_node k s) = created s" "owner_retirements (drop_node k s) = owner_retirements s"
  by (simp_all add: drop_node_def)

lemma roll_back_prepared:
  assumes x: "installable x" and s: "nodes s = nodes (tx_root x)" "untouched x s"
    and J: "journal_files s = disk (tx_id x) (Some (at x None None False PREPARED)) J"
      "junk (tx_id x) J"
  shows "completes (\<lambda>_. True) (recover_journal (tx_host x) (at x None None False PREPARED)) (\<lambda>_. rolled_back x) s"
proof -
  have "rolled_back x (s\<lparr>journal_files := disk (tx_id x) None J\<rparr>)"
    by (rule rolled_backI [OF x, of _ J]) (use s J in \<open>simp_all add: untouched_def\<close>)
  moreover have "ini_file s = ini_file (tx_root x)" "\<not> ini_linked s" using s(2) by (simp_all add: untouched_def)
  note ini = old_ini(1,2) [OF x this]
  ultimately show ?thesis
    using roots(3,4) [OF x] s(1) not_selected [OF x] total_delete [OF roots(1) [OF x] J]
    by (simp add: recover_journal_def recover_unselected_def path_lexists_def directory_identity_or_none_def dhas_def ini)
qed

lemma roll_back_candidate:
  assumes x: "installable x" and s: "has_candidate x s" "untouched x s"
    and j: "j = at x (Some (ident x)) None False ph" "ph \<in> {PREPARED, RUNTIME_STAGED, RUNTIME_VERIFIED}"
    and J: "journal_files s = disk (tx_id x) (Some j) J" "junk (tx_id x) J"
  shows "completes (\<lambda>_. True) (recover_journal (tx_host x) j) (\<lambda>_. rolled_back x) s"
proof -
  obtain tr where look: "map_of (nodes s) (candidate x) = Some (Directory tr)" "map_of (nodes s) (place x) = None"
    "tree_identity tr = ident x" "nodes (drop_node (candidate x) s) = nodes (tx_root x)"
    and remove: "\<And>Q. completes (\<lambda>_. True) (remove_owned_tree (candidate x) (ident x)) Q s \<longleftrightarrow> Q () (drop_node (candidate x) s)"
    using candidate_lookup [OF x s(1)] by blast
  have u: "ini_file u = ini_file (tx_root x)" "\<not> ini_linked u" if "u = s \<or> u = drop_node (candidate x) s" for u
    using s(2) that by (auto simp: untouched_def)
  note ini = old_ini(1) [OF x u, of s] old_ini(2) [OF x u, of "drop_node (candidate x) s"]
  have "rolled_back x ((drop_node (candidate x) s)\<lparr>journal_files := disk (tx_id x) None J\<rparr>)"
    by (rule rolled_backI [OF x, of _ J]) (use s(2) J look(4) in \<open>simp_all add: untouched_def\<close>)
  with total_delete [OF roots(1) [OF x], of "drop_node (candidate x) s"] J
  have delete: "completes (\<lambda>_. True) (delete_journal (tx_id x)) (\<lambda>_. rolled_back x) (drop_node (candidate x) s)" by simp
  show ?thesis
    using j(2) look(1-3) not_selected [OF x] remove delete
    by (auto simp: recover_journal_def recover_unselected_def path_lexists_def directory_identity_or_none_def
        plain_directory_identity_def dhas_def ini j(1))
qed

lemma undo_target:
  assumes x: "installable x" and s: "has_target x s" "untouched x s"
    and J: "journal_files s = disk (tx_id x) (Some j) J" "junk (tx_id x) J"
    and j: "j = at x (Some (ident x)) (Some (ident x)) True RUNTIME_VERIFIED"
  shows "completes (\<lambda>_. True) (recover_unselected (tx_host x) j rename_window None (Some (ident x))) (\<lambda>_. rolled_back x) s"
proof -
  obtain tr where look: "map_of (nodes s) (place x) = Some (Directory tr)" "nodes (drop_node (place x) s) = nodes (tx_root x)"
    and remove: "\<And>Q u. nodes u = nodes s \<Longrightarrow>
      completes (\<lambda>_. True) (remove_owned_tree (place x) (ident x)) Q u \<longleftrightarrow> Q () (drop_node (place x) u)"
    and verify: "\<And>Q u. nodes u = nodes s \<Longrightarrow>
      completes (\<lambda>_. True) (verify_runtime_tree_digest (tx_host x) (place x) (plan_package_root_sha256 (tx_plan x))) Q u \<longleftrightarrow> Q () u"
    using target_lookup [OF x s(1)] by metis
  have ini_file: "ini_file s = ini_file (tx_root x)" "\<not> ini_linked s" using s(2) by (simp_all add: untouched_def)
  obtain a where a: "active_dirs (ini_file (tx_root x)) = Some a" "casefold (tx_dir x) \<notin> set a"
    using old_ini(3) [OF x ini_file] by blast
  have "rolled_back x ((drop_node (place x) s)\<lparr>journal_files := disk (tx_id x) None J\<rparr>)"
    by (rule rolled_backI [OF x, of _ J]) (use s(2) J look(2) in \<open>simp_all add: untouched_def\<close>)
  with total_delete [OF roots(1) [OF x], of "drop_node (place x) s"] J
  have delete: "completes (\<lambda>_. True) (delete_journal (tx_id x)) (\<lambda>_. rolled_back x) (drop_node (place x) s)" by simp
  show ?thesis
    using a delete by (simp add: recover_unselected_def j old_ini(2) [OF x ini_file] verify remove)
qed

lemma roll_back_target:
  assumes x: "installable x" and s: "has_target x s" "untouched x s"
    and J: "journal_files s = disk (tx_id x) (Some j) J" "junk (tx_id x) J"
    and j: "j = at x (Some (ident x)) None False RUNTIME_VERIFIED \<or> j = at x (Some (ident x)) (Some (ident x)) True RUNTIME_VERIFIED"
  shows "completes (\<lambda>_. True) (recover_journal (tx_host x) j) (\<lambda>_. rolled_back x) s"
proof -
  let ?k = "at x (Some (ident x)) (Some (ident x)) True RUNTIME_VERIFIED"
  obtain tr where look: "map_of (nodes s) (place x) = Some (Directory tr)" "map_of (nodes s) (candidate x) = None"
    "tree_identity tr = ident x" using target_lookup [OF x s(1)] by metis
  have ini_file: "ini_file s = ini_file (tx_root x)" "\<not> ini_linked s" using s(2) by (simp_all add: untouched_def)
  note ids = path_lexists_def directory_identity_or_none_def plain_directory_identity_def dhas_def look
  have k: "journal_ok (tx_id x) ?k" using journals_ok(3) [OF x] by simp
  from j show ?thesis
  proof
    assume j: "j = at x (Some (ident x)) None False RUNTIME_VERIFIED"
    let ?s = "s\<lparr>created := Suc (created s), journal_files := disk (tx_id x) (Some ?k) J\<rparr>"
    have "completes (\<lambda>_. True) (recover_unselected (tx_host x) ?k rename_window None (Some (ident x))) (\<lambda>_. rolled_back x) ?s"
      for rename_window
      by (rule undo_target [OF x, of _ ?k J]) (use s J(2) in \<open>auto simp: has_target_def untouched_def\<close>)
    then show ?thesis
      using not_selected [OF x] old_ini(1) [OF x, of ?s] ini_file
        total_write [OF roots(1,2) [OF x] J(1) [unfolded j] J(2) k]
      by (simp add: recover_journal_def j ids replaced_def advance_def journal_ok_replaced [OF k] Let_def del: not_None_eq)
  next
    assume j: "j = ?k"
    then show ?thesis
      using undo_target [OF x s J j, of False] not_selected [OF x]
      by (simp add: recover_journal_def ids old_ini(1) [OF x ini_file])
  qed
qed

section \<open>Completing the installation\<close>

abbreviation owner :: "transaction \<Rightarrow> runtime_phase \<Rightarrow> runtime_journal" where
  "owner x ph \<equiv> at x (Some (ident x)) (Some (ident x)) True ph"

definition forward :: "transaction \<Rightarrow> directory \<Rightarrow> runtime_phase \<Rightarrow> runtime \<Rightarrow> bool" where
  "forward x J ph s =
     (has_target x s \<and> switched x s \<and> journal_files s = disk (tx_id x) (Some (owner x ph)) J
      \<and> junk (tx_id x) J)"

lemma forward_advance:
  assumes x: "installable x" and s: "forward x J ph s"
    and ph: "ph' \<in> {RUNTIME_VERIFIED, INI_COMMITTED, STATE_COMMITTED, FINALIZED}"
  shows "completes (\<lambda>_. True) (advance (tx_host x) (owner x ph'))
    (\<lambda>j u. j = owner x ph' \<and> forward x J ph' u \<and> state_file u = state_file s \<and> receipts u = receipts s) s"
proof -
  have J: "journal_files s = disk (tx_id x) (Some (owner x ph)) J" "junk (tx_id x) J"
    using s by (simp_all add: forward_def)
  note k = journals_ok(3) [OF x ph]
  show ?thesis
    using s total_write [OF roots(1,2) [OF x] J k]
    by (simp add: advance_def replaced_def journal_ok_replaced [OF k] forward_def has_target_def switched_def receipt_file_def)
qed

lemma selected_new:
  "selected_decks None (owner x ph) (tx_digest x (tx_bytes x)) = st_decks (new_state x)"
  "selected_decks (Some (new_state x)) (owner x ph) (tx_digest x (tx_bytes x)) = st_decks (new_state x)"
  by (simp_all add: selected_decks_def new_state_def)

lemma documents_small:
  assumes "installable x"
  shows "int (length (state_bytes x)) \<le> 1024 * 1024" and "int (length (receipt_of x)) \<le> 1024 * 1024"
proof -
  have names: "name_conditions (start x)" using assms journal_valid_parts by (simp add: installable_def)
  note conditions = names [unfolded name_conditions_def]
  have fields: "next_config_dir (start x) = tx_dir x" "package_root_sha256 (start x) = plan_package_root_sha256 (tx_plan x)"
    "next_ini_sha256 (start x) = tx_digest x (tx_bytes x)" "runtime_journal.deck_name (start x) = plan_deck_name (tx_plan x)"
    by (simp_all add: start_def prepared_journal_def)
  have "valid_component (tx_dir x)" "is_sha256_hex (plan_package_root_sha256 (tx_plan x))"
    and sha: "is_sha256_hex (tx_digest x (tx_bytes x))"
    using conditions unfolding fields by blast+
  moreover have "length (state_key (start x)) \<le> 255" "length (plan_deck_name (tx_plan x)) \<le> 255"
    using conditions unfolding fields by (simp_all only: valid_deck_name_def SAFE_COMPONENT_LIMIT_def) linarith+
  ultimately have "length (document_bytes state_payload (new_state x)) \<le> 1024 * 1024"
    unfolding new_state_def
    by (intro single_deck_size)
       (simp_all add: valid_component_def SAFE_COMPONENT_LIMIT_def is_sha256_hex_def hex_text_def)
  then show "int (length (state_bytes x)) \<le> 1024 * 1024" by (simp add: state_bytes_def)
  show "int (length (receipt_of x)) \<le> 1024 * 1024"
    using receipt_size [OF names sha] by (simp add: receipt_of_def)
qed

lemma new_state_read:
  assumes "installable x"
  shows "read_runtime_state (Some (state_bytes x)) = Inr (Some (new_state x))"
    and "serialize_runtime_state (new_state x) = Inr (state_bytes x)"
proof -
  have "canonical_state (new_state x) = new_state x" by (simp add: canonical_state_def new_state_def ordered_decks_def)
  with assms show "read_runtime_state (Some (state_bytes x)) = Inr (Some (new_state x))"
    using documents_small(1) [OF assms] by (simp add: read_state_iff installable_def MAX_STATE_BYTES_def state_bytes_def)
  show "serialize_runtime_state (new_state x) = Inr (state_bytes x)"
    using assms by (simp add: serialize_Inr installable_def state_bytes_def)
qed

lemma forward_state:
  assumes x: "installable x" and s: "forward x J ph s"
  shows "completes (\<lambda>_. True) (write_selected_state (owner x ph) (Some (tx_digest x (tx_bytes x))))
    (\<lambda>st u. st = new_state x \<and> forward x J ph u \<and> state_file u = Some (state_bytes x)) s"
proof -
  have stored: "state_file s = None \<or> state_file s = Some (state_bytes x)" using s by (simp add: forward_def switched_def)
  note size = documents_small(1) [OF x]
  have new: "\<lparr>st_schema_version = 1, st_decks = st_decks (new_state x)\<rparr> = new_state x" by (simp add: new_state_def)
  have "s\<lparr>state_file := Some (state_bytes x)\<rparr> = s" if "state_file s = Some (state_bytes x)" using that by simp
  with stored s size show ?thesis
    by (elim disjE) (simp_all add: write_selected_state_def read_state_def plain_file_bytes_or_none_def selected_new new
        new_state_read [OF x] forward_def has_target_def switched_def receipt_file_def Let_def)
qed

lemma key_char:
  assumes "is_lower_alnum c \<or> c = CHR ''-''"
  shows "\<not> is_space c" and "32 \<le> code c" and "c \<notin> set ''<>:/|?*'' \<union> {CHR 0x22, CHR 0x5C, CHR 0x00}"
    and "c \<notin> {CHR ''.'', CHR '' ''}"
  using assms by (auto simp: is_lower_alnum_def is_space_def code_def Let_def)

lemma state_key_component:
  assumes "is_state_key s" and "int (length s) \<le> SAFE_COMPONENT_LIMIT"
  shows "valid_component s"
proof -
  let ?n = "length s"
  have parts: "74 \<le> ?n" "list_all (\<lambda>c. is_lower_alnum c \<or> c = CHR ''-'') (take (?n - 73) s)"
    "take 9 (drop (?n - 73) s) = ''--sha256-''" "is_sha256_hex (drop (?n - 64) s)"
    using assms(1) by (simp_all add: is_state_key_def Let_def)
  have split: "s = take (?n - 73) s @ take 9 (drop (?n - 73) s) @ drop (?n - 64) s"
    using parts(1) append_take_drop_id [of "?n - 73" s] append_take_drop_id [of 9 "drop (?n - 73) s"] by (simp add: drop_drop)
  have "set s = set a \<union> set b \<union> set d" if "s = a @ b @ d" for a b d using that by auto
  from this [OF split] have "set s = set (take (?n - 73) s) \<union> set ''--sha256-'' \<union> set (drop (?n - 64) s)"
    unfolding parts(3) .
  moreover have "is_lower_alnum c" if "is_lower_hex c" for c
    using that by (auto simp: is_lower_hex_def is_lower_alnum_def code_def Let_def)
  ultimately have "c \<in> set (take (?n - 73) s) \<or> c \<in> set ''--sha256-'' \<or> is_lower_alnum c" if "c \<in> set s" for c
    using that parts(4) unfolding list_all_iff is_sha256_hex_def hex_text_def by blast
  moreover have "is_lower_alnum c \<or> c = CHR ''-''" if "c \<in> set ''--sha256-''" for c
    using that by (auto simp: is_lower_alnum_def code_def)
  ultimately have chars: "is_lower_alnum c \<or> c = CHR ''-''" if "c \<in> set s" for c
    using that parts(2) unfolding list_all_iff by blast
  have "s \<noteq> []" using parts(1) by auto
  then have ends: "hd s \<in> set s" "last s \<in> set s" by simp_all
  show ?thesis
  proof (rule valid_componentI [OF \<open>s \<noteq> []\<close> _ assms(2)])
    show "clean is_space s" using key_char(1) [OF chars] ends unfolding clean_def by blast
    show "s \<notin> {''.'', ''..''}" using parts(1) by auto
    show "last s \<notin> {CHR ''.'', CHR '' ''}" by (rule key_char(4) [OF chars [OF ends(2)]])
    show "set s \<inter> (set ''<>:/|?*'' \<union> {CHR 0x22, CHR 0x5C, CHR 0x00}) = {}" using key_char(3) [OF chars] by blast
    show "\<forall>c\<in>set s. 32 \<le> code c" using key_char(2) [OF chars] by blast
  qed
qed

lemma forward_receipt:
  assumes x: "installable x" and s: "forward x J ph s"
  shows "completes (\<lambda>_. True) (write_receipt (receipt_payload (owner x ph) (tx_digest x (tx_bytes x))))
    (\<lambda>_ u. forward x J ph u \<and> state_file u = state_file s \<and> receipt_file (state_key (start x)) u = Some (receipt_of x)) s"
proof -
  have payload: "receipt_payload (owner x ph) d = receipt_payload (start x) d" for d
    by (simp add: receipt_payload_def) (simp add: at_def start_def prepared_journal_def)
  have key: "dget (items (receipt_payload (start x) d)) ''state_key'' = PStr (state_key (start x))" for d
    by (simp add: receipt_payload_def dget_def)
  have "name_conditions (start x)" using x journal_valid_parts by (simp add: installable_def)
  then have "valid_component (state_key (start x))" by (simp add: name_conditions_def state_key_component)
  moreover note documents_small(2) [OF x]
  moreover have "receipt_bytes (receipt_payload (start x) (tx_digest x (tx_bytes x))) = receipt_of x"
    by (simp add: receipt_of_def)
  ultimately show ?thesis
    using s by (simp add: write_receipt_def payload key plain_file_bytes_or_none_def receipt_file_def forward_def
        has_target_def switched_def count_creation_def small_def)
qed

lemma forward_cleanup:
  assumes x: "installable x" and s: "forward x J ph s"
    and ph: "ph \<in> {RUNTIME_VERIFIED, INI_COMMITTED, STATE_COMMITTED, FINALIZED}" and I: "I s"
  shows "completes I (cleanup_old_revision (tx_host x) (owner x ph)) (\<lambda>_ u. u = s) s"
proof (cases "selected_config_dir (tx_ini x)")
  case (Some old)
  let ?j = "owner x ph"
  have same: "casefold (tx_dir x) \<noteq> casefold old"
    using not_selected [OF x] Some by (auto simp: same_config_dir_def)
  then have "\<not> owner_of old ?j"
    by (simp add: owner_of_def config_path_def casefold_def)
  moreover have "load_journals s = ([s], Inr [?j], s)"
    using load_settled [OF roots(1) [OF x], of s "Some ?j" J] s journals_ok(3) [OF x, of ph] ph by (simp add: forward_def)
  moreover have "ini_file s = Some (tx_bytes x)" "\<not> ini_linked s" using s by (simp_all add: forward_def switched_def)
  ultimately show ?thesis
    using same by (simp add: cleanup_old_revision_def Some new_ini(2) [OF x] same_config_dir_def) (simp add: completes_def I)
qed (simp add: cleanup_old_revision_def)

lemma forward_phase:
  assumes x: "installable x" and s: "forward x J ph s"
    and ph: "ph' \<in> {RUNTIME_VERIFIED, INI_COMMITTED, STATE_COMMITTED, FINALIZED}" and "R (state_file s) (receipts s)"
  shows "completes (\<lambda>_. True) (advance (tx_host x) (owner x ph'))
    (\<lambda>j u. j = owner x ph' \<and> forward x J ph' u \<and> R (state_file u) (receipts u)) s"
  using forward_advance [OF x s ph] by (rule total_mono) (use assms(4) in auto)

lemma forward_readings:
  assumes x: "installable x" and s: "forward x J ph s"
  obtains tr where "map_of (nodes s) (place x) = Some (Directory tr)" and "map_of (nodes s) (candidate x) = None"
    and "tree_identity tr = ident x"
    and "\<And>Q. completes (\<lambda>_. True) (verify_runtime_tree_digest (tx_host x) (place x) (plan_package_root_sha256 (tx_plan x))) Q s
      \<longleftrightarrow> Q () s"
  using target_lookup [OF x, of s] s by (metis forward_def)

lemma forward_receipt_step:
  assumes x: "installable x" and s: "forward x J ph s"
  shows "completes (\<lambda>_. True)
    (pbind (plain_file_bytes_or_none (receipt_file (state_key (start x)))) (\<lambda>receipt.
     if receipt \<noteq> Some (receipt_bytes (receipt_payload (owner x ph) (tx_digest x (tx_bytes x))))
     then pbind (write_receipt (receipt_payload (owner x ph) (tx_digest x (tx_bytes x)))) (\<lambda>_. preturn True)
     else preturn False))
    (\<lambda>_ u. forward x J ph u \<and> state_file u = state_file s \<and> receipt_file (state_key (start x)) u = Some (receipt_of x)) s"
proof -
  have "small (receipt_file (state_key (start x)) s)" using s by (simp add: forward_def switched_def)
  moreover have payload: "receipt_payload (owner x ph) d = receipt_payload (start x) d" for d
    by (simp add: receipt_payload_def) (simp add: at_def start_def prepared_journal_def)
  ultimately show ?thesis
    using s forward_receipt [OF x s]
    by (auto simp: plain_file_bytes_or_none_def small_def receipt_of_def payload split: option.splits)
qed

end
