(* ===== verification/RuntimeResume.thy ===== *)
theory RuntimeResume
  imports RuntimeCrash
begin

text \<open>
  The recovery of a killed first installation: it completes the transaction when the INI selects the
  new directory, and from every interrupted state but one it ends with the old root or with the
  complete installation.
\<close>

section \<open>A transaction whose INI is switched\<close>

lemma roll_forward_selected:
  assumes x: "installable x" and s: "forward x J ph s"
    and ph: "ph \<in> {RUNTIME_VERIFIED, INI_COMMITTED, STATE_COMMITTED, FINALIZED}"
    and ini: "deck_config_snapshot.sha256 ini = Some (tx_digest x (tx_bytes x))"
  shows "completes (\<lambda>_. True) (recover_selected (tx_host x) (owner x ph) ini None (Some (ident x)))
    (\<lambda>_ u. forward x J FINALIZED u \<and> state_file u = Some (state_bytes x)
      \<and> receipt_file (state_key (start x)) u = Some (receipt_of x)) s"
proof -
  have state: "completes (\<lambda>_. True) read_state (\<lambda>_ u'. u' = u) u" if "forward x J ph' u" for ph' u
    using that new_state_read(1) [OF x] by (auto simp: read_state_def forward_def switched_def)
  obtain tr where look: "completes (\<lambda>_. True)
      (verify_runtime_tree_digest (tx_host x) (place x) (plan_package_root_sha256 (tx_plan x))) Q s \<longleftrightarrow> Q () s" for Q
    using forward_readings [OF x s] by metis
  define ph1 where "ph1 = (if ph \<in> {PREPARED, RUNTIME_STAGED, RUNTIME_VERIFIED} then INI_COMMITTED else ph)"
  define ph2 where "ph2 = (if ph1 = INI_COMMITTED then STATE_COMMITTED else ph1)"
  have phases: "ph1 \<in> {INI_COMMITTED, STATE_COMMITTED, FINALIZED}" "ph2 \<in> {STATE_COMMITTED, FINALIZED}"
    using ph by (auto simp: ph1_def ph2_def)
  have step2: "completes (\<lambda>_. True) (if phase (owner x ph1) = INI_COMMITTED
      then pbind (advance (tx_host x) ((owner x ph1)\<lparr>phase := STATE_COMMITTED\<rparr>)) (\<lambda>j. preturn (j, True))
      else preturn (owner x ph1, False))
    (\<lambda>r u. fst r = owner x ph2 \<and> forward x J ph2 u \<and> state_file u = Some (state_bytes x)) v"
    if "forward x J ph1 v \<and> state_file v = Some (state_bytes x)" for v
    using phases that forward_phase [OF x, of J ph1 v STATE_COMMITTED "\<lambda>f _. f = Some (state_bytes x)"]
    by (auto simp: ph2_def)
  have step3: "completes (\<lambda>_. True) (if phase (owner x ph2) = STATE_COMMITTED
      then pbind (advance (tx_host x) ((owner x ph2)\<lparr>phase := FINALIZED\<rparr>)) (\<lambda>j. preturn (j, True))
      else preturn (owner x ph2, False))
    (\<lambda>r u. fst r = owner x FINALIZED \<and> (forward x J FINALIZED u \<and> state_file u = Some (state_bytes x)
      \<and> receipt_file (state_key (start x)) u = Some (receipt_of x))) v"
    if "forward x J ph2 v \<and> state_file v = Some (state_bytes x) \<and> receipt_file (state_key (start x)) v = Some (receipt_of x)" for v
    using phases that forward_phase [OF x, of J ph2 v FINALIZED "\<lambda>f r. f = Some (state_bytes x)
      \<and> (case map_of r (state_key (start x)) of None \<Rightarrow> None | Some r \<Rightarrow> r) = Some (receipt_of x)"]
    by (auto simp: receipt_file_def)
  have receipt: "completes (\<lambda>_. True)
    (pbind (plain_file_bytes_or_none (receipt_file (state_key (start x)))) (\<lambda>receipt.
     pbind (if receipt \<noteq> Some (receipt_bytes (receipt_payload (owner x ph2) (tx_digest x (tx_bytes x))))
       then pbind (write_receipt (receipt_payload (owner x ph2) (tx_digest x (tx_bytes x)))) (\<lambda>_. preturn True)
       else preturn False) k)) Q v"
    if "forward x J ph2 v \<and> state_file v = Some (state_bytes x)"
      and "\<And>r u. forward x J ph2 u \<and> state_file u = Some (state_bytes x)
        \<and> receipt_file (state_key (start x)) u = Some (receipt_of x) \<Longrightarrow> completes (\<lambda>_. True) (k r) Q u" for k :: "bool \<Rightarrow> bool effect" and Q v
    using that forward_receipt_step [OF x, of J ph2 v] total_mono by (auto elim!: total_mono split: if_splits)
  show ?thesis
    unfolding recover_selected_def case_prod_unfold Let_def
    apply (subst if_not_P, simp add: ini)
    apply (rule total_seq [where R = "\<lambda>_ u. u = s"], simp add: look)
    apply (erule ssubst)
    apply (rule total_seq [where R = "\<lambda>r u. fst r = owner x ph1 \<and> forward x J ph1 u"])
    subgoal using ph s forward_phase [OF x s, of INI_COMMITTED "\<lambda>_ _. True"] by (auto simp: ph1_def)
    apply (elim conjE, simp only: option.case)
    apply (rule total_seq [where R = "\<lambda>_. forward x J ph1"], simp only: total_basic)
    apply (rule total_seq [OF state], assumption, erule ssubst)
    apply (simp only: ini)
    apply (rule total_seq [OF forward_state [OF x]], assumption, elim conjE)
    apply (rule total_seq [OF step2], rule conjI, assumption, assumption, elim conjE)
    apply (simp only: at_fields)
    apply (rule receipt, rule conjI, assumption, assumption)
    apply (rule total_seq [OF step3 [unfolded at_fields]], assumption, elim conjE, simp only:)
    apply (rule total_seq [OF forward_cleanup [OF x]], assumption, simp, rule TrueI, erule ssubst)
    apply simp
    done
qed

definition resumed :: "transaction \<Rightarrow> directory \<Rightarrow> runtime \<Rightarrow> bool" where
  "resumed x J u = (forward x J FINALIZED u \<and> state_file u = Some (state_bytes x)
     \<and> receipt_file (state_key (start x)) u = Some (receipt_of x))"

lemma roll_forward:
  assumes x: "installable x" and s: "forward x J ph s"
    and ph: "ph \<in> {RUNTIME_VERIFIED, INI_COMMITTED, STATE_COMMITTED, FINALIZED}"
  shows "completes (\<lambda>_. True) (recover_journal (tx_host x) (owner x ph)) (\<lambda>_. resumed x J) s"
proof -
  obtain tr where look: "map_of (nodes s) (place x) = Some (Directory tr)" "map_of (nodes s) (candidate x) = None"
    "tree_identity tr = ident x" using forward_readings [OF x s] by metis
  have "ini_file s = Some (tx_bytes x)" "\<not> ini_linked s" using s by (simp_all add: forward_def switched_def)
  then obtain ini where ini: "selected_config_dir ini = Some (tx_dir x)"
    "deck_config_snapshot.sha256 ini = Some (tx_digest x (tx_bytes x))"
    and read: "\<And>Q. completes (\<lambda>_. True) (read_actual_ini (tx_host x) (plan_deck_name (tx_plan x))) Q s \<longleftrightarrow> Q ini s"
    using new_ini(1) [OF x] by metis
  show ?thesis
    using roll_forward_selected [OF x s ph ini(2)]
    by (simp add: recover_journal_def path_lexists_def directory_identity_or_none_def plain_directory_identity_def
        dhas_def look read ini(1) same_config_dir_def resumed_def)
qed

lemma resumed_completed:
  assumes x: "installable x" and u: "resumed x J u"
  shows "completed x u"
proof -
  from u have f: "has_target x u" "ini_file u = Some (tx_bytes x)" "\<not> ini_linked u" "journal_files u = disk (tx_id x) (Some (owner x FINALIZED)) J"
    "junk (tx_id x) J" "state_file u = Some (state_bytes x)"
    "receipt_file (state_key (start x)) u = Some (receipt_of x)"
    unfolding resumed_def forward_def switched_def by blast+
  have "loads (tx_id x) u (Some (owner x FINALIZED))"
    by (rule loads_disk [OF roots(1) [OF x] f(4,5)]) (use journals_ok(3) [OF x, of FINALIZED] in simp)
  with f show ?thesis unfolding completed_def by blast
qed

lemma resumed_targets:
  assumes x: "installable x" and u: "resumed x J u"
  shows "completes (\<lambda>_. True) (verify_active_state_targets (tx_host x) (Some (new_state x))) (\<lambda>_ v. v = u) u"
proof -
  have s: "forward x J FINALIZED u" using u by (simp add: resumed_def)
  then have "ini_file u = Some (tx_bytes x)" "\<not> ini_linked u" by (simp_all add: forward_def switched_def)
  note active = new_ini(2) [OF x this]
  obtain tr where look: "completes (\<lambda>_. True)
      (verify_runtime_tree_digest (tx_host x) (place x) (plan_package_root_sha256 (tx_plan x))) Q u \<longleftrightarrow> Q () u" for Q
    using forward_readings [OF x s] by metis
  show ?thesis
    using look [of "\<lambda>_ v. v = u"]
    by (simp add: verify_active_state_targets_def active new_state_def pfor_def config_path_def split: option.split)
qed

lemma ownership_ok:
  assumes "staging_names s = [] \<or> staging_names s = [transaction_id j] \<and> candidate_path j = staging_path (transaction_id j)
    \<and> (\<exists>t. map_of (nodes s) (candidate_path j) = Some (Directory t) \<and> candidate_identity j = Some (tree_identity t))"
  shows "completes (\<lambda>_. True) (validate_recovery_ownership [j]) Q s \<longleftrightarrow> Q () s"
  using assms by (auto simp: validate_recovery_ownership_def staging_entry_owned_def staging_path_def)

lemma recover_one:
  assumes x: "installable x" and u: "loads (tx_id x) u (Some j)"
    and names: "\<And>s. rest s = rest u \<Longrightarrow> staging_names s = [] \<or> staging_names s = [transaction_id j]
      \<and> candidate_path j = staging_path (transaction_id j)
      \<and> (\<exists>t. map_of (nodes s) (candidate_path j) = Some (Directory t) \<and> candidate_identity j = Some (tree_identity t))"
    and run: "\<And>s J. rest s = rest u \<Longrightarrow> journal_files s = disk (tx_id x) (Some j) J \<Longrightarrow>
      junk (tx_id x) J \<Longrightarrow>
      completes (\<lambda>_. True) (recover_journal (tx_host x) j) (\<lambda>_ v. rolled_back x v \<or> (\<exists>J. resumed x J v)) s"
  shows "completes (\<lambda>_. True) (recover_locked (tx_host x)) (\<lambda>_ v. rolled_back x v \<or> completed x v) u"
proof (rule total_recover [OF u], goal_cases)
  case (1 s J)
  have tail: "completes (\<lambda>_. True) read_state (\<lambda>st v'. completes (\<lambda>_. True) (verify_active_state_targets (tx_host x) st)
      (\<lambda>_ v. rolled_back x v \<or> completed x v) v') v" if "rolled_back x v \<or> (\<exists>J. resumed x J v)" for v
    using that
  proof
    assume "rolled_back x v"
    then show ?thesis by (simp add: read_state_def rolled_back_def untouched_def verify_active_state_targets_def)
  next
    assume "\<exists>J. resumed x J v"
    then obtain J where v: "resumed x J v" by blast
    then have "state_file v = Some (state_bytes x)" by (simp add: resumed_def)
    moreover have "completes (\<lambda>_. True) (verify_active_state_targets (tx_host x) (Some (new_state x)))
        (\<lambda>_ v. rolled_back x v \<or> completed x v) v"
      using resumed_targets [OF x v] by (rule total_mono) (use resumed_completed [OF x v] in simp)
    ultimately show ?thesis by (simp add: read_state_def new_state_read(1) [OF x])
  qed
  show ?case
    using ownership_ok [OF names [OF 1(1)]] total_mono [OF run [OF 1] tail] by simp
qed

section \<open>Every interrupted state\<close>

lemma rest_fields:
  assumes "rest s = rest u"
  shows "nodes s = nodes u" "untouched x s = untouched x u" "switched x s = switched x u"
      "has_candidate x s = has_candidate x u" "has_target x s = has_target x u" "two_names x s = two_names x u"
  using assms by (auto simp: two_names_def rest_def untouched_def switched_def has_candidate_def has_target_def receipt_file_def)

lemma interrupted_recovers:
  assumes x: "installable x" and "interrupted x u" and "\<not> unrecorded x u" and "\<not> two_names x u"
  shows "completes (\<lambda>_. True) (recover_locked (tx_host x)) (\<lambda>_ v. rolled_back x v \<or> completed x v) u"
proof -
  obtain oj where loads: "loads (tx_id x) u oj" and shape: "shape x oj u"
    using assms(2) by (auto simp: interrupted_def)
  show ?thesis
  proof (cases oj)
    case None
    with recover_nothing [OF x, of u] loads shape
    have "completes (\<lambda>_. True) (recover_locked (tx_host x)) (\<lambda>_. rolled_back x) u" by simp
    then show ?thesis by (rule total_mono) simp
  next
    case (Some j)
    note loads' = loads [unfolded Some]
    note names = staging_names_snoc [OF roots(5) [OF x]]
    consider (prepared) "j = at x None None False PREPARED" "untouched x u" "nodes u = nodes (tx_root x)"
      | (gap) "j = at x None None False PREPARED" "has_candidate x u"
      | (candidate) ph where "ph \<in> {PREPARED, RUNTIME_STAGED, RUNTIME_VERIFIED}"
          "j = at x (Some (ident x)) None False ph" "untouched x u" "has_candidate x u"
      | (target) "j = at x (Some (ident x)) None False RUNTIME_VERIFIED \<or> j = owner x RUNTIME_VERIFIED"
          "untouched x u" "has_target x u"
      | (new) ph where "ph \<in> {RUNTIME_VERIFIED, INI_COMMITTED, STATE_COMMITTED, FINALIZED}" "j = owner x ph"
          "switched x u" "has_target x u"
      using shape assms(4) unfolding shape_def Some option.case by blast
    then show ?thesis
    proof cases
      case prepared
      show ?thesis
      proof (rule recover_one [OF x loads'])
        fix s assume s: "rest s = rest u"
        show "staging_names s = [] \<or> staging_names s = [transaction_id j] \<and> candidate_path j = staging_path (transaction_id j)
            \<and> (\<exists>t. map_of (nodes s) (candidate_path j) = Some (Directory t) \<and> candidate_identity j = Some (tree_identity t))"
          using names(1) rest_fields(1) [OF s] prepared(3) by simp
        fix J assume J: "journal_files s = disk (tx_id x) (Some j) J" "junk (tx_id x) J"
        show "completes (\<lambda>_. True) (recover_journal (tx_host x) j) (\<lambda>_ v. rolled_back x v \<or> (\<exists>J. resumed x J v)) s"
          using roll_back_prepared [OF x _ _ J [unfolded prepared(1)]] rest_fields(1) [OF s] rest_fields(2-5) [OF s, of x] prepared
          by (auto elim: total_mono)
      qed
    next
      case gap
      from gap(2) have "map_of (nodes u) (candidate x) \<noteq> None"
        using candidate_lookup [OF x gap(2)] by (metis option.distinct(1))
      with assms(3) loads' gap(1) show ?thesis by (simp add: unrecorded_def)
    next
      case (candidate ph)
      show ?thesis
      proof (rule recover_one [OF x loads'])
        fix s assume s: "rest s = rest u"
        have here: "has_candidate x s" "untouched x s" using rest_fields(1) [OF s] rest_fields(2-5) [OF s, of x] candidate by simp_all
        obtain tr where "nodes s = nodes (tx_root x) @ [(candidate x, Directory tr)]" using here(1) by (auto simp: has_candidate_def)
        from names(2) [OF this] have "staging_names s = [tx_id x]" .
        moreover obtain tr where "map_of (nodes s) (candidate x) = Some (Directory tr)" "tree_identity tr = ident x"
          using candidate_lookup [OF x here(1)] by metis
        ultimately show "staging_names s = [] \<or> staging_names s = [transaction_id j] \<and> candidate_path j = staging_path (transaction_id j)
            \<and> (\<exists>t. map_of (nodes s) (candidate_path j) = Some (Directory t) \<and> candidate_identity j = Some (tree_identity t))"
          by (simp add: candidate(2))
        fix J assume J: "journal_files s = disk (tx_id x) (Some j) J" "junk (tx_id x) J"
        show "completes (\<lambda>_. True) (recover_journal (tx_host x) j) (\<lambda>_ v. rolled_back x v \<or> (\<exists>J. resumed x J v)) s"
          using roll_back_candidate [OF x here candidate(2,1) J] by (auto elim: total_mono)
      qed
    next
      case target
      show ?thesis
      proof (rule recover_one [OF x loads'])
        fix s assume s: "rest s = rest u"
        have here: "has_target x s" "untouched x s" using rest_fields(1) [OF s] rest_fields(2-5) [OF s, of x] target by simp_all
        then show "staging_names s = [] \<or> staging_names s = [transaction_id j] \<and> candidate_path j = staging_path (transaction_id j)
            \<and> (\<exists>t. map_of (nodes s) (candidate_path j) = Some (Directory t) \<and> candidate_identity j = Some (tree_identity t))"
          using names(3) by (auto simp: has_target_def)
        fix J assume J: "journal_files s = disk (tx_id x) (Some j) J" "junk (tx_id x) J"
        show "completes (\<lambda>_. True) (recover_journal (tx_host x) j) (\<lambda>_ v. rolled_back x v \<or> (\<exists>J. resumed x J v)) s"
          using roll_back_target [OF x here J target(1)] by (auto elim: total_mono)
      qed
    next
      case (new ph)
      show ?thesis
      proof (rule recover_one [OF x loads'])
        fix s assume s: "rest s = rest u"
        have here: "has_target x s" "switched x s" using rest_fields(1) [OF s] rest_fields(2-5) [OF s, of x] new by simp_all
        then show "staging_names s = [] \<or> staging_names s = [transaction_id j] \<and> candidate_path j = staging_path (transaction_id j)
            \<and> (\<exists>t. map_of (nodes s) (candidate_path j) = Some (Directory t) \<and> candidate_identity j = Some (tree_identity t))"
          using names(3) by (auto simp: has_target_def)
        fix J assume J: "journal_files s = disk (tx_id x) (Some j) J" "junk (tx_id x) J"
        have "forward x J ph s" using here J by (simp add: forward_def new(2))
        from roll_forward [OF x this new(1)]
        show "completes (\<lambda>_. True) (recover_journal (tx_host x) j) (\<lambda>_ v. rolled_back x v \<or> (\<exists>J. resumed x J v)) s"
          unfolding new(2) by (rule total_mono) blast
      qed
    qed
  qed
qed

section \<open>A new INI with two names\<close>

lemma linked_ini_refused:
  assumes x: "installable x" and u: "loads (tx_id x) u (Some (owner x RUNTIME_VERIFIED))" and t: "has_target x u"
    and linked: "two_names x u"
  shows "wp (\<lambda>_. True) (recover_locked (tx_host x)) (\<lambda>_ _. False) u"
proof -
  let ?j = "owner x RUNTIME_VERIFIED"
  have refused: "wp (\<lambda>_. True) (recover_journal (tx_host x) ?j) (\<lambda>_ _. False) s" if s: "rest s = rest u" for s
  proof -
    have "has_target x s" "ini_linked s" using t linked s by (simp_all add: rest_fields(5) [OF s] rest_def two_names_def)
    moreover from this(1) obtain tr where "map_of (nodes s) (place x) = Some (Directory tr)" "map_of (nodes s) (candidate x) = None"
      "tree_identity tr = ident x" using target_lookup [OF x] by metis
    ultimately show ?thesis
      by (simp add: recover_journal_def path_lexists_def directory_identity_or_none_def plain_directory_identity_def
          plain_directory_def dhas_def read_actual_ini_def rbind_def split: sum.split)
  qed
  have names: "staging_names s = []" if "rest s = rest u" for s
    using staging_names_snoc(3) [OF roots(5) [OF x]] t rest_fields(1) [OF that] by (auto simp: has_target_def)
  show ?thesis
    unfolding recover_locked_def
  proof (rule wp_seq [OF total_wp [OF total_load [OF u TrueI]]], elim conjE exE, hypsubst)
    fix s J assume s: "rest s = rest u"
    have "completes (\<lambda>_. True) (validate_recovery_ownership [?j]) (\<lambda>_ v. v = s) s"
      using ownership_ok [of s ?j "\<lambda>_ v. v = s"] names [OF s] by simp
    from total_wp [OF this] refused [OF s]
    show "wp (\<lambda>_. True) (pbind (validate_recovery_ownership (listed (Some ?j))) (\<lambda>_.
       pbind (pfold (\<lambda>j repaired. pbind (recover_journal (tx_host x) j) (\<lambda>r. preturn (repaired \<or> r))) (listed (Some ?j)) False) (\<lambda>repaired.
       pbind read_state (\<lambda>state.
       pbind (verify_active_state_targets (tx_host x) state) (\<lambda>_.
       preturn (state, repaired)))))) (\<lambda>_ _. False) s"
      by (auto elim!: wp_mono)
  qed
qed

end
