(* ===== verification/RuntimeInterrupt.thy ===== *)
theory RuntimeInterrupt
  imports RuntimeResume
begin

text \<open>
  Where the first installation of a package can be killed: every crash point of the transaction is
  one of the interrupted states. With the recovery of these states this gives the theorems on a
  killed installation.
\<close>

lemma dput_snoc: "map_of d k = None \<Longrightarrow> dput k v (d @ [(k, v')]) = d @ [(k, v)]"
  by (induction d) (auto split: if_splits)

section \<open>Points of the installation\<close>

definition point :: "transaction \<Rightarrow> runtime_journal \<Rightarrow> runtime \<Rightarrow> bool" where
  \<comment> \<open>the journal is written and nothing else has happened\<close>
  "point x j s = (journal_files s = disk (tx_id x) (Some j) [] \<and> journal_ok (tx_id x) j \<and> shape x (Some j) s)"

lemma shape_rest: "rest s = rest u \<Longrightarrow> shape x oj s = shape x oj u"
proof -
  assume r: "rest s = rest u"
  show "shape x oj s = shape x oj u"
    unfolding shape_def rest_fields(1,6) [OF r] rest_fields(2-5) [OF r, of x] by (rule refl)
qed

lemma interruptedI:
  assumes "installable x" and "journal_files s = disk (tx_id x) oj []" and "shape x oj s"
    and "\<And>j. oj = Some j \<Longrightarrow> journal_ok (tx_id x) j"
  shows "interrupted x s"
  unfolding interrupted_def using assms(3) loads_disk [OF roots(1) [OF assms(1)] assms(2) _ assms(4)]
  by (auto simp: junk_def)

lemma point_interrupted: "installable x \<Longrightarrow> point x j s \<Longrightarrow> interrupted x s"
  by (rule interruptedI [of x s "Some j"]) (simp_all add: point_def)

lemma wp_point:
  assumes x: "installable x" and files: "journal_files s = disk (tx_id x) oj []" and old: "shape x oj s" "follows (tx_id x) oj j"
    and j: "journal_ok (tx_id x) j" "shape x (Some j) s"
  shows "wp (interrupted x) (write_journal (tx_host x) j)
    (\<lambda>_ u. point x j u \<and> rest u = rest s \<and> created u = Suc (created s)) s"
proof (rule wp_write [OF roots(1,2) [OF x] files j(1) old(2)])
  fix u assume u: "rest u = rest s"
  show "interrupted x u" if "loads (tx_id x) u oj"
    using that old(1) shape_rest [OF u] by (auto simp: interrupted_def)
  show "interrupted x u" if "loads (tx_id x) u (Some j)"
    using that j(2) shape_rest [OF u] by (auto simp: interrupted_def)
  show "point x j u \<and> rest u = rest s \<and> created u = Suc (created s)"
    if "journal_files u = disk (tx_id x) (Some j) []" "created u = Suc (created s)"
    using that j u shape_rest [OF u] by (simp add: point_def)
qed

lemma wp_advance_point:
  assumes x: "installable x" and s: "point x j s" and k: "journal_ok (tx_id x) k" "shape x (Some k) s"
    and step: "is_monotonic_successor j k" "j \<noteq> k"
  shows "wp (interrupted x) (advance (tx_host x) k) (\<lambda>k' u. k' = k \<and> point x k u \<and> rest u = rest s) s"
proof -
  have "follows (tx_id x) (Some j) k" using s step by (simp add: follows_def point_def)
  with s have "wp (interrupted x) (write_journal (tx_host x) k)
      (\<lambda>_ u. point x k u \<and> rest u = rest s \<and> created u = Suc (created s)) s"
    by (intro wp_point [OF x _ _ _ k]) (simp_all add: point_def)
  then show ?thesis
    unfolding advance_def replaced_def wp_bind wp_basic journal_ok_replaced [OF k(1)] sum.case
    by (rule wp_mono) simp
qed

lemma at_successor:
  "is_monotonic_successor (at x c i ow ph) (at x c' i' ow' ph') \<longleftrightarrow>
    phase_order ph \<le> phase_order ph' \<and> c \<in> {None, c'} \<and> i \<in> {None, i'} \<and> (ow \<longrightarrow> ow')"
proof -
  have "immutable_fields_equal (at x c i ow ph) (at x c' i' ow' ph')"
    by (simp add: immutable_fields_equal_def at_def)
  then show ?thesis by (cases c rule: option.exhaust; cases i rule: option.exhaust; simp add: is_monotonic_successor_def not_less; blast?)
qed

section \<open>Staging\<close>

lemma no_root_dir:
  assumes "installable x"
  shows "[] \<notin> set (package_dirs (tx_spec x))"
proof
  assume "[] \<in> set (package_dirs (tx_spec x))"
  moreover have "within_bounds (package_tree (tx_spec x) (tx_source x))" using assms by (simp add: installable_def)
  ultimately have "canonical_relative_path (PStr []) = Inr []"
    by (force simp: within_bounds_def package_tree_def Let_def list_all_iff)
  then show False by (simp add: canonical_relative_path_def relative_path_refused_def)
qed

definition staging :: "transaction \<Rightarrow> runtime_journal \<Rightarrow> runtime \<Rightarrow> bool" where
  "staging x j s = (point x j s \<and> untouched x s \<and> has_candidate x s
     \<and> (\<exists>ph. ph \<in> {PREPARED, RUNTIME_STAGED, RUNTIME_VERIFIED} \<and> j = at x (Some (ident x)) None False ph))"

lemma staging_change:
  assumes x: "installable x" and s: "staging x j s"
    and f: "\<And>tr. part_of (tx_spec x) (tx_source x) tr \<Longrightarrow> part_of (tx_spec x) (tx_source x) (f tr) \<and> tree_identity (f tr) = tree_identity tr"
  shows "staging x j (change_tree (candidate x) f s)" and "staging x j (count_creation (change_tree (candidate x) f s))"
proof -
  obtain tr where tr: "nodes s = nodes (tx_root x) @ [(candidate x, Directory tr)]" "tree_identity tr = ident x"
    "part_of (tx_spec x) (tx_source x) tr" using s by (auto simp: staging_def has_candidate_def)
  have none: "map_of (nodes (tx_root x)) (candidate x) = None" by (rule roots [OF x])
  have change: "change_tree (candidate x) f s = s\<lparr>nodes := nodes (tx_root x) @ [(candidate x, Directory (f tr))]\<rparr>"
    using none by (simp add: change_tree_def tr(1) put_node_def map_of_snoc dput_snoc del: map_of_append)
  have "has_candidate x (change_tree (candidate x) f s)"
    using f [OF tr(3)] tr(2) by (simp add: has_candidate_def change)
  then show "staging x j (change_tree (candidate x) f s)" "staging x j (count_creation (change_tree (candidate x) f s))"
    using s by (auto simp: staging_def point_def shape_def change count_creation_def untouched_def has_candidate_def)
qed

lemma staging_interrupted: "installable x \<Longrightarrow> staging x j s \<Longrightarrow> interrupted x s"
  using point_interrupted by (auto simp: staging_def)

lemma part_of_dir:
  assumes "installable x" and "name \<in> set (package_dirs (tx_spec x))" and "part_of (tx_spec x) (tx_source x) tr"
  shows "part_of (tx_spec x) (tx_source x) (tr\<lparr>tree_directories := dput name i (tree_directories tr)\<rparr>)"
proof -
  have "name \<noteq> []" using no_root_dir [OF assms(1)] assms(2) by auto
  with assms(2,3) show ?thesis by (auto simp: part_of_def tree_ok_def keys_dput)
qed

lemma part_of_file:
  assumes "(name, c) \<in> set (package_files (tx_spec x) (tx_source x))" and "d \<in> {c, []}"
    and "part_of (tx_spec x) (tx_source x) tr"
  shows "part_of (tx_spec x) (tx_source x)
    (tr\<lparr>tree_files := dput name \<lparr>node_content = d, node_identity = i\<rparr> (tree_files tr)\<rparr>)"
proof -
  have "(n, f) \<in> set (tree_files tr) \<or> (n, f) = (name, \<lparr>node_content = d, node_identity = i\<rparr>)"
    if "(n, f) \<in> set (dput name \<lparr>node_content = d, node_identity = i\<rparr> (tree_files tr))" for n f
    using that set_dput by fastforce
  then show ?thesis using assms unfolding part_of_def tree_ok_def by fastforce
qed

lemma wp_ensure_directory:
  assumes x: "installable x" and "name \<in> set (package_dirs (tx_spec x))" and s: "staging x j s"
  shows "wp (interrupted x) (ensure_tree_directory (tx_host x) (candidate x) name) (\<lambda>_. staging x j) s"
proof -
  have "staging x j (count_creation (change_tree (candidate x)
      (\<lambda>t. t\<lparr>tree_directories := dput name (new_identity (tx_host x) (created s)) (tree_directories t)\<rparr>) s))"
    using staging_change(2) [OF x s] part_of_dir [OF x assms(2)] by simp
  then show ?thesis
    using s staging_interrupted [OF x]
    by (auto simp: ensure_tree_directory_def plain_directory_def split: option.splits node.splits)
qed

lemma wp_copy_file:
  assumes x: "installable x" and f: "f \<in> set (spec_files (tx_spec x))" and s: "staging x j s"
  shows "wp (interrupted x) (copy_file (tx_host x) (tx_source x) (candidate x) f) (\<lambda>_. staging x j) s"
proof (cases "read_source (tx_source x) (rf_source_path f)")
  case (Inl e)
  then show ?thesis using s staging_interrupted [OF x] by (simp add: copy_file_def)
next
  case (Inr content)
  then have c: "(rf_relative_path f, content) \<in> set (package_files (tx_spec x) (tx_source x))"
    using f by (force simp: package_files_def)
  let ?put = "\<lambda>d t. t\<lparr>tree_files := dput (rf_relative_path f)
    \<lparr>node_content = d, node_identity = new_identity (tx_host x) (created s)\<rparr> (tree_files t)\<rparr>"
  let ?u = "count_creation (change_tree (candidate x) (?put []) s)"
  have u: "staging x j ?u" using staging_change(2) [OF x s] part_of_file [OF c] by simp
  have v: "staging x j (change_tree (candidate x) (?put content) ?u)"
    using staging_change(1) [OF x u] part_of_file [OF c] by simp
  show ?thesis
    using s u v staging_interrupted [OF x]
    by (auto simp: copy_file_def Inr plain_directory_def split: option.splits node.splits)
qed


lemma wp_copy:
  assumes x: "installable x" and s: "staging x j s"
  shows "wp (interrupted x) (copy_runtime_files (tx_host x) (candidate x) (tx_spec x) (tx_source x)) (\<lambda>_. staging x j) s"
  unfolding copy_runtime_files_def Let_def
proof (rule wp_seq)
  show "wp (interrupted x) (pfor (sort_key (\<lambda>v. (slashes v, v)) (parent_directories (map rf_relative_path (spec_files (tx_spec x)))))
      (ensure_tree_directory (tx_host x) (candidate x))) (\<lambda>_. staging x j) s"
    by (rule wp_for [OF wp_ensure_directory [OF x]]) (use s in \<open>simp_all add: package_dirs_def\<close>)
  show "wp (interrupted x) (pfor (spec_files (tx_spec x)) (copy_file (tx_host x) (tx_source x) (candidate x))) (\<lambda>_. staging x j) u"
    if "staging x j u" for u
    by (rule wp_for [OF wp_copy_file [OF x]]) (use that in simp_all)
qed

lemma wp_stage:
  assumes x: "installable x"
  shows "wp (interrupted x) (stage_candidate (tx_host x) (tx_spec x) (tx_source x) (start x))
    (\<lambda>j u. j = at x (Some (ident x)) None False RUNTIME_VERIFIED \<and> staging x j u
       \<and> staged (tx_digest x) (tx_spec x) (tx_source x) (candidate x) u) (tx_root x)"
proof -
  let ?start = "at x None None False PREPARED" and ?j = "at x (Some (ident x)) None False"
  have root: "untouched x (tx_root x)" using roots(7,8) [OF x] by (simp add: untouched_def)
  note ok = journals_ok(1,2) [OF x]
  have first: "wp (interrupted x) (write_journal (tx_host x) ?start)
      (\<lambda>_ u. point x ?start u \<and> rest u = rest (tx_root x) \<and> created u = Suc (created (tx_root x))) (tx_root x)"
    by (rule wp_point [OF x, of _ None])
       (use root roots(6) [OF x] ok(1) in \<open>simp_all add: disk_def shape_def follows_def\<close>)
  have create: "wp (interrupted x) (secure_create_directory (tx_host x) (candidate x))
      (\<lambda>i u. i = ident x \<and> point x ?start u \<and> untouched x u \<and> has_candidate x u) s"
    if s: "point x ?start s \<and> rest s = rest (tx_root x) \<and> created s = Suc (created (tx_root x))" for s
  proof -
    let ?u = "count_creation (put_node (candidate x)
        (Directory \<lparr>tree_identity = ident x, tree_directories = [], tree_files = []\<rparr>) s)"
    have nodes: "nodes s = nodes (tx_root x)" using s by (simp add: rest_def)
    have none: "map_of (nodes s) (candidate x) = None" using roots(3) [OF x] nodes by simp
    have "has_candidate x ?u"
      using none nodes by (auto simp: has_candidate_def count_creation_def put_node_def dput_new part_of_def tree_ok_def wf_dict_def)
    moreover have "untouched x ?u" using s root by (simp add: untouched_def rest_def count_creation_def put_node_def)
    ultimately have u: "point x ?start ?u" "untouched x ?u" "has_candidate x ?u"
      using s by (simp_all add: point_def shape_def count_creation_def put_node_def)
    then show ?thesis
      using none s point_interrupted [OF x u(1)] point_interrupted [OF x, of ?start s]
      by (simp add: secure_create_directory_def path_lexists_def dhas_def ident_def [symmetric])
  qed
  have advance: "wp (interrupted x) (advance (tx_host x) (?j ph')) (\<lambda>j u. j = ?j ph' \<and> staging x j u \<and> rest u = rest s) s"
    if s: "point x k s" "untouched x s" "has_candidate x s" and ph: "ph' \<in> {PREPARED, RUNTIME_STAGED, RUNTIME_VERIFIED}"
      and step: "is_monotonic_successor k (?j ph')" "k \<noteq> ?j ph'" for k ph' s
  proof -
    have "shape x (Some (?j ph')) s" using s ph by (auto simp: shape_def)
    from wp_advance_point [OF x s(1) ok(2) [OF ph] this step] show ?thesis
    proof (rule wp_mono, elim conjE)
      fix j u assume u: "j = ?j ph'" "point x (?j ph') u" "rest u = rest s"
      from rest_fields(2,4) [OF u(3), of x] s(2,3) u ph
      show "j = ?j ph' \<and> staging x j u \<and> rest u = rest s" by (auto simp: staging_def)
    qed
  qed
  have verify: "wp (interrupted x) (verify_runtime_tree_against_spec (tx_host x) (candidate x) (tx_spec x) (Some (tx_source x)))
      (\<lambda>_ u. staging x k u \<and> staged (tx_digest x) (tx_spec x) (tx_source x) (candidate x) u) s" if "staging x k s" for k s
    by (rule wp_verify) (use that staging_interrupted [OF x that] in \<open>simp_all add: staged_def\<close>)
  have again: "wp (interrupted x) (advance (tx_host x) (?j ph')) (\<lambda>j u. j = ?j ph' \<and> staging x j u \<and> rest u = rest s) s"
    if "staging x (?j ph) s" "ph' \<in> {PREPARED, RUNTIME_STAGED, RUNTIME_VERIFIED}" "phase_order ph < phase_order ph'" for ph ph' s
    by (rule advance [of "?j ph"]) (use that in \<open>auto simp: staging_def at_successor\<close>)
  show ?thesis
    unfolding stage_candidate_def at_start [symmetric] at_fields at_updates
    apply (rule wp_seq [OF first])
    apply (rule wp_seq, erule create, elim conjE, hypsubst)
    apply (rule wp_seq, rule advance, assumption, assumption, assumption, simp, simp add: at_successor, simp)
    apply (elim conjE, hypsubst)
    apply (unfold at_fields at_updates, rule wp_seq [OF wp_copy [OF x]], assumption)
    apply (rule wp_seq, rule again, assumption, simp, simp)
    apply (elim conjE, hypsubst, unfold at_fields at_updates)
    apply (rule wp_seq [OF verify], assumption, elim conjE)
    apply (rule wp_mono, rule again, assumption, simp, simp)
    apply (metis rest_fields(1) staged_def)
    done
qed

section \<open>The target and the INI\<close>

lemma wp_if: "(b \<Longrightarrow> wp I m Q s) \<Longrightarrow> (\<not> b \<Longrightarrow> wp I m' Q s) \<Longrightarrow> wp I (if b then m else m') Q s"
  by simp

lemma wp_advance_target:
  assumes x: "installable x" and s: "point x k s" "has_target x s" "untouched x s \<or> switched x s"
    and ph: "ph \<in> {RUNTIME_VERIFIED, INI_COMMITTED, STATE_COMMITTED, FINALIZED}"
    and switched: "ph = RUNTIME_VERIFIED \<or> switched x s"
    and step: "is_monotonic_successor k (owner x ph)" "k \<noteq> owner x ph"
  shows "wp (interrupted x) (advance (tx_host x) (owner x ph))
    (\<lambda>j u. j = owner x ph \<and> point x j u \<and> has_target x u \<and> rest u = rest s) s"
proof -
  have "shape x (Some (owner x ph)) s" using s ph switched by (auto simp: shape_def)
  from wp_advance_point [OF x s(1) journals_ok(3) [OF x ph] this step] show ?thesis
    by (rule wp_mono) (metis rest_fields(5) s(2))
qed

lemma wp_place:
  assumes x: "installable x" and s: "staging x (at x (Some (ident x)) None False RUNTIME_VERIFIED) s"
    "staged (tx_digest x) (tx_spec x) (tx_source x) (candidate x) s"
  shows "wp (interrupted x)
    (place_target (tx_host x) (tx_spec x) (tx_source x) (at x (Some (ident x)) None False RUNTIME_VERIFIED))
    (\<lambda>j u. j = owner x RUNTIME_VERIFIED \<and> point x j u \<and> has_target x u \<and> untouched x u) s"
proof -
  let ?j = "at x (Some (ident x)) None False RUNTIME_VERIFIED"
  obtain tr where tr: "nodes s = nodes (tx_root x) @ [(candidate x, Directory tr)]" "tree_identity tr = ident x"
    "part_of (tx_spec x) (tx_source x) tr" using s by (auto simp: staging_def has_candidate_def)
  have cand: "has_candidate x s" "untouched x s" "point x ?j s" using s(1) by (simp_all add: staging_def)
  obtain tr' where look: "map_of (nodes s) (candidate x) = Some (Directory tr')" "map_of (nodes s) (place x) = None"
    "tree_identity tr' = ident x" "nodes (drop_node (candidate x) s) = nodes (tx_root x)"
    using candidate_lookup [OF x cand(1)] by metis
  let ?u = "put_node (place x) (Directory tr') (drop_node (candidate x) s)"
  have same: "tr' = tr" using look(1) roots(3) [OF x] by (simp add: tr(1) map_of_snoc del: map_of_append)
  have nodes: "nodes ?u = nodes (tx_root x) @ [(place x, Directory tr)]"
    using look(4) roots(4) [OF x] by (simp add: put_node_def dput_new same)
  have "holds_package (tx_digest x) (tx_spec x) (tx_source x) (Some (Directory tr))"
    using s(2) look(1) by (simp add: staged_def same)
  with nodes tr have target: "has_target x ?u" by (auto simp: has_target_def)
  have "untouched x ?u" "journal_files ?u = journal_files s"
    using cand(2) by (simp_all add: untouched_def put_node_def drop_node_def)
  with target cand(3) have u: "point x ?j ?u" "has_target x ?u" "untouched x ?u"
    by (simp_all add: point_def shape_def)
  have found: "map_of (nodes ?u) (place x) = Some (Directory tr')" by (simp add: put_node_def)
  have advance: "wp (interrupted x) (advance (tx_host x) (owner x RUNTIME_VERIFIED))
      (\<lambda>j u. j = owner x RUNTIME_VERIFIED \<and> point x j u \<and> has_target x u \<and> untouched x u) ?u"
    using wp_advance_target [OF x u(1,2), of RUNTIME_VERIFIED] u(3)
    by (auto simp: at_successor elim!: wp_mono) (metis rest_fields(2))
  then show ?thesis
    using look found point_interrupted [OF x u(1)] staging_interrupted [OF x s(1)]
    by (simp add: place_target_def path_lexists_def dhas_def rename_directory_def plain_directory_def
        plain_directory_identity_def)
qed

abbreviation committing :: "runtime_phase set" where
  "committing \<equiv> {RUNTIME_VERIFIED, INI_COMMITTED, STATE_COMMITTED, FINALIZED}"

lemma forward_interrupted: "installable x \<Longrightarrow> forward x [] ph s \<Longrightarrow> ph \<in> committing \<Longrightarrow> interrupted x s"
  by (rule interruptedI [of x s "Some (owner x ph)"]) (auto simp: forward_def shape_def journals_ok(3))

lemma wp_advance_forward:
  assumes x: "installable x" and s: "forward x [] ph s"
    and ph: "ph \<in> committing" "ph' \<in> committing" "phase_order ph < phase_order ph'"
  shows "wp (interrupted x) (advance (tx_host x) (owner x ph'))
    (\<lambda>j u. j = owner x ph' \<and> forward x [] ph' u) s"
proof -
  have s': "point x (owner x ph) s" "has_target x s" "switched x s"
    using s ph(1) journals_ok(3) [OF x ph(1)] by (auto simp: forward_def point_def shape_def)
  have "wp (interrupted x) (advance (tx_host x) (owner x ph'))
      (\<lambda>j u. j = owner x ph' \<and> point x j u \<and> has_target x u \<and> rest u = rest s) s"
    by (rule wp_advance_target [OF x s'(1,2) _ ph(2)]) (use s'(3) ph(3) in \<open>auto simp: at_successor\<close>)
  then show ?thesis
  proof (rule wp_mono, elim conjE)
    fix j u assume u: "j = owner x ph'" "point x j u" "has_target x u" "rest u = rest s"
    from rest_fields(3) [OF u(4), of x] s'(3) u
    show "j = owner x ph' \<and> forward x [] ph' u" by (simp add: forward_def point_def junk_def)
  qed
qed

lemma wp_commit:
  assumes x: "installable x" and s: "point x (owner x RUNTIME_VERIFIED) s" "has_target x s" "untouched x s"
  shows "wp (interrupted x)
    (commit_ini (tx_host x) (tx_spec x) (tx_source x) (tx_ini x) (tx_bytes x) (owner x RUNTIME_VERIFIED))
    (\<lambda>r u. r = (owner x INI_COMMITTED, tx_digest x (tx_bytes x)) \<and> forward x [] INI_COMMITTED u) s"
proof -
  have parts: "journal_files s = disk (tx_id x) (Some (owner x RUNTIME_VERIFIED)) []" using s(1) by (simp add: point_def)
  have u: "forward x [] RUNTIME_VERIFIED u" if "ini_switched (tx_bytes x) s u" for u
  proof -
    have "has_target x u" "switched x u"
      using that s(2,3) x by (simp_all add: ini_switched_def core_fields has_target_def switched_def untouched_def
          receipt_file_def installable_def)
    with that parts show ?thesis by (simp add: forward_def ini_switched_def core_fields junk_def)
  qed
  note I = point_interrupted [OF x s(1)]
  have Iu: "interrupted x u" if "ini_switched (tx_bytes x) s u" for u using forward_interrupted [OF x u [OF that]] by simp
  have beside: "interrupted x u" if "core u = core s" "same_ini s u \<or> two_names x u" for u
  proof (rule interruptedI [OF x, of u "Some (owner x RUNTIME_VERIFIED)"])
    show "journal_files u = disk (tx_id x) (Some (owner x RUNTIME_VERIFIED)) []" using that(1) parts by (simp add: core_fields)
    have "has_target x u" using that(1) s(2) by (simp add: core_fields has_target_def)
    moreover have "untouched x u \<or> two_names x u"
      using that s(3) by (auto simp: same_ini_def core_fields untouched_def)
    ultimately show "shape x (Some (owner x RUNTIME_VERIFIED)) u" by (auto simp: shape_def)
  qed (use journals_ok(3) [OF x] in simp)
  have verify: "wp (interrupted x) (verify_runtime_tree_against_spec (tx_host x) (place x) (tx_spec x) (Some (tx_source x)))
      (\<lambda>_ v. v = w) w" if "interrupted x w" for w
    by (rule wp_verify) (use that in simp_all)
  have replace: "wp (interrupted x) (replace_ini (tx_host x) (tx_ini x) (tx_bytes x))
      (\<lambda>sha v. sha = tx_digest x (tx_bytes x) \<and> ini_switched (tx_bytes x) s v) s"
    by (rule wp_replace_ini) (use beside Iu s(3) in \<open>auto simp: same_ini_def half_ini_def two_names_def untouched_def\<close>)
  have finish: "wp (interrupted x) (pbind (plain_directory_identity (place x)) (\<lambda>i.
      pbind (advance (tx_host x) ((owner x RUNTIME_VERIFIED)\<lparr>target_identity := Some i, phase := INI_COMMITTED\<rparr>)) (\<lambda>j.
      preturn (j, tx_digest x (tx_bytes x)))))
      (\<lambda>r u. r = (owner x INI_COMMITTED, tx_digest x (tx_bytes x)) \<and> forward x [] INI_COMMITTED u) u"
    if now: "ini_switched (tx_bytes x) s u" for u
  proof -
    obtain tr where "map_of (nodes u) (place x) = Some (Directory tr)" "tree_identity tr = ident x"
      using forward_readings [OF x u [OF now]] by metis
    with Iu [OF now] wp_advance_forward [OF x u [OF now], of INI_COMMITTED] show ?thesis
      by (auto simp: plain_directory_identity_def plain_directory_def elim: wp_mono)
  qed
  show ?thesis
    unfolding commit_ini_def at_fields
    apply (rule wp_seq [OF verify [OF I]], erule ssubst)
    apply (rule wp_seq [OF replace], elim conjE, hypsubst)
    apply (rule wp_seq [where R = "\<lambda>_. ini_switched (tx_bytes x) s"])
    apply (simp add: read_actual_ini_def Iu split: sum.split)
    apply (rule wp_if, simp add: Iu)
    apply (rule wp_seq [OF verify [OF Iu]], assumption, erule ssubst, erule finish)
    done
qed

section \<open>State, receipt and cleanup\<close>

lemma forward_small_step:
  assumes "forward x [] ph s"
  shows "forward x [] ph (s\<lparr>state_file := Some (state_bytes x)\<rparr>)"
    and "c = None \<or> c = Some (receipt_of x) \<Longrightarrow> installable x \<Longrightarrow>
      forward x [] ph (s\<lparr>receipts := dput (state_key (start x)) c (receipts s)\<rparr>)"
    and "forward x [] ph (count_creation s)"
  using assms documents_small(2) [of x]
  by (auto simp: forward_def has_target_def switched_def receipt_file_def small_def count_creation_def junk_def)

lemma wp_state:
  assumes x: "installable x" and s: "forward x [] ph s" and ph: "ph \<in> committing"
  shows "wp (interrupted x) (write_selected_state (owner x ph) (Some (tx_digest x (tx_bytes x))))
    (\<lambda>_. forward x [] ph) s"
proof -
  have stored: "state_file s = None \<or> state_file s = Some (state_bytes x)" using s by (simp add: forward_def switched_def)
  have new: "\<lparr>st_schema_version = 1, st_decks = st_decks (new_state x)\<rparr> = new_state x" by (simp add: new_state_def)
  note u = forward_small_step(1) [OF s]
  note size = documents_small(1) [OF x]
  note I = forward_interrupted [OF x s ph] forward_interrupted [OF x u ph]
  from stored show ?thesis
    by (elim disjE) (simp_all add: write_selected_state_def read_state_def plain_file_bytes_or_none_def selected_new new
        new_state_read [OF x] Let_def u s I size)
qed

lemma wp_receipt:
  assumes x: "installable x" and s: "forward x [] ph s" and ph: "ph \<in> committing"
  shows "wp (interrupted x) (write_receipt (receipt_payload (owner x ph) (tx_digest x (tx_bytes x))))
    (\<lambda>_. forward x [] ph) s"
proof -
  have payload: "receipt_payload (owner x ph) d = receipt_payload (start x) d" for d
    by (simp add: receipt_payload_def) (simp add: at_def start_def prepared_journal_def)
  have key: "dget (items (receipt_payload (start x) d)) ''state_key'' = PStr (state_key (start x))" for d
    by (simp add: receipt_payload_def dget_def)
  have bytes: "receipt_bytes (receipt_payload (start x) (tx_digest x (tx_bytes x))) = receipt_of x"
    by (simp add: receipt_of_def)
  let ?dir = "\<lambda>s. count_creation (s\<lparr>receipts := dput (state_key (start x)) None (receipts s)\<rparr>)"
  let ?file = "\<lambda>s. s\<lparr>receipts := dput (state_key (start x)) (Some (receipt_of x)) (receipts s)\<rparr>"
  have dir: "forward x [] ph (?dir u)" and put: "forward x [] ph (?file u)" if "forward x [] ph u" for u
    using that forward_small_step(2,3) x by simp_all
  note I = forward_interrupted [OF x _ ph]
  show ?thesis
    unfolding write_receipt_def payload key pyval.case bytes
    by (rule wp_if) (use I [OF s] s dir put I in \<open>simp_all add: plain_file_bytes_or_none_def split: option.split\<close>)
qed

lemma wp_finish:
  assumes x: "installable x" and s: "forward x [] INI_COMMITTED s"
  shows "wp (interrupted x)
    (finish_install (tx_host x) retain (tx_plan x) (tx_ini x) (owner x INI_COMMITTED) (tx_digest x (tx_bytes x)))
    (\<lambda>_. interrupted x) s"
proof -
  note I = forward_interrupted [OF x]
  have receipt: "wp (interrupted x) (ptry (pbind (write_receipt
        (receipt_payload (owner x STATE_COMMITTED) (tx_digest x (tx_bytes x)))) (\<lambda>_. preturn True)) (\<lambda>e. preturn False))
      (\<lambda>ok u. if ok then forward x [] STATE_COMMITTED u else interrupted x u) u" if "forward x [] STATE_COMMITTED u" for u
    by (rule wp_try, rule wp_seq [OF wp_receipt [OF x that]]) simp_all
  have cleanup: "wp (interrupted x) (cleanup_old_revision (tx_host x) (owner x FINALIZED)) (\<lambda>_. interrupted x) u"
    if "forward x [] FINALIZED u" for u
    by (rule total_wp, rule total_mono [OF forward_cleanup [OF x that]]) (use I [OF that] in simp_all)
  show ?thesis
    unfolding finish_install_def Let_def
    apply (rule wp_seq [OF wp_state [OF x s]], simp)
    apply (unfold at_updates, rule wp_seq [OF wp_advance_forward [OF x]], assumption, simp, simp, simp)
    apply (elim conjE, hypsubst, rule wp_seq [OF receipt], assumption)
    apply (rule wp_if, simp)
    apply (unfold at_updates, rule wp_seq [OF wp_advance_forward [OF x]], simp, simp, simp, simp)
    apply (elim conjE, hypsubst, rule wp_seq [OF cleanup], assumption)
    apply simp
    done
qed

section \<open>Crash points\<close>

lemma crash_points_interrupted:
  assumes x: "installable x"
  shows "crash_points (install_locked (tx_host x) (tx_plan x) (tx_spec x) (Some (tx_source x)) (tx_ini x) (tx_id x) retain)
    (tx_root x) \<subseteq> Collect (interrupted x)"
proof (rule wp_all_crash_points)
  have render: "render_deck_config (tx_ini x) (plan_deck_name (tx_plan x)) (tx_dir x) = Inr (tx_bytes x)"
    "plan_source_sha256 (tx_plan x) = Inr (tx_revision x)" "is_transaction_id (tx_id x)"
    "RuntimeTransactionJournal (start x) = Inr (start x)"
    using x journal_ok_replaced [OF journals_ok(1) [OF x]]
    by (simp_all add: installable_def is_transaction_id_def at_start)
  have root: "untouched x (tx_root x)" using roots(7,8) [OF x] by (simp add: untouched_def)
  show here: "interrupted x (tx_root x)"
    by (rule interruptedI [OF x, of _ None]) (use roots(6) [OF x] root in \<open>simp_all add: disk_def shape_def\<close>)
  have transaction: "wp (interrupted x) (pbind (stage_candidate (tx_host x) (tx_spec x) (tx_source x) (start x)) (\<lambda>j.
      pbind (place_target (tx_host x) (tx_spec x) (tx_source x) j) (\<lambda>j.
      pbind (commit_ini (tx_host x) (tx_spec x) (tx_source x) (tx_ini x) (tx_bytes x) j) (\<lambda>(j, sha).
      finish_install (tx_host x) retain (tx_plan x) (tx_ini x) j sha)))) (\<lambda>_. interrupted x) (tx_root x)"
    apply (rule wp_seq [OF wp_stage [OF x]], elim conjE, hypsubst)
    apply (rule wp_seq [OF wp_place [OF x]], assumption, assumption, elim conjE, hypsubst)
    apply (rule wp_seq [OF wp_commit [OF x]], assumption, assumption, assumption, elim conjE, hypsubst)
    apply (unfold prod.case, rule wp_finish [OF x], assumption)
    done
  show "wp (interrupted x)
      (install_locked (tx_host x) (tx_plan x) (tx_spec x) (Some (tx_source x)) (tx_ini x) (tx_id x) retain)
      (\<lambda>_. interrupted x) (tx_root x)"
    using transaction render by (simp add: install_locked_def replaced_def start_def)
qed

lemma linked_interrupted:
  assumes x: "installable x" and "interrupted x u" and linked: "two_names x u"
  shows "wp (\<lambda>_. True) (recover_locked (tx_host x)) (\<lambda>_ _. False) u"
proof -
  obtain oj where oj: "loads (tx_id x) u oj" "shape x oj u" using assms(2) by (auto simp: interrupted_def)
  have "\<not> untouched x u" "\<not> switched x u" using linked by (simp_all add: two_names_def untouched_def switched_def)
  with oj(2) have "oj = Some (owner x RUNTIME_VERIFIED)" "has_target x u"
    by (auto simp: shape_def split: option.splits)
  with oj(1) show ?thesis using linked_ini_refused [OF x _ _ linked] by simp
qed

end
