(* ===== verification/RuntimeKilled.thy ===== *)
theory RuntimeKilled
  imports RuntimeInterrupt
begin

text \<open>
  What becomes of a killed first installation: the theorems, with an example of a transaction that
  meets all assumptions.
\<close>

section \<open>Killed installations\<close>

abbreviation install :: "transaction \<Rightarrow> bool \<Rightarrow> install_result effect" where
  "install x retain \<equiv>
     install_locked (tx_host x) (tx_plan x) (tx_spec x) (Some (tx_source x)) (tx_ini x) (tx_id x) retain"

text \<open>
  C6. A killed installation is resolved by the next call, with two exceptions. Take any transaction that
  installs a package into a root without transactions, and kill it at any crash point - within the
  writing of a journal, the copying of files, the switch of the INI or the receipt. Then the recovery
  at the beginning of the next call returns, and afterwards the directories, INI, state and receipts are
  the old ones and no journal is left, or the installation is complete: the directory holds the package,
  and INI, state, receipt and journal are those of a finished installation. (What the kill has left
  beside the INI, under its reserved or a unique temporary name, stays.) The exceptions are a
  candidate directory that the journal does not record yet; and, on POSIX and if there was no INI
  before, the point at which the new INI has two names: there the recovery raises, and the INI and
  the directories that it names stay as they are.
\<close>
theorem killed_install_recovers:
  assumes "installable x" and "u \<in> crash_points (install x retain) (tx_root x)"
  shows "unrecorded x u
    \<or> two_names x u \<and> (\<exists>trace e v. recover_locked (tx_host x) u = (trace, Inl e, v) \<and> view names_dir v = view names_dir u)
    \<or> (\<exists>trace r v. recover_locked (tx_host x) u = (trace, Inr r, v) \<and> (rolled_back x v \<or> completed x v) \<and> beside v = beside u)"
proof -
  have int: "interrupted x u" using crash_points_interrupted [OF assms(1)] assms(2) by blast
  obtain trace r v where run: "recover_locked (tx_host x) u = (trace, r, v)" by (rule prod_cases3)
  have view: "view names_dir v = view names_dir u"
    by (rule keeps_crash_points [OF keeps_recover_locked refl, of _ "tx_host x"]) (simp add: crash_points_def run)
  then have "beside v = beside u" by (simp add: view_def)
  consider "unrecorded x u" | "two_names x u" | "\<not> unrecorded x u" "\<not> two_names x u" by blast
  then show ?thesis
  proof cases
    case 2
    then have "wp (\<lambda>_. True) (recover_locked (tx_host x)) (\<lambda>_ _. False) u"
      by (rule linked_interrupted [OF assms(1) int])
    then have "\<exists>e. r = Inl e" by (simp add: wp_def run split: sum.splits)
    with 2 run view show ?thesis by blast
  next
    case 3
    with interrupted_recovers [OF assms(1) int this] \<open>beside v = beside u\<close> show ?thesis by (auto simp: total_returns run)
  qed blast
qed

definition begun :: "transaction \<Rightarrow> runtime" where
  \<comment> \<open>the root after the first journal has been written\<close>
  "begun x = (tx_root x)\<lparr>created := Suc (created (tx_root x)), journal_files := disk (tx_id x) (Some (start x)) []\<rparr>"

definition unbound :: "transaction \<Rightarrow> runtime" where
  \<comment> \<open>the root after the candidate has been created\<close>
  "unbound x = (begun x)
     \<lparr>nodes := nodes (tx_root x) @
        [(candidate x, Directory \<lparr>tree_identity = ident x, tree_directories = [], tree_files = []\<rparr>)],
      created := Suc (Suc (created (tx_root x)))\<rparr>"

lemma no_crash_point: "(\<And>u. u \<in> crash_points m s \<Longrightarrow> I u) \<Longrightarrow> wp I m (\<lambda>_ _. True) s"
  by (auto simp: wp_def crash_points_def list_all_iff split: prod.splits sum.splits)

lemma wp_run: "m s = (t, Inr v, s') \<Longrightarrow> wp I (pbind m f) Q s \<longleftrightarrow> list_all I t \<and> wp I (f v) Q s'"
  by (auto simp: wp_def pbind_def split: prod.splits)

lemma first_crash_points:
  assumes x: "installable x"
  shows "begun x \<in> crash_points (install x retain) (tx_root x)" and "unbound x \<in> crash_points (install x retain) (tx_root x)"
proof -
  have render: "render_deck_config (tx_ini x) (plan_deck_name (tx_plan x)) (tx_dir x) = Inr (tx_bytes x)"
    "plan_source_sha256 (tx_plan x) = Inr (tx_revision x)" "is_transaction_id (tx_id x)"
    "RuntimeTransactionJournal (start x) = Inr (start x)"
    using x journal_ok_replaced [OF journals_ok(1) [OF x]]
    by (simp_all add: installable_def is_transaction_id_def at_start)
  have "journal_files (tx_root x) = disk (tx_id x) None []" using roots(6) [OF x] by (simp add: disk_def)
  from write_run [OF roots(1,2) [OF x] this _ _ journals_ok(1) [OF x]]
  obtain trace where run: "write_journal (tx_host x) (start x) (tx_root x) = (trace, Inr (), begun x)" "begun x \<in> set trace"
    by (simp add: junk_def at_start begun_def Let_def)
  have candidate: "candidate_path (start x) = candidate x" using at_fields [of x None None False PREPARED] by (simp add: at_start)
  have "I (begun x) \<and> I (unbound x)" if "\<And>u. u \<in> crash_points (install x retain) (tx_root x) \<Longrightarrow> I u" for I
  proof -
    have "wp I (install x retain) (\<lambda>_ _. True) (tx_root x)" by (rule no_crash_point) (rule that)
    then have "wp I (stage_candidate (tx_host x) (tx_spec x) (tx_source x) (start x)) (\<lambda>_ _. True) (tx_root x)"
      using render by (auto simp: install_locked_def replaced_def start_def elim: wp_mono)
    then have "I (begun x) \<and> wp I (secure_create_directory (tx_host x) (candidate x)) (\<lambda>_ _. True) (begun x)"
      using run(2) unfolding stage_candidate_def candidate wp_run [where m = "write_journal (tx_host x) (start x)" and s = "tx_root x", OF run(1)]
      by (auto simp: list_all_iff elim: wp_mono)
    then show ?thesis
      using roots(3) [OF x]
      by (simp add: secure_create_directory_def path_lexists_def dhas_def unbound_def begun_def count_creation_def
          put_node_def dput_new ident_def)
  qed
  from this [of "\<lambda>u. u \<in> crash_points (install x retain) (tx_root x)"]
  show "begun x \<in> crash_points (install x retain) (tx_root x)" and "unbound x \<in> crash_points (install x retain) (tx_root x)"
    by simp_all
qed

lemma refused_candidate:
  assumes x: "installable x"
  shows "recover_locked (tx_host x) (unbound x) = ([unbound x], Inl ambiguous, unbound x)" and "unrecorded x (unbound x)"
proof -
  have files: "journal_files (unbound x) = disk (tx_id x) (Some (start x)) []" by (simp add: unbound_def begun_def)
  have ok: "journal_ok (tx_id x) (start x)" using journals_ok(1) [OF x] by (simp add: at_start)
  have "load_journals (unbound x) = ([unbound x], Inr [start x], unbound x)"
    using load_settled [OF roots(1) [OF x] files] ok by (simp add: junk_def)
  moreover have "staging_names (unbound x) = [tx_id x]"
    by (rule staging_names_snoc(2) [OF roots(5) [OF x]]) (simp add: unbound_def)
  moreover have "candidate_identity (start x) = None" "transaction_id (start x) = tx_id x"
    by (simp_all add: start_def prepared_journal_def)
  ultimately show "recover_locked (tx_host x) (unbound x) = ([unbound x], Inl ambiguous, unbound x)"
    by (simp add: recover_locked_def validate_recovery_ownership_def staging_entry_owned_def run_defs)
  have "loads (tx_id x) (unbound x) (Some (start x))"
    by (rule loads_disk [OF roots(1) [OF x] files]) (use ok in \<open>simp_all add: junk_def\<close>)
  then show "unrecorded x (unbound x)"
    by (simp add: unrecorded_def at_start unbound_def map_of_snoc del: map_of_append split: option.split)
qed

text \<open>
  C7. The exception is refused, not guessed at. Every installation has such a crash point, the one
  between the creation of the candidate and the journal with its identity. There the recovery raises
  the ownership error and changes nothing, so every later call of the installer, for whatever
  package, raises it as well and leaves the root as it is until an operator acts.
\<close>
theorem unbound_candidate_refused:
  assumes "installable x"
  shows "\<exists>u\<in>crash_points (install x retain) (tx_root x). unrecorded x u
    \<and> recover_locked (tx_host x) u = ([u], Inl ambiguous, u)
    \<and> (\<forall>p spec source t. t \<noteq> tx_id x \<longrightarrow>
        install_runtime_package (tx_host x) p spec source t retain u = ([u, u], Inl ambiguous, u))"
proof (intro bexI conjI allI impI)
  show "unbound x \<in> crash_points (install x retain) (tx_root x)" by (rule first_crash_points [OF assms])
  note refused = refused_candidate [OF assms]
  show "unrecorded x (unbound x)" "recover_locked (tx_host x) (unbound x) = ([unbound x], Inl ambiguous, unbound x)"
    by (rule refused)+
  fix p spec source t assume "t \<noteq> tx_id x"
  then have "\<not> dhas (journal_files (unbound x)) (final_path t)"
    by (simp add: dhas_def unbound_def begun_def disk_def final_path_def)
  with refused(1) show "install_runtime_package (tx_host x) p spec source t retain (unbound x)
      = ([unbound x, unbound x], Inl ambiguous, unbound x)"
    by (simp add: install_runtime_package_def run_defs ptry_def)
qed

section \<open>An example\<close>

definition kill_host :: host where
  "kill_host = \<lparr>digest = (\<lambda>s. demo_hex 64), new_identity = (\<lambda>n. (1, int n, 0)),
     new_nonce = (\<lambda>n d. replicate 32
       (if map_of d (temp_path (demo_hex 32) (replicate 32 CHR ''0'')) = None then CHR ''0''
        else if map_of d (temp_path (demo_hex 32) (replicate 32 CHR ''1'')) = None then CHR ''1'' else CHR ''2'')), posix = True\<rparr>"

definition kill_dir :: string where "kill_dir = ''Shadow--sha256-'' @ demo_hex 64"

definition kill_plan :: install_plan where
  "kill_plan = \<lparr>plan_deck_name = ''Shadow'', plan_logical_config_dir = ''Shadow'', plan_versioned_config_dir = kill_dir,
     plan_package_root_sha256 = demo_hex 64, plan_revision_name = ''sha256-'' @ demo_hex 64\<rparr>"

definition kill_source :: source where
  "kill_source = [(''04_package/CustomConfig/Shadow/d/a.txt'', ''a'')]"

definition kill_manifest :: tree_manifest where
  "kill_manifest = \<lparr>tree_manifest.schema_version = 1, tree_manifest.deck_name = ''Shadow'', deck_fingerprint = demo_hex 64,
     tree_manifest.entries = [\<lparr>manifest_entry.relative_path = ''04_package/CustomConfig/Shadow/d/a.txt'',
       manifest_entry.size = 1, manifest_entry.sha256 = demo_hex 64\<rparr>],
     content_root_sha256 = demo_hex 64\<rparr>"

definition kill_spec :: package_spec where
  "kill_spec = \<lparr>spec_deck_name = ''Shadow'', spec_logical_config_dir = ''Shadow'', spec_package_root_sha256 = demo_hex 64,
     spec_files = [\<lparr>rf_relative_path = ''d/a.txt'', rf_size = 1, rf_sha256 = demo_hex 64,
       rf_source_path = ''04_package/CustomConfig/Shadow/d/a.txt''\<rparr>]\<rparr>"

definition kill_old :: string where
  "kill_old = ''[CONFIGS]'' @ [LF] @ ''Shadow = Old'' @ [LF]"

definition kill_new :: string where
  "kill_new = ''[CONFIGS]'' @ [LF] @ ''Shadow = '' @ kill_dir @ [LF]"

definition kill_root :: runtime where
  "kill_root = \<lparr>nodes = [(''CustomConfig/Old'', OtherNode)], ini_file = Some kill_old, state_file = None, receipts = [],
     journal_files = [], owner_retirements = [], created = 0, ini_linked = False, ini_staged = None, ini_inner = None,
     ini_strays = []\<rparr>"

definition kill_ini :: deck_config_snapshot where
  "kill_ini = \<lparr>existed = True, content = Some kill_old, sha256 = Some (demo_hex 64), selected_config_dir = Some ''Old''\<rparr>"

definition kill_tx :: transaction where
  "kill_tx = \<lparr>tx_host = kill_host, tx_plan = kill_plan, tx_spec = kill_spec, tx_source = kill_source, tx_ini = kill_ini,
     tx_id = demo_hex 32, tx_root = kill_root, tx_revision = demo_hex 64, tx_bytes = kill_new\<rparr>"

lemma kill_fields [simp]:
  "tx_host kill_tx = kill_host" "tx_plan kill_tx = kill_plan" "tx_spec kill_tx = kill_spec" "tx_source kill_tx = kill_source"
  "tx_ini kill_tx = kill_ini" "tx_id kill_tx = demo_hex 32" "tx_root kill_tx = kill_root" "tx_revision kill_tx = demo_hex 64"
  "tx_bytes kill_tx = kill_new" "digest kill_host = (\<lambda>s. demo_hex 64)"
  by (simp_all add: kill_tx_def kill_host_def)

lemma kill_nonces: "nonces_ok kill_host (demo_hex 32)"
proof -
  let ?t = "\<lambda>c. temp_path (demo_hex 32) (replicate 32 c)"
  have hex: "hex_text 32 (replicate 32 c)" if "c \<in> {CHR ''0'', CHR ''1'', CHR ''2''}" for c
    using that by (auto simp: hex_text_def list_all_iff is_lower_hex_def)
  have distinct: "distinct [?t CHR ''0'', ?t CHR ''1'', ?t CHR ''2'']"
    by (simp add: temp_path_def numeral_eq_Suc)
  have unused: "map_of d (?t CHR ''2'') = None" if "length d \<le> 2" "map_of d (?t CHR ''0'') \<noteq> None" "map_of d (?t CHR ''1'') \<noteq> None"
    for d :: directory
  proof (rule ccontr)
    assume "map_of d (?t CHR ''2'') \<noteq> None"
    with that have "set [?t CHR ''0'', ?t CHR ''1'', ?t CHR ''2''] \<subseteq> fst ` set d"
      by (simp add: map_of_eq_None_iff)
    then have "card (set [?t CHR ''0'', ?t CHR ''1'', ?t CHR ''2'']) \<le> card (fst ` set d)" by (rule card_mono [rotated]) simp
    also have "\<dots> \<le> length d" by (metis card_image_le card_length List.finite_set le_trans)
    finally show False using that(1) distinct_card [OF distinct] by simp
  qed
  show ?thesis
    unfolding nonces_ok_def kill_host_def host.select_convs using hex unused by auto
qed

lemma kill_package: "runtime_package_spec (\<lambda>s. demo_hex 64) (Some kill_manifest) = Inr kill_spec"
  "within_bounds (package_tree kill_spec kill_source)" "plan_source_sha256 kill_plan = Inr (demo_hex 64)"
  by code_simp+

lemma kill_inis: "read_deck_config (\<lambda>s. demo_hex 64) (Some kill_old) ''Shadow'' = Inr kill_ini"
  "render_deck_config kill_ini ''Shadow'' kill_dir = Inr kill_new"
  "read_deck_config (\<lambda>s. demo_hex 64) (Some kill_new) ''Shadow''
     = Inr \<lparr>existed = True, content = Some kill_new, sha256 = Some (demo_hex 64), selected_config_dir = Some kill_dir\<rparr>"
  "\<not> names_dir (Some kill_old) kill_dir" "small (Some kill_old)" "small (Some kill_new)"
  by code_simp+

lemma kill_start: "start kill_tx = \<lparr>runtime_journal.schema_version = 1, transaction_id = demo_hex 32, runtime_journal.deck_name = ''Shadow'',
      source_manifest_sha256 = demo_hex 64, state_key = ''shadow--sha256-'' @ demo_hex 64,
      logical_config_dir = ''Shadow'', package_root_sha256 = demo_hex 64,
      candidate_path = ''.hsconfig/staging/'' @ demo_hex 32, target_path = ''CustomConfig/'' @ kill_dir,
      candidate_identity = None, target_identity = None, owns_target = False,
      previous_config_dir = Some ''Old'', next_config_dir = kill_dir,
      previous_ini_sha256 = Some (demo_hex 64), next_ini_sha256 = demo_hex 64,
      phase = PREPARED, cleanup_started = False, cleanup_entries = [], cleanup_cursor = 0\<rparr>"
  by code_simp

lemma kill_start_valid: "journal_valid (start kill_tx)"
  unfolding kill_start by code_simp

lemma kill_state: "new_state kill_tx = \<lparr>st_schema_version = 1, st_decks = [\<lparr>ds_state_key = ''shadow--sha256-'' @ demo_hex 64,
    ds_deck_name = ''Shadow'', ds_config_dir = kill_dir, ds_package_root_sha256 = demo_hex 64, ds_ini_sha256 = demo_hex 64\<rparr>]\<rparr>"
  by code_simp

lemma kill_state_valid: "state_valid (new_state kill_tx)"
  unfolding kill_state by code_simp

lemma kill_installable: "installable kill_tx"
proof -
  have id: "ident kill_tx = (1, 1, 0)" by (simp add: ident_def kill_host_def kill_root_def)
  have "hex_text 32 (demo_hex 32)" using demo_hex_ok(1) by (simp add: is_transaction_id_def)
  moreover have "valid_identity (Some (ident kill_tx))" "identity_in_range (Some (ident kill_tx))"
    by (simp_all add: id valid_identity_def identity_in_range_def)
  moreover have "plan_deck_name kill_plan = ''Shadow''" "plan_versioned_config_dir kill_plan = kill_dir"
    "plan_package_root_sha256 kill_plan = spec_package_root_sha256 kill_spec" "ini_file kill_root = Some kill_old"
    by (simp_all add: kill_plan_def kill_spec_def kill_root_def)
  moreover have "receipt_file k kill_root = None" for k by (simp add: receipt_file_def kill_root_def)
  moreover have "journal_files kill_root = []" "\<not> ini_linked kill_root" "state_file kill_root = None" "staging_names kill_root = []"
    "map_of (nodes kill_root) (config_path kill_dir) = None"
    by (simp_all add: kill_root_def staging_names_def starts_with_def config_path_def kill_dir_def)
  moreover have "small None" by (simp add: small_def)
  ultimately show ?thesis
    using kill_nonces kill_package kill_inis kill_start_valid kill_state_valid
    unfolding installable_def kill_fields by (auto intro!: exI [of _ "Some kill_manifest"])
qed

lemma killed_install_recovers_witness:
  "begun kill_tx \<in> crash_points (install kill_tx False) kill_root
   \<and> (\<exists>trace r v. recover_locked kill_host (begun kill_tx) = (trace, Inr r, v) \<and> (rolled_back kill_tx v \<or> completed kill_tx v))"
proof -
  have point: "begun kill_tx \<in> crash_points (install kill_tx False) (tx_root kill_tx)"
    by (rule first_crash_points [OF kill_installable])
  have "\<not> unrecorded kill_tx (begun kill_tx)" "\<not> two_names kill_tx (begun kill_tx)"
    using roots(3) [OF kill_installable] by (simp_all add: unrecorded_def begun_def two_names_def kill_root_def)
  with killed_install_recovers [OF kill_installable point] point show ?thesis by auto
qed

lemma unbound_candidate_refused_witness:
  "\<exists>u\<in>crash_points (install kill_tx True) kill_root. recover_locked kill_host u = ([u], Inl ambiguous, u)"
  using unbound_candidate_refused [OF kill_installable, of True] by auto

end
