(* ===== verification/Spec2Isabelle.thy ===== *)
theory Spec2Isabelle
  imports SessionLifecycle ConditionFormat CardBehaviors RuntimeKilled
begin

text \<open>
  HSConfig (\<open>src/src/hsconfig\<close>) compiles configurations for a Hearthstone helper program and
  installs them into the directory of that program. A guided run, the live-start session, carries a
  deck through research, compilation, review, publication and installation; its state is a JSON
  document that is replaced by a sealed successor at every event. Compilers turn a contract of card
  facts into rule files; the files become a published revision with a manifest; the installer copies
  the revision into the runtime root of the helper, switches the INI of the helper to it, and
  records what it does in a journal, so that a killed installation is completed or rolled back by
  the next call, with the exceptions that C6 names.

  \<^bold>\<open>Prelude.\<close> \<open>PyValue\<close> has the values of the program (JSON values, dictionaries as association
  lists, errors as \<open>exn + 'a\<close>), \<open>PyText\<close> its string functions, \<open>CrashMonad\<close> programs over an explicit
  state that may raise and may be killed after every change, with weakest preconditions for
  "at every crash point". \<open>JsonCodec\<close> models \<open>json.dumps\<close> and \<open>json.loads\<close> for the canonical documents
  and holds the locale \<open>json_document\<close>: a writer and a parser that are inverse on the payloads of a
  type read back exactly the canonical bytes. It is interpreted for manifests, journals and states.

  \<^bold>\<open>Session\<close> (\<open>live_start_session.py\<close>). \<open>SessionTables\<close>: phases, events and tables. \<open>SessionDocuments\<close>:
  the pieces of documents that updates look at. \<open>SessionUpdate\<close>: the successors of the pending
  transition, of the quality step, of the apply invocation and of the cleanup. \<open>SessionMachine\<close>:
  \<open>apply_session_update\<close> with its guards and the sealing of the successor. \<open>SessionMatrix\<close>: the
  checks of a loaded session. \<open>SessionInvariants\<close>, \<open>LiveStartSession\<close> (C1 to C4), \<open>SessionPending\<close>,
  \<open>SessionProgress\<close> (over \<open>RankedSteps\<close>) and \<open>SessionLifecycle\<close> prove the revision budget, the order of
  the phases, the scope of updates, the progress of pending work and what an accepted session has.
  The validators of the embedded documents, the digest and the clock are arguments of the model.

  \<^bold>\<open>Publication.\<close> \<open>RelativePath\<close> (\<open>package_domain.py\<close>) and \<open>RunManifest\<close> (\<open>run_manifest.py\<close>): paths,
  manifests, building and verification of a revision.

  \<^bold>\<open>Installation\<close> (\<open>runtime_installer.py\<close>, \<open>runtime_transaction_journal.py\<close>, \<open>runtime_state.py\<close>,
  \<open>deck_config_ini.py\<close>, and what they use of \<open>atomic_io.py\<close> and \<open>package_io.py\<close>). \<open>TransactionJournal\<close> and \<open>TransactionRecovery\<close>: journals, their bytes and
  succession, writing and the recovery of the directory of journals. \<open>RuntimeState\<close>: the state file.
  \<open>DeckConfigIni\<close>: reading and rendering of the INI. \<open>RuntimeHost\<close>: the runtime root as a state with
  the file operations. \<open>IniReplacement\<close>: the replacement of the INI in that root, step by step. \<open>RuntimeInstall\<close> and \<open>RuntimeRecovery\<close>: the transaction and the recovery.
  \<open>RuntimeSafety\<close>: what the game sees at every crash point. \<open>RuntimeDecks\<close>: several decks in one root.
  The first installation into a root is followed through every crash point: \<open>DocumentSize\<close> bounds the
  documents, so that journals, state and receipt are within their limits; \<open>RuntimeTrees\<close>: removing
  trees, parts of a package, the digest of a complete tree; \<open>JournalDisk\<close>: what the loader makes of the
  files that a killed writer leaves; \<open>RuntimeCrash\<close>: the states between which the transaction moves
  (\<open>interrupted\<close>) and the rollback of those before the switch of the INI; \<open>RuntimeResume\<close>: completion of
  those after it; \<open>RuntimeInterrupt\<close>: every crash point is such a state; \<open>RuntimeKilled\<close>: the theorems,
  that the recovery restores the old root or completes the installation, except for a candidate that
  no journal records and for a new INI that still has two names (POSIX), both of which it refuses, and
  an example that meets all assumptions.

  \<^bold>\<open>Compilers.\<close> \<open>ConditionFormat\<close> (\<open>condition_format.py\<close>): the conditions of rules and the tests of
  their exclusion, sound and exact against the games that satisfy them. \<open>RuntimeRows\<close>
  (\<open>runtime_row_identity.py\<close>, \<open>runtime_entity_owner.py\<close>) and \<open>CardBehaviors\<close> (\<open>compile_cardid.py\<close>):
  merging of rows and the files of card behaviours.

  \<^bold>\<open>Bounds and fuel.\<close> Loops over text that are not structural carry fuel: \<open>more_classes\<close> has the length
  of the text, of which every round consumes at least one character; the JSON parser has twice the
  length of its text plus two, since every call either consumes a character or descends once into a
  value that does. The round-trip lemmas show that this fuel suffices for every canonical document.
  Strings are lists of characters below code point 256; bytes are such strings as well. Numbers of
  documents are unbounded integers; floating-point numbers are not values of the model.

  \<^bold>\<open>Simplifications of the installer.\<close> The lock of the installer is held, so nobody else changes the
  root. A journal is replaced in three steps: an empty temporary, the filled one, the replacement. The
  INI is replaced in steps too: an existing one by a temporary with a unique name, a new one through its
  two reserved names, with a link and a removal on POSIX and one rename on Windows; what is
  written to a temporary lands in at most two parts.
  State and receipt are replaced in one step: their temporaries have unique names, which no other code
  reads, and are left out. Identities and nonces of the operating system are functions of a
  counter of creations, nonces also of the directory: the assumption on them is that a new nonce is
  not in use there. Errors of the operating system within the installer are represented by the crash
  points, at which it stops; the writer of journals (C30) has them one by one, and so the fault hook. Calls of the
  installer are modelled for a well-formed transaction id, and without the admission checks before
  the recovery, which only refuse more calls. Conversions of digits ignore the limit of 4300 digits that
  Python sets.

  \<^bold>\<open>Not modelled.\<close> Retained attempts, retirement of evidence, admission files and leases of the
  installer; the controller, the publisher and the gates, which drive the modelled parts through
  processes, handles and leases of the operating system; the miners of sources, scorecards and
  reports, which work on downloaded text and floating-point scores; global values, which compute with
  floating-point numbers; command line, tests and scripts.
\<close>

end
